(* ===== verification/Prelude.thy ===== *)
theory Prelude
  imports Main "HOL-Library.Char_ord" "HOL-Library.Multiset" "HOL-Library.Sublist"
    "HOL-Library.Word"
begin

text \<open>
  Shared vocabulary of the development: results with an error side, actions that thread a state
  and may stop with an error, and the generic list lemmas the components use.  A Rust
  \<^verbatim>\<open>Result<T, E>\<close> is a value of \<^typ>\<open>'e + 'a\<close> (\<^term>\<open>Inl e\<close> for \<^verbatim>\<open>Err\<close>), an \<^verbatim>\<open>Option\<close> is an
  \<^typ>\<open>'a option\<close>, the question-mark operator is \<open>bind_res\<close> (pure) or \<open>act_bind\<close> (stateful).
\<close>

named_theorems act_simps \<open>unfolding rules of the state and error actions\<close>
named_theorems invar_intros \<open>preservation lemmas of the components' invariants\<close>

section \<open>Results\<close>

type_synonym ('e, 'a) res = "'e + 'a"

definition bind_res :: "('e, 'a) res \<Rightarrow> ('a \<Rightarrow> ('e, 'b) res) \<Rightarrow> ('e, 'b) res" where
  "bind_res r f = (case r of Inl e \<Rightarrow> Inl e | Inr a \<Rightarrow> f a)"

definition map_err :: "('e \<Rightarrow> 'f) \<Rightarrow> ('e, 'a) res \<Rightarrow> ('f, 'a) res" where
  "map_err g r = (case r of Inl e \<Rightarrow> Inl (g e) | Inr a \<Rightarrow> Inr a)"

definition ok_or :: "'e \<Rightarrow> 'a option \<Rightarrow> ('e, 'a) res" where
  "ok_or e m = (case m of None \<Rightarrow> Inl e | Some a \<Rightarrow> Inr a)"

definition is_ok :: "('e, 'a) res \<Rightarrow> bool" where
  "is_ok r = (case r of Inl _ \<Rightarrow> False | Inr _ \<Rightarrow> True)"

lemma bind_res_simps [simp, act_simps]:
  "bind_res (Inl e) f = Inl e"
  "bind_res (Inr a) f = f a"
  by (simp_all add: bind_res_def)

lemma bind_res_eq_Inr:
  "bind_res r f = Inr b \<longleftrightarrow> (\<exists>a. r = Inr a \<and> f a = Inr b)"
  by (cases r) auto

lemma bind_res_eq_Inl:
  "bind_res r f = Inl e \<longleftrightarrow> r = Inl e \<or> (\<exists>a. r = Inr a \<and> f a = Inl e)"
  by (cases r) auto

lemma bind_res_assoc: "bind_res (bind_res r f) g = bind_res r (\<lambda>a. bind_res (f a) g)"
  by (cases r) auto

lemma map_err_simps [simp, act_simps]:
  "map_err g (Inl e) = Inl (g e)"
  "map_err g (Inr a) = Inr a"
  by (simp_all add: map_err_def)

lemma map_err_eq_Inr [simp]: "map_err g r = Inr a \<longleftrightarrow> r = Inr a"
  by (cases r) auto

lemma map_err_eq_Inl: "map_err g r = Inl e \<longleftrightarrow> (\<exists>d. r = Inl d \<and> e = g d)"
  by (cases r) auto

lemma ok_or_simps [simp, act_simps]:
  "ok_or e None = Inl e"
  "ok_or e (Some a) = Inr a"
  by (simp_all add: ok_or_def)

lemma ok_or_eq_Inr [simp]: "ok_or e m = Inr a \<longleftrightarrow> m = Some a"
  by (cases m) auto

lemma ok_or_eq_Inl: "ok_or e m = Inl d \<longleftrightarrow> m = None \<and> d = e"
  by (cases m) auto

lemma is_ok_simps [simp]: "\<not> is_ok (Inl e)" "is_ok (Inr a)"
  by (simp_all add: is_ok_def)

lemma is_ok_iff: "is_ok r \<longleftrightarrow> (\<exists>a. r = Inr a)"
  by (cases r) auto

section \<open>Actions: state passing with errors\<close>

text \<open>
  An action runs in a state and returns either an error or a value, together with the state it
  leaves behind.  The state survives an error, as the effects of a Rust function do when it
  returns early.
\<close>

type_synonym ('s, 'e, 'a) act = "'s \<Rightarrow> ('e, 'a) res \<times> 's"

definition act_ret :: "'a \<Rightarrow> ('s, 'e, 'a) act" where
  "act_ret a = (\<lambda>s. (Inr a, s))"

definition act_err :: "'e \<Rightarrow> ('s, 'e, 'a) act" where
  "act_err e = (\<lambda>s. (Inl e, s))"

definition act_bind :: "('s, 'e, 'a) act \<Rightarrow> ('a \<Rightarrow> ('s, 'e, 'b) act) \<Rightarrow> ('s, 'e, 'b) act" where
  "act_bind m f = (\<lambda>s. case m s of (Inl e, t) \<Rightarrow> (Inl e, t) | (Inr a, t) \<Rightarrow> f a t)"

definition act_then :: "('s, 'e, 'a) act \<Rightarrow> ('s, 'e, 'b) act \<Rightarrow> ('s, 'e, 'b) act" where
  "act_then m n = act_bind m (\<lambda>_. n)"

definition act_get :: "('s \<Rightarrow> 'a) \<Rightarrow> ('s, 'e, 'a) act" where
  "act_get g = (\<lambda>s. (Inr (g s), s))"

definition act_mod :: "('s \<Rightarrow> 's) \<Rightarrow> ('s, 'e, unit) act" where
  "act_mod g = (\<lambda>s. (Inr (), g s))"

definition act_lift :: "('e, 'a) res \<Rightarrow> ('s, 'e, 'a) act" where
  "act_lift r = (\<lambda>s. (r, s))"

definition act_map_err :: "('e \<Rightarrow> 'f) \<Rightarrow> ('s, 'e, 'a) act \<Rightarrow> ('s, 'f, 'a) act" where
  "act_map_err g m = (\<lambda>s. case m s of (r, t) \<Rightarrow> (map_err g r, t))"

text \<open>Running an action and looking at its outcome (\<^verbatim>\<open>match f().await\<close>), or discarding it
  (\<^verbatim>\<open>let _ = f().await\<close>).\<close>

definition act_try :: "('s, 'e, 'a) act \<Rightarrow> ('s, 'f, ('e, 'a) res) act" where
  "act_try m = (\<lambda>s. case m s of (r, t) \<Rightarrow> (Inr r, t))"

definition act_ignore :: "('s, 'e, 'a) act \<Rightarrow> ('s, 'f, unit) act" where
  "act_ignore m = (\<lambda>s. (Inr (), snd (m s)))"

lemma act_run_simps [act_simps]:
  "act_ret a s = (Inr a, s)"
  "act_err e s = (Inl e, s)"
  "act_get g s = (Inr (g s), s)"
  "act_mod h s = (Inr (), h s)"
  "act_lift r s = (r, s)"
  "act_ignore m s = (Inr (), snd (m s))"
  by (simp_all add: act_ret_def act_err_def act_get_def act_mod_def act_lift_def act_ignore_def)

lemma act_bind_run [act_simps]:
  "act_bind m f s = (case m s of (Inl e, t) \<Rightarrow> (Inl e, t) | (Inr a, t) \<Rightarrow> f a t)"
  "act_then m n s = (case m s of (Inl e, t) \<Rightarrow> (Inl e, t) | (Inr a, t) \<Rightarrow> n t)"
  "act_try m s = (case m s of (r, t) \<Rightarrow> (Inr r, t))"
  "act_map_err g m s = (case m s of (r, t) \<Rightarrow> (map_err g r, t))"
  by (simp_all add: act_bind_def act_then_def act_try_def act_map_err_def)

lemma act_bind_Inr:
  assumes "act_bind m f s = (Inr b, u)"
  obtains a t where "m s = (Inr a, t)" and "f a t = (Inr b, u)"
  using assms by (auto simp: act_bind_def split: prod.splits sum.splits)

lemma act_then_Inr:
  assumes "act_then m n s = (Inr b, u)"
  obtains a t where "m s = (Inr a, t)" and "n t = (Inr b, u)"
  using assms by (auto simp: act_bind_run split: prod.splits sum.splits)

section \<open>Lists\<close>

text \<open>\<^verbatim>\<open>iter().find(p)\<close> is \<^const>\<open>List.find\<close>; replacing the element it finds in place:\<close>

fun update_first :: "('a \<Rightarrow> bool) \<Rightarrow> ('a \<Rightarrow> 'a) \<Rightarrow> 'a list \<Rightarrow> 'a list" where
  "update_first p f [] = []"
| "update_first p f (x # xs) = (if p x then f x # xs else x # update_first p f xs)"

lemma length_update_first [simp]: "length (update_first p f xs) = length xs"
  by (induction xs) auto

lemma update_first_none: "\<forall>x \<in> set xs. \<not> p x \<Longrightarrow> update_first p f xs = xs"
  by (induction xs) auto

lemma set_update_first: "set (update_first p f xs) \<subseteq> set xs \<union> f ` {x \<in> set xs. p x}"
  by (induction xs) auto

lemma map_update_first:
  "(\<And>x. p x \<Longrightarrow> g (f x) = g x) \<Longrightarrow> map g (update_first p f xs) = map g xs"
  by (induction xs) auto

lemma find_Some_mem: "List.find p xs = Some x \<Longrightarrow> x \<in> set xs \<and> p x"
  by (induction xs) (auto split: if_splits)

lemma find_None_all: "List.find p xs = None \<longleftrightarrow> (\<forall>x \<in> set xs. \<not> p x)"
  by (induction xs) auto

lemma find_distinct_key:
  "distinct (map k xs) \<Longrightarrow> x \<in> set xs \<Longrightarrow> List.find (\<lambda>y. k y = k x) xs = Some x"
  by (induction xs) (auto simp: image_iff)

lemma find_key_update_first:
  assumes "\<And>x. k (f x) = k x"
  shows "List.find (\<lambda>x. k x = j) (update_first (\<lambda>x. k x = i) f xs)
       = (if j = i then map_option f (List.find (\<lambda>x. k x = i) xs)
          else List.find (\<lambda>x. k x = j) xs)"
  by (induction xs) (auto simp: assms)

lemma distinct_map_filter: "distinct (map k xs) \<Longrightarrow> distinct (map k (filter p xs))"
  by (induction xs) auto

lemma take_subset: "set (take n xs) \<subseteq> set xs"
  by (rule set_take_subset)

section \<open>Sorting in descending order of a key\<close>

text \<open>
  Rust's \<^verbatim>\<open>sort_by\<close> and \<^verbatim>\<open>sort_by_key\<close> are stable.  The library's \<^const>\<open>sort_key\<close> is a stable sort
  in ascending order; for a comparison that is not a key into a linear order, the stable
  insertion sort below takes the comparison ``not greater'' directly.
\<close>

fun insert_by :: "('a \<Rightarrow> 'a \<Rightarrow> bool) \<Rightarrow> 'a \<Rightarrow> 'a list \<Rightarrow> 'a list" where
  "insert_by le x [] = [x]"
| "insert_by le x (y # ys) = (if le x y then x # y # ys else y # insert_by le x ys)"

fun sort_by :: "('a \<Rightarrow> 'a \<Rightarrow> bool) \<Rightarrow> 'a list \<Rightarrow> 'a list" where
  "sort_by le [] = []"
| "sort_by le (x # xs) = insert_by le x (sort_by le xs)"

lemma mset_insert_by [simp]: "mset (insert_by le x xs) = add_mset x (mset xs)"
  by (induction xs) auto

lemma mset_sort_by [simp]: "mset (sort_by le xs) = mset xs"
  by (induction xs) auto

lemma set_sort_by [simp]: "set (sort_by le xs) = set xs"
  by (rule mset_eq_setD) simp

lemma set_insert_by [simp]: "set (insert_by le x xs) = insert x (set xs)"
  by (induction xs) auto

lemma length_sort_by [simp]: "length (sort_by le xs) = length xs"
  by (rule mset_eq_length) simp

lemma sorted_insert_by:
  assumes tot: "\<And>a b. a \<in> A \<Longrightarrow> b \<in> A \<Longrightarrow> le a b \<or> le b a"
    and tr: "\<And>a b c. a \<in> A \<Longrightarrow> b \<in> A \<Longrightarrow> c \<in> A \<Longrightarrow> le a b \<Longrightarrow> le b c \<Longrightarrow> le a c"
    and "x \<in> A" "set xs \<subseteq> A" "sorted_wrt le xs"
  shows "sorted_wrt le (insert_by le x xs)"
  using assms(3-5)
proof (induction xs)
  case (Cons y ys)
  show ?case
  proof (cases "le x y")
    case True
    with Cons.prems tr [of x y] show ?thesis by auto
  next
    case False
    with tot [of x y] Cons.prems have "le y x" by auto
    with False Cons show ?thesis by auto
  qed
qed simp

lemma sorted_sort_by:
  assumes "\<And>a b. a \<in> set xs \<Longrightarrow> b \<in> set xs \<Longrightarrow> le a b \<or> le b a"
    and "\<And>a b c. a \<in> set xs \<Longrightarrow> b \<in> set xs \<Longrightarrow> c \<in> set xs \<Longrightarrow> le a b \<Longrightarrow> le b c \<Longrightarrow> le a c"
  shows "sorted_wrt le (sort_by le xs)"
proof -
  have "set ys \<subseteq> set xs \<Longrightarrow> sorted_wrt le (sort_by le ys)" for ys
  proof (induction ys)
    case (Cons y ys)
    then show ?case
      by (auto intro!: sorted_insert_by [where A = "set xs"] intro: assms(2) dest: assms(1))
  qed simp
  then show ?thesis by simp
qed

lemma sorted_wrt_take: "sorted_wrt le xs \<Longrightarrow> sorted_wrt le (take n xs)"
  by (metis append_take_drop_id sorted_wrt_append)

end
