(* ===== verification/F64.thy ===== *)
theory F64
  imports Complex_Main Prelude "HOL-Library.Log_Nat"
begin

text \<open>
  Rust's \<^verbatim>\<open>f64\<close>: IEEE-754 binary64 with rounding to nearest, ties to even.  A finite value is a
  sign and an exact rational magnitude, so both zeros exist; every operation computes the exact
  rational result and rounds it once.  Magnitudes that reach $2^{1024}$ after rounding overflow to
  infinity; the grid of a magnitude below $2^{-1022}$ is the subnormal one.
\<close>

section \<open>Rounding a magnitude\<close>

text \<open>The exponent \<open>e\<close> with \<open>2^e \<le> q < 2^(e+1)\<close>, from the bit lengths of the fraction.\<close>

definition binade :: "rat \<Rightarrow> int" where
  "binade q = (case quotient_of q of (a, b) \<Rightarrow>
     (let e = bitlen a - bitlen b in if 2 powi e \<le> q then e else e - 1))"

text \<open>The grid a magnitude is rounded to: 53 significant bits, or the subnormal grid.\<close>

definition grid :: "rat \<Rightarrow> int" where
  "grid q = max (- 1074) (binade q - 52)"

definition half_even :: "rat \<Rightarrow> int" where
  "half_even x = (let n = \<lfloor>x\<rfloor>; r = x - of_int n in
     if r < 1/2 then n else if 1/2 < r then n + 1 else if even n then n else n + 1)"

definition rnd :: "rat \<Rightarrow> rat" where
  "rnd q = (if q = 0 then 0
            else of_int (half_even (q / 2 powi (grid q))) * 2 powi (grid q))"

lemma powi_pos [simp]: "(0::rat) < 2 powi e"
  by (simp add: power_int_def)

lemma powi_neq0 [simp]: "(2::rat) powi e \<noteq> 0"
  using powi_pos [of e] by linarith

lemma powi_nat: "0 \<le> e \<Longrightarrow> (2::rat) powi e = 2 ^ nat e"
  by (simp add: power_int_def)

lemma powi_le: "a \<le> b \<Longrightarrow> (2::rat) powi a \<le> 2 powi b"
  by (simp add: power_int_increasing)

lemma powi_add: "(2::rat) powi (a + b) = 2 powi a * 2 powi b"
  by (simp add: power_int_add)

lemma bitlen_rat_bounds:
  assumes "0 < a"
  shows "2 powi (bitlen a - 1) \<le> (of_int a :: rat)" and "(of_int a :: rat) < 2 powi (bitlen a)"
proof -
  from assms have b: "0 < bitlen a"
    using bitlen_eq_zero_iff [of a] bitlen_nonneg [of a] by linarith
  have *: "2 ^ nat (bitlen a - 1) \<le> a \<and> a < 2 ^ nat (bitlen a)"
    by (rule bitlen_bounds [OF assms])
  then have "(of_int (2 ^ nat (bitlen a - 1)) :: rat) \<le> of_int a" "(of_int a :: rat) < of_int (2 ^ nat (bitlen a))"
    by (simp_all only: of_int_le_iff of_int_less_iff)
  with b show "2 powi (bitlen a - 1) \<le> (of_int a :: rat)" and "(of_int a :: rat) < 2 powi (bitlen a)"
    by (simp_all add: powi_nat)
qed

lemma binade_bounds:
  assumes "0 < q"
  shows "2 powi (binade q) \<le> q" and "q < 2 powi (binade q + 1)"
proof -
  obtain a b where ab: "quotient_of q = (a, b)" by (cases "quotient_of q")
  then have b: "0 < b" by (rule quotient_of_denom_pos)
  from ab have q: "q = of_int a / of_int b" by (rule quotient_of_div)
  with assms b have a: "0 < a" by (simp add: zero_less_divide_iff)
  let ?A = "(of_int a :: rat)" and ?B = "(of_int b :: rat)"
  let ?la = "bitlen a" and ?lb = "bitlen b"
  have lo: "2 powi (?la - 1 - ?lb) \<le> q"
  proof -
    have "2 powi (?la - 1) / 2 powi ?lb \<le> ?A / ?B"
      using bitlen_rat_bounds [OF a] bitlen_rat_bounds [OF b] a b
      by (intro frac_le) auto
    then show ?thesis by (simp add: q power_int_diff)
  qed
  have hi: "q < 2 powi (?la - ?lb + 1)"
  proof -
    have "?A / ?B < 2 powi ?la / 2 powi (?lb - 1)"
      using bitlen_rat_bounds [OF a] bitlen_rat_bounds [OF b] a b
      by (intro frac_less) auto
    then show ?thesis by (simp add: q power_int_diff power_int_add)
  qed
  show "2 powi (binade q) \<le> q"
    using lo by (simp add: binade_def ab Let_def algebra_simps)
  show "q < 2 powi (binade q + 1)"
    using hi by (auto simp: binade_def ab Let_def not_le)
qed

lemma binade_mono:
  assumes "0 < p" and "p \<le> q"
  shows "binade p \<le> binade q"
proof (rule ccontr)
  assume "\<not> binade p \<le> binade q"
  then have "(2::rat) powi (binade q + 1) \<le> 2 powi (binade p)"
    by (intro powi_le) simp
  with binade_bounds(1) [OF assms(1)] binade_bounds(2) [of q] assms show False by linarith
qed

lemma binade_unique:
  assumes "2 powi e \<le> q" and "q < 2 powi (e + 1)"
  shows "binade q = e"
proof (rule antisym)
  have q: "0 < q" using assms(1) powi_pos [of e] by linarith
  show "binade q \<le> e"
  proof (rule ccontr)
    assume "\<not> binade q \<le> e"
    then have "(2::rat) powi (e + 1) \<le> 2 powi (binade q)" by (intro powi_le) simp
    with binade_bounds(1) [OF q] assms(2) show False by linarith
  qed
  show "e \<le> binade q"
  proof (rule ccontr)
    assume "\<not> e \<le> binade q"
    then have "(2::rat) powi (binade q + 1) \<le> 2 powi e" by (intro powi_le) simp
    with binade_bounds(2) [OF q] assms(1) show False by linarith
  qed
qed

lemma half_even_int [simp]: "half_even (of_int n) = n"
  by (simp add: half_even_def)

lemma half_even_bounds: "\<lfloor>x\<rfloor> \<le> half_even x" "half_even x \<le> \<lfloor>x\<rfloor> + 1"
  by (auto simp: half_even_def Let_def)

lemma half_even_mono:
  assumes "x \<le> y"
  shows "half_even x \<le> half_even y"
proof (cases "\<lfloor>x\<rfloor> = \<lfloor>y\<rfloor>")
  case True
  with assms show ?thesis by (auto simp: half_even_def Let_def)
next
  case False
  with floor_mono [OF assms] have "\<lfloor>x\<rfloor> + 1 \<le> \<lfloor>y\<rfloor>" by simp
  with half_even_bounds(1) [of y] half_even_bounds(2) [of x] show ?thesis by linarith
qed

lemma half_even_nonneg: "0 \<le> x \<Longrightarrow> 0 \<le> half_even x"
  using half_even_bounds(1) [of x] by linarith


lemma rnd_nonneg: "0 \<le> q \<Longrightarrow> 0 \<le> rnd q"
  by (simp add: rnd_def half_even_nonneg)

text \<open>A multiple of the grid of its own binade is not changed by rounding.\<close>

lemma rnd_on_grid:
  assumes q: "q = of_int m * 2 powi (grid q)"
  shows "rnd q = q"
proof (cases "q = 0")
  case False
  have "q / 2 powi (grid q) = of_int m"
    using q by (simp add: divide_eq_eq)
  with False have "rnd q = of_int m * 2 powi (grid q)" by (simp add: rnd_def)
  also have "\<dots> = q" by (rule q [symmetric])
  finally show ?thesis .
qed (simp add: rnd_def)

lemma rnd_fix:
  assumes q: "q = of_int m * 2 powi e" and g: "grid q \<le> e"
  shows "rnd q = q"
proof -
  have split: "(2::rat) powi e = 2 ^ nat (e - grid q) * 2 powi (grid q)"
  proof -
    have "(2::rat) powi e = 2 powi ((e - grid q) + grid q)" by simp
    also have "\<dots> = 2 powi (e - grid q) * 2 powi (grid q)" by (rule powi_add)
    finally show ?thesis using g by (simp add: powi_nat)
  qed
  have "q = of_int (m * 2 ^ nat (e - grid q)) * 2 powi (grid q)"
    by (subst q, subst split) simp
  then show ?thesis by (rule rnd_on_grid)
qed

lemma grid_le:
  assumes "0 < q" and "q \<le> 2 powi (e + 53)" and "- 1074 \<le> e" and "q < 2 powi (e + 53)"
  shows "grid q \<le> e"
proof -
  have "binade q < e + 53"
  proof (rule ccontr)
    assume "\<not> binade q < e + 53"
    then have "(2::rat) powi (e + 53) \<le> 2 powi (binade q)" by (intro powi_le) simp
    with binade_bounds(1) [OF assms(1)] assms(4) show False by linarith
  qed
  with assms(3) show ?thesis by (simp add: grid_def)
qed

lemma rnd_representable:
  assumes "q = of_int m * 2 powi e" and "0 \<le> m" and "m < 2 ^ 53" and "- 1074 \<le> e"
  shows "rnd q = q"
proof (cases "m = 0")
  case True
  with assms show ?thesis by (simp add: rnd_def)
next
  case False
  with assms have "0 < q" by simp
  moreover have "q < 2 powi (e + 53)"
  proof -
    have "(of_int m :: rat) < of_int (2 ^ 53)"
      using assms(3) by (simp only: of_int_less_iff)
    then have "(of_int m :: rat) < 2 powi 53" by simp
    then show ?thesis by (simp add: assms(1) powi_add mult.commute)
  qed
  ultimately have "grid q \<le> e" using assms(4) by (intro grid_le) auto
  with assms(1) show ?thesis by (rule rnd_fix)
qed

lemma rnd_int: "0 \<le> n \<Longrightarrow> n < 2 ^ 53 \<Longrightarrow> rnd (of_int n) = of_int n"
  by (rule rnd_representable [where m = n and e = 0]) auto

lemma rnd_numeral [simp]:
  "rnd 0 = 0" "rnd 1 = 1" "rnd 2 = 2" "rnd 3 = 3" "rnd (1/2) = 1/2" "rnd (1/8) = 1/8"
  using rnd_int [of 1] rnd_int [of 2] rnd_int [of 3]
    rnd_representable [of "1/2" 1 "- 1"] rnd_representable [of "1/8" 1 "- 3"]
  by (simp_all add: rnd_def power_int_minus)

section \<open>Rounding is monotone\<close>

lemma rnd_binade_upper:
  assumes "0 < q"
  shows "rnd q \<le> 2 powi (max (- 1022) (binade q + 1))"
proof -
  let ?g = "grid q"
  have top: "(2::rat) powi (max (- 1022) (binade q + 1)) = of_int (2 ^ nat (max (- 1022) (binade q + 1) - ?g)) * 2 powi ?g"
  proof -
    have "0 \<le> max (- 1022) (binade q + 1) - ?g" by (auto simp: grid_def)
    then show ?thesis by (simp flip: powi_nat powi_add)
  qed
  have "q / 2 powi ?g \<le> of_int (2 ^ nat (max (- 1022) (binade q + 1) - ?g))"
  proof -
    have "q \<le> 2 powi (max (- 1022) (binade q + 1))"
      using binade_bounds(2) [OF assms] powi_le [of "binade q + 1" "max (- 1022) (binade q + 1)"] by linarith
    with top show ?thesis by (simp add: divide_le_eq)
  qed
  then have "half_even (q / 2 powi ?g) \<le> 2 ^ nat (max (- 1022) (binade q + 1) - ?g)"
    by (metis half_even_int half_even_mono)
  then have "(of_int (half_even (q / 2 powi ?g)) :: rat) \<le> of_int (2 ^ nat (max (- 1022) (binade q + 1) - ?g))"
    by (simp only: of_int_le_iff)
  with assms show ?thesis
    by (subst top) (simp add: rnd_def)
qed

lemma rnd_binade_lower:
  assumes "0 < q" and "- 1074 \<le> e" and "2 powi e \<le> q"
  shows "2 powi e \<le> rnd q"
proof -
  let ?g = "grid q"
  have e: "e \<le> binade q"
  proof (rule ccontr)
    assume "\<not> e \<le> binade q"
    then have "(2::rat) powi (binade q + 1) \<le> 2 powi e" by (intro powi_le) simp
    with binade_bounds(2) [OF assms(1)] assms(3) show False by linarith
  qed
  let ?t = "max e ?g"
  have "(2::rat) powi ?t \<le> q"
  proof (cases "e \<le> ?g")
    case True
    have "?g \<le> binade q" using e assms(2) by (auto simp: grid_def)
    then have "(2::rat) powi ?g \<le> q"
      using binade_bounds(1) [OF assms(1)] powi_le [of ?g "binade q"] by linarith
    with True show ?thesis by simp
  qed (use assms(3) in auto)
  moreover have top: "(2::rat) powi ?t = of_int (2 ^ nat (?t - ?g)) * 2 powi ?g"
    by (simp flip: powi_nat powi_add)
  ultimately have "of_int (2 ^ nat (?t - ?g)) \<le> q / 2 powi ?g"
    by (simp add: le_divide_eq)
  then have "2 ^ nat (?t - ?g) \<le> half_even (q / 2 powi ?g)"
    by (metis half_even_int half_even_mono)
  then have "(of_int (2 ^ nat (?t - ?g)) :: rat) \<le> of_int (half_even (q / 2 powi ?g))"
    by (simp only: of_int_le_iff)
  then have "(2::rat) powi ?t \<le> rnd q"
    using assms(1) by (subst top) (simp add: rnd_def)
  moreover have "(2::rat) powi e \<le> 2 powi ?t" by (rule powi_le) simp
  ultimately show ?thesis by linarith
qed

lemma rnd_mono:
  assumes "0 \<le> p" and "p \<le> q"
  shows "rnd p \<le> rnd q"
proof (cases "p = 0")
  case True
  with assms show ?thesis by (simp add: rnd_nonneg)
next
  case False
  with assms have p: "0 < p" and q: "0 < q" by auto
  show ?thesis
  proof (cases "grid p = grid q")
    case True
    have "half_even (p / 2 powi (grid q)) \<le> half_even (q / 2 powi (grid q))"
      by (intro half_even_mono divide_right_mono assms) (simp add: less_imp_le)
    with p q True show ?thesis by (simp add: rnd_def)
  next
    case False
    let ?e = "max (- 1022) (binade p + 1)"
    from False binade_mono [OF p assms(2)] have "binade p < binade q" "- 1022 < binade q"
      by (auto simp: grid_def max_def split: if_splits)
    then have "(2::rat) powi ?e \<le> 2 powi (binade q)" by (intro powi_le) auto
    with binade_bounds(1) [OF q] have "2 powi ?e \<le> q" by linarith
    then have "2 powi ?e \<le> rnd q" using q by (intro rnd_binade_lower) auto
    with rnd_binade_upper [OF p] show ?thesis by linarith
  qed
qed

lemma rnd_le_fix: "0 \<le> p \<Longrightarrow> p \<le> q \<Longrightarrow> rnd q = q \<Longrightarrow> rnd p \<le> q"
  using rnd_mono [of p q] by simp

lemma rnd_ge_fix: "0 \<le> p \<Longrightarrow> p \<le> q \<Longrightarrow> rnd p = p \<Longrightarrow> p \<le> rnd q"
  using rnd_mono [of p q] by simp

text \<open>Rounded values between one half and one lie on the grid of $2^{-53}$.\<close>

lemma rnd_half_grid:
  assumes "0 \<le> q" and "1/2 \<le> rnd q"
  obtains k where "rnd q = of_int k * 2 powi (- 53)"
proof (cases "1/2 \<le> q")
  case True
  have "- 1 \<le> binade q"
  proof (rule ccontr)
    assume "\<not> - 1 \<le> binade q"
    then have "(2::rat) powi (binade q + 1) \<le> 2 powi (- 1)" by (intro powi_le) simp
    with binade_bounds(2) [of q] True show False by (simp add: power_int_minus)
  qed
  then have g: "- 53 \<le> grid q" by (simp add: grid_def)
  have "rnd q = of_int (half_even (q / 2 powi (grid q)) * 2 ^ nat (grid q + 53)) * 2 powi (- 53)"
  proof -
    have "(2::rat) powi (grid q) = 2 powi (grid q + 53) * 2 powi (- 53)"
      by (subst powi_add [symmetric]) simp
    with g True show ?thesis by (auto simp: rnd_def powi_nat)
  qed
  then show ?thesis by (rule that)
next
  case False
  with assms(1) have "rnd q \<le> 1/2" by (intro rnd_le_fix) auto
  with assms(2) have "rnd q = of_int (2 ^ 52) * 2 powi (- 53)"
    by (simp add: power_int_minus)
  then show ?thesis by (rule that)
qed

text \<open>So their distance from one is computed exactly.\<close>

lemma rnd_one_minus:
  assumes "0 \<le> q" and "1/2 \<le> rnd q" and "rnd q \<le> 1"
  shows "rnd (1 - rnd q) = 1 - rnd q"
proof -
  obtain k where k: "rnd q = of_int k * 2 powi (- 53)"
    using rnd_half_grid [OF assms(1,2)] .
  let ?h = "(2::rat) powi (- 53)"
  have one: "(1::rat) = of_int (2 ^ 53) * ?h" by (simp add: power_int_minus)
  have eq: "1 - rnd q = of_int (2 ^ 53 - k) * ?h"
    by (subst one) (simp add: k algebra_simps power_int_minus)
  have "of_int k * ?h \<le> of_int (2 ^ 53) * ?h" using assms(3) k one by linarith
  then have "k \<le> 2 ^ 53" by (simp add: power_int_minus)
  moreover have "0 < k"
  proof (rule ccontr)
    assume "\<not> 0 < k"
    then have "of_int k * ?h \<le> 0" by (simp add: mult_le_0_iff power_int_minus)
    with assms(2) k show False by linarith
  qed
  ultimately show ?thesis
    using rnd_representable [OF eq] by simp
qed


section \<open>Values and operations\<close>

text \<open>The \<open>bool\<close> is the sign bit (\<open>True\<close> is negative); \<open>Fin\<close> carries the magnitude.\<close>

datatype f64 = NaN | Inf bool | Fin bool rat

definition overflows :: "rat \<Rightarrow> bool" where
  "overflows r \<longleftrightarrow> 0 < r \<and> 1024 \<le> binade r"

definition round_mag :: "bool \<Rightarrow> rat \<Rightarrow> f64" where
  "round_mag s q = (let r = rnd q in if overflows r then Inf s else Fin s r)"

fun sval :: "bool \<Rightarrow> rat \<Rightarrow> rat" where
  "sval s m = (if s then - m else m)"

definition round_val :: "rat \<Rightarrow> f64" where
  "round_val v = round_mag (v < 0) \<bar>v\<bar>"

fun f_neg :: "f64 \<Rightarrow> f64" where
  "f_neg NaN = NaN"
| "f_neg (Inf s) = Inf (\<not> s)"
| "f_neg (Fin s m) = Fin (\<not> s) m"

fun f_add :: "f64 \<Rightarrow> f64 \<Rightarrow> f64" where
  "f_add NaN _ = NaN"
| "f_add _ NaN = NaN"
| "f_add (Inf s) (Inf t) = (if s = t then Inf s else NaN)"
| "f_add (Inf s) (Fin _ _) = Inf s"
| "f_add (Fin _ _) (Inf t) = Inf t"
| "f_add (Fin s m) (Fin t n) =
     (let v = sval s m + sval t n in if v = 0 then Fin (s \<and> t) 0 else round_val v)"

definition f_sub :: "f64 \<Rightarrow> f64 \<Rightarrow> f64" where
  "f_sub x y = f_add x (f_neg y)"

fun f_mul :: "f64 \<Rightarrow> f64 \<Rightarrow> f64" where
  "f_mul NaN _ = NaN"
| "f_mul _ NaN = NaN"
| "f_mul (Inf s) (Inf t) = Inf (s \<noteq> t)"
| "f_mul (Inf s) (Fin t n) = (if n = 0 then NaN else Inf (s \<noteq> t))"
| "f_mul (Fin s m) (Inf t) = (if m = 0 then NaN else Inf (s \<noteq> t))"
| "f_mul (Fin s m) (Fin t n) = round_mag (s \<noteq> t) (m * n)"

fun f_div :: "f64 \<Rightarrow> f64 \<Rightarrow> f64" where
  "f_div NaN _ = NaN"
| "f_div _ NaN = NaN"
| "f_div (Inf _) (Inf _) = NaN"
| "f_div (Inf s) (Fin t _) = Inf (s \<noteq> t)"
| "f_div (Fin s _) (Inf t) = Fin (s \<noteq> t) 0"
| "f_div (Fin s m) (Fin t n) =
     (if n = 0 then (if m = 0 then NaN else Inf (s \<noteq> t)) else round_mag (s \<noteq> t) (m / n))"

text \<open>Comparisons: every comparison with a NaN is false, the two zeros are equal.\<close>

fun f_le :: "f64 \<Rightarrow> f64 \<Rightarrow> bool" where
  "f_le NaN _ = False"
| "f_le _ NaN = False"
| "f_le (Inf s) (Inf t) = (s \<or> \<not> t)"
| "f_le (Inf s) (Fin _ _) = s"
| "f_le (Fin _ _) (Inf t) = (\<not> t)"
| "f_le (Fin s m) (Fin t n) = (sval s m \<le> sval t n)"

definition f_lt :: "f64 \<Rightarrow> f64 \<Rightarrow> bool" where
  "f_lt x y \<longleftrightarrow> f_le x y \<and> \<not> f_le y x"

definition f_eq :: "f64 \<Rightarrow> f64 \<Rightarrow> bool" where
  "f_eq x y \<longleftrightarrow> f_le x y \<and> f_le y x"

definition is_nan :: "f64 \<Rightarrow> bool" where
  "is_nan x \<longleftrightarrow> \<not> f_le x x"

text \<open>\<^verbatim>\<open>a.partial_cmp(&b).unwrap_or(Equal)\<close> is not \<^verbatim>\<open>Greater\<close>.\<close>

definition f_not_gt :: "f64 \<Rightarrow> f64 \<Rightarrow> bool" where
  "f_not_gt x y \<longleftrightarrow> \<not> f_lt y x"

text \<open>Casts: \<^verbatim>\<open>n as f64\<close>, and the saturating \<^verbatim>\<open>x as usize\<close> (64 bits).\<close>

definition f_of_nat :: "nat \<Rightarrow> f64" where
  "f_of_nat n = round_mag False (of_nat n)"

fun f_to_usize :: "f64 \<Rightarrow> nat" where
  "f_to_usize NaN = 0"
| "f_to_usize (Inf s) = (if s then 0 else 2 ^ 64 - 1)"
| "f_to_usize (Fin s m) = (if s then 0 else min (2 ^ 64 - 1) (nat \<lfloor>m\<rfloor>))"

text \<open>A decimal literal or parsed number, rounded once.\<close>

definition f_of_rat :: "rat \<Rightarrow> f64" where
  "f_of_rat q = round_val q"

text \<open>\<^verbatim>\<open>ceil\<close> and \<^verbatim>\<open>round\<close> (half away from zero) and \<^verbatim>\<open>max\<close>.\<close>

fun f_ceil :: "f64 \<Rightarrow> f64" where
  "f_ceil NaN = NaN"
| "f_ceil (Inf s) = Inf s"
| "f_ceil (Fin s m) = Fin s (if s then of_int \<lfloor>m\<rfloor> else of_int \<lceil>m\<rceil>)"

fun f_round :: "f64 \<Rightarrow> f64" where
  "f_round NaN = NaN"
| "f_round (Inf s) = Inf s"
| "f_round (Fin s m) = Fin s (of_int \<lfloor>m + 1/2\<rfloor>)"

definition f_max :: "f64 \<Rightarrow> f64 \<Rightarrow> f64" where
  "f_max x y = (if is_nan x then y else if is_nan y then x else if f_lt x y then y else x)"

section \<open>Facts used by the components\<close>

lemma overflows_iff: "overflows r \<longleftrightarrow> 2 powi 1024 \<le> r"
proof
  assume "overflows r"
  then have "0 < r" "1024 \<le> binade r" by (simp_all add: overflows_def)
  then show "2 powi 1024 \<le> r"
    using binade_bounds(1) [of r] powi_le [of 1024 "binade r"] by linarith
next
  assume r: "2 powi 1024 \<le> r"
  then have "0 < r" using powi_pos [of 1024] by linarith
  moreover have "1024 \<le> binade r"
  proof (rule ccontr)
    assume "\<not> 1024 \<le> binade r"
    then have "(2::rat) powi (binade r + 1) \<le> 2 powi 1024" by (intro powi_le) simp
    with binade_bounds(2) [OF \<open>0 < r\<close>] r show False by linarith
  qed
  ultimately show "overflows r" by (simp add: overflows_def)
qed

lemma round_mag_le3:
  assumes "0 \<le> q" and "q \<le> 3"
  shows "round_mag s q = Fin s (rnd q)"
proof -
  have "rnd q \<le> 3" using assms by (intro rnd_le_fix) auto
  moreover have "(2::rat) powi 2 \<le> 2 powi 1024" by (rule powi_le) simp
  moreover have "(2::rat) powi 2 = 4" by (simp add: power_int_def)
  ultimately have "\<not> overflows (rnd q)" by (simp add: overflows_iff)
  then show ?thesis by (simp add: round_mag_def Let_def)
qed

lemma f_le_refl_iff: "f_le x x \<longleftrightarrow> x \<noteq> NaN"
  by (cases x) auto

lemma f_le_total: "x \<noteq> NaN \<Longrightarrow> y \<noteq> NaN \<Longrightarrow> f_le x y \<or> f_le y x"
  by (cases x; cases y) auto

lemma f_le_trans: "f_le x y \<Longrightarrow> f_le y z \<Longrightarrow> f_le x z"
  by (cases x; cases y; cases z) (auto split: if_splits)

lemma f_not_gt_iff: "x \<noteq> NaN \<Longrightarrow> y \<noteq> NaN \<Longrightarrow> f_not_gt x y \<longleftrightarrow> f_le x y"
  using f_le_total [of x y] by (auto simp: f_not_gt_def f_lt_def)

text \<open>A value in the closed unit interval: finite, not negative, at most one.\<close>

definition unit_interval :: "f64 \<Rightarrow> bool" where
  "unit_interval x \<longleftrightarrow> (\<exists>m. x = Fin False m \<and> 0 \<le> m \<and> m \<le> 1)"

lemma unit_intervalE:
  assumes "unit_interval x"
  obtains m where "x = Fin False m" "0 \<le> m" "m \<le> 1"
  using assms by (auto simp: unit_interval_def)

lemma unit_interval_not_nan: "unit_interval x \<Longrightarrow> x \<noteq> NaN"
  by (auto simp: unit_interval_def)

lemma unit_interval_le: "unit_interval x \<Longrightarrow> f_le (Fin False 0) x \<and> f_le x (Fin False 1)"
  by (auto simp: unit_interval_def)

end
