(* ===== verification/Rust_Std.thy ===== *)
theory Rust_Std
  imports Prelude
begin

text \<open>
  The parts of Rust's \<^verbatim>\<open>str\<close>, \<^verbatim>\<open>char\<close> and \<^verbatim>\<open>std::path::Path\<close> the program uses.  A HOL character
  stands for the Unicode scalar value of the same number, so a \<^typ>\<open>string\<close> is a Rust string whose
  characters lie in U+0000 .. U+00FF; on that range the functions below agree with the Unicode
  tables the Rust library uses.  Paths are Unix paths.
\<close>

section \<open>Characters\<close>

definition code :: "char \<Rightarrow> nat" where
  "code c = of_char c"

text \<open>\<^verbatim>\<open>char::to_lowercase\<close>: A-Z, and the Latin-1 capitals (without the multiplication sign).\<close>

definition lower_char :: "char \<Rightarrow> char" where
  "lower_char c =
     (if (65 \<le> code c \<and> code c \<le> 90) \<or> (192 \<le> code c \<and> code c \<le> 222 \<and> code c \<noteq> 215)
      then char_of (code c + 32) else c)"

text \<open>\<^verbatim>\<open>u8::to_ascii_uppercase\<close> and \<^verbatim>\<open>char::is_ascii_digit\<close>.\<close>

definition ascii_upper :: "char \<Rightarrow> char" where
  "ascii_upper c = (if 97 \<le> code c \<and> code c \<le> 122 then char_of (code c - 32) else c)"

definition is_digit :: "char \<Rightarrow> bool" where
  "is_digit c \<longleftrightarrow> 48 \<le> code c \<and> code c \<le> 57"

text \<open>\<^verbatim>\<open>char::is_whitespace\<close> (White\_Space), \<^verbatim>\<open>u8::is_ascii_whitespace\<close> (no vertical tab) and
  \<^verbatim>\<open>char::is_control\<close> (category Cc).\<close>

definition is_ws :: "char \<Rightarrow> bool" where
  "is_ws c \<longleftrightarrow> (9 \<le> code c \<and> code c \<le> 13) \<or> code c = 32 \<or> code c = 133 \<or> code c = 160"

definition is_ascii_ws :: "char \<Rightarrow> bool" where
  "is_ascii_ws c \<longleftrightarrow> code c = 9 \<or> code c = 10 \<or> code c = 12 \<or> code c = 13 \<or> code c = 32"

definition is_control :: "char \<Rightarrow> bool" where
  "is_control c \<longleftrightarrow> code c < 32 \<or> (127 \<le> code c \<and> code c \<le> 159)"

lemma code_less [simp]: "code c < 256"
  by (simp add: code_def)

lemma code_char_of [simp]: "n < 256 \<Longrightarrow> code (char_of n) = n"
  by (simp add: code_def)

lemma char_of_code [simp]: "char_of (code c) = c"
  by (simp add: code_def)

lemma code_inj [simp]: "code c = code d \<longleftrightarrow> c = d"
  by (metis char_of_code)

lemma lower_char_idem [simp]: "lower_char (lower_char c) = lower_char c"
proof -
  have "code c < 256" by simp
  then show ?thesis by (auto simp: lower_char_def)
qed

section \<open>Strings\<close>

definition to_lowercase :: "string \<Rightarrow> string" where
  "to_lowercase s = map lower_char s"

definition nl :: string where "nl = [char_of (10 :: nat)]"

definition trim_start :: "string \<Rightarrow> string" where
  "trim_start s = dropWhile is_ws s"

definition trim_end :: "string \<Rightarrow> string" where
  "trim_end s = rev (dropWhile is_ws (rev s))"

definition trim :: "string \<Rightarrow> string" where
  "trim s = trim_end (trim_start s)"

definition trim_matches :: "char \<Rightarrow> string \<Rightarrow> string" where
  "trim_matches c s = rev (dropWhile (\<lambda>x. x = c) (rev (dropWhile (\<lambda>x. x = c) s)))"

definition starts_with :: "string \<Rightarrow> string \<Rightarrow> bool" where
  "starts_with p s \<longleftrightarrow> take (length p) s = p"

definition ends_with :: "string \<Rightarrow> string \<Rightarrow> bool" where
  "ends_with p s \<longleftrightarrow> starts_with (rev p) (rev s)"

definition strip_prefix :: "string \<Rightarrow> string \<Rightarrow> string option" where
  "strip_prefix p s = (if starts_with p s then Some (drop (length p) s) else None)"

fun contains :: "string \<Rightarrow> string \<Rightarrow> bool" where
  "contains p [] \<longleftrightarrow> p = []"
| "contains p (c # s) \<longleftrightarrow> starts_with p (c # s) \<or> contains p s"

lemma to_lowercase_idem [simp]: "to_lowercase (to_lowercase s) = to_lowercase s"
  by (simp add: to_lowercase_def)

lemma length_to_lowercase [simp]: "length (to_lowercase s) = length s"
  by (simp add: to_lowercase_def)

lemma starts_with_iff: "starts_with p s \<longleftrightarrow> (\<exists>r. s = p @ r)"
  by (auto simp: starts_with_def) (metis append_take_drop_id)

lemma starts_with_append [simp]: "starts_with p (p @ r)"
  by (simp add: starts_with_def)

lemma starts_with_Nil [simp]: "starts_with [] s"
  by (simp add: starts_with_def)

lemma strip_prefix_Some: "strip_prefix p s = Some r \<longleftrightarrow> s = p @ r"
  by (auto simp: strip_prefix_def starts_with_iff)

lemma contains_iff: "contains p s \<longleftrightarrow> (\<exists>l r. s = l @ p @ r)"
proof (induction s)
  case (Cons c s)
  show ?case
  proof
    assume "contains p (c # s)"
    then consider r where "c # s = p @ r" | "contains p s"
      by (auto simp: starts_with_iff)
    then show "\<exists>l r. c # s = l @ p @ r"
    proof cases
      case 1
      then show ?thesis by (metis append_Nil)
    next
      case 2
      with Cons.IH show ?thesis by (metis append_Cons)
    qed
  next
    assume "\<exists>l r. c # s = l @ p @ r"
    then obtain l r where *: "c # s = l @ p @ r" by blast
    show "contains p (c # s)"
    proof (cases l)
      case Nil
      with * show ?thesis
        by (metis append_Nil contains.simps(2) starts_with_append)
    next
      case (Cons d l')
      with * have "s = l' @ p @ r" by simp
      with Cons.IH show ?thesis by auto
    qed
  qed
qed auto

lemma trim_Nil [simp]: "trim [] = []"
  by (simp add: trim_def trim_start_def trim_end_def)


section \<open>Bytes\<close>

type_synonym byte = "8 word"
type_synonym bytes = "byte list"

text \<open>\<^verbatim>\<open>str::as_bytes\<close>: UTF-8, one byte below U+0080 and two up to U+00FF.\<close>

definition utf8_char :: "char \<Rightarrow> 8 word list" where
  "utf8_char c = (if code c < 128 then [word_of_nat (code c)]
     else [word_of_nat (192 + code c div 64), word_of_nat (128 + code c mod 64)])"

definition utf8 :: "string \<Rightarrow> 8 word list" where
  "utf8 s = concat (map utf8_char s)"

lemma utf8_append [simp]: "utf8 (s @ t) = utf8 s @ utf8 t"
  by (simp add: utf8_def)

lemma utf8_Nil [simp]: "utf8 [] = []"
  by (simp add: utf8_def)

section \<open>Words of a text\<close>

text \<open>\<^verbatim>\<open>split_whitespace\<close>: the maximal runs of characters that are not white space.\<close>

function split_whitespace :: "string \<Rightarrow> string list" where
  "split_whitespace s = (case dropWhile is_ws s of [] \<Rightarrow> []
     | c # cs \<Rightarrow> takeWhile (\<lambda>x. \<not> is_ws x) (c # cs) # split_whitespace (dropWhile (\<lambda>x. \<not> is_ws x) (c # cs)))"
  by auto
termination
proof (relation "measure length")
  fix s :: string and c cs
  assume *: "dropWhile is_ws s = c # cs"
  then have "\<not> is_ws c" by (metis hd_dropWhile list.distinct(1) list.sel(1))
  moreover have "length (c # cs) \<le> length s" using * by (metis length_dropWhile_le)
  moreover have "length (dropWhile (\<lambda>x. \<not> is_ws x) cs) \<le> length cs" by (rule length_dropWhile_le)
  ultimately show "(dropWhile (\<lambda>x. \<not> is_ws x) (c # cs), s) \<in> measure length" by simp
qed simp

declare split_whitespace.simps [simp del]

text \<open>\<^verbatim>\<open>split(c)\<close> and \<^verbatim>\<open>split_once(c)\<close> on a character.\<close>

fun split_on :: "char \<Rightarrow> string \<Rightarrow> string list" where
  "split_on d [] = [[]]"
| "split_on d (c # cs) = (if c = d then [] # split_on d cs
     else (case split_on d cs of [] \<Rightarrow> [[c]] | w # ws \<Rightarrow> (c # w) # ws))"

fun split_once :: "char \<Rightarrow> string \<Rightarrow> (string \<times> string) option" where
  "split_once d [] = None"
| "split_once d (c # cs) = (if c = d then Some ([], cs)
     else map_option (\<lambda>(a, b). (c # a, b)) (split_once d cs))"

lemma split_on_ne [simp]: "split_on d s \<noteq> []"
  by (induction s) (auto split: list.splits)

lemma split_once_Some: "split_once d s = Some (a, b) \<Longrightarrow> s = a @ d # b \<and> d \<notin> set a"
  by (induction s arbitrary: a) (auto split: if_splits)

text \<open>\<^verbatim>\<open>str::lines\<close>: split at line feeds, a carriage return before one dropped, no empty line after
  a final line feed.\<close>

definition strip_cr :: "string \<Rightarrow> string" where
  "strip_cr l = (if l \<noteq> [] \<and> last l = CHR 0x0D then butlast l else l)"

definition str_lines :: "string \<Rightarrow> string list" where
  "str_lines s = (let ls = split_on (CHR 0x0A) s in
     map strip_cr (butlast ls) @ (if last ls = [] then [] else [last ls]))"

section \<open>Paths\<close>

text \<open>\<^verbatim>\<open>Path::components\<close> on Unix: repeated separators and inner dots vanish, a leading separator is
  the root, a leading dot is kept.\<close>

datatype pcomp = RootDir | CurDir | ParentDir | Normal string

type_synonym path = string

definition to_pcomp :: "string \<Rightarrow> pcomp" where
  "to_pcomp w = (if w = ''..'' then ParentDir else Normal w)"

definition components :: "path \<Rightarrow> pcomp list" where
  "components p = (let ws = split_on (CHR ''/'') p;
       body = map to_pcomp (filter (\<lambda>w. w \<noteq> [] \<and> w \<noteq> ''.'') ws)
     in if p \<noteq> [] \<and> hd p = CHR ''/'' then RootDir # body
        else if hd ws = ''.'' then CurDir # body else body)"

text \<open>\<^verbatim>\<open>Path::starts_with\<close> and \<^verbatim>\<open>==\<close> compare components.\<close>

definition path_starts_with :: "path \<Rightarrow> path \<Rightarrow> bool" where
  "path_starts_with p base \<longleftrightarrow> prefix (components base) (components p)"

definition path_eq :: "path \<Rightarrow> path \<Rightarrow> bool" where
  "path_eq p q \<longleftrightarrow> components p = components q"

definition is_absolute :: "path \<Rightarrow> bool" where
  "is_absolute p \<longleftrightarrow> p \<noteq> [] \<and> hd p = CHR ''/''"

text \<open>\<^verbatim>\<open>Path::join\<close>: an absolute argument replaces the base.\<close>

definition path_join :: "path \<Rightarrow> path \<Rightarrow> path" where
  "path_join base p = (if is_absolute p then p
     else if base = [] \<or> last base = CHR ''/'' then base @ p
     else base @ CHR ''/'' # p)"

text \<open>\<^verbatim>\<open>Path::file_name\<close> is the last component when it is an ordinary one.\<close>

definition file_name :: "path \<Rightarrow> string option" where
  "file_name p = (if components p = [] then None
     else case last (components p) of Normal w \<Rightarrow> Some w | _ \<Rightarrow> None)"

text \<open>The split of a file name at its last dot; a name that starts with its only dot has no extension.\<close>

definition rsplit_dot :: "string \<Rightarrow> string \<times> string option" where
  "rsplit_dot w = (let r = takeWhile (\<lambda>c. c \<noteq> CHR ''.'') (rev w);
       before = drop (Suc (length r)) (rev w)
     in if w = ''..'' \<or> before = [] then (w, None) else (rev before, Some (rev r)))"

definition path_extension :: "path \<Rightarrow> string option" where
  "path_extension p = Option.bind (file_name p) (\<lambda>w. snd (rsplit_dot w))"

definition file_stem :: "path \<Rightarrow> string option" where
  "file_stem p = map_option (\<lambda>w. fst (rsplit_dot w)) (file_name p)"

lemma path_starts_with_refl [simp]: "path_starts_with p p"
  by (simp add: path_starts_with_def)

lemma path_starts_with_trans:
  "path_starts_with p q \<Longrightarrow> path_starts_with q r \<Longrightarrow> path_starts_with p r"
  unfolding path_starts_with_def by (rule prefix_order.trans)

text \<open>A plain name: what \<^verbatim>\<open>file_name\<close> returns, and what stays one component when joined.\<close>

definition plain_name :: "string \<Rightarrow> bool" where
  "plain_name w \<longleftrightarrow> w \<noteq> [] \<and> w \<noteq> ''.'' \<and> w \<noteq> ''..'' \<and> CHR ''/'' \<notin> set w"

lemma split_on_no_sep: "w \<in> set (split_on d s) \<Longrightarrow> d \<notin> set w"
  by (induction s arbitrary: w) (auto split: if_splits list.splits)

lemma split_on_append: "split_on d (a @ d # b) = split_on d a @ split_on d b"
  by (induction a) (auto split: list.splits)

lemma split_on_single: "d \<notin> set w \<Longrightarrow> split_on d w = [w]"
  by (induction w) auto

lemma components_body: "\<exists>pre. components p = pre @ map to_pcomp (filter (\<lambda>w. w \<noteq> [] \<and> w \<noteq> ''.'') (split_on (CHR ''/'') p))
    \<and> set pre \<subseteq> {RootDir, CurDir}"
  by (auto simp: components_def Let_def intro: exI [where x = "[RootDir]"] exI [where x = "[CurDir]"] exI [where x = "[]"])

lemma file_name_plain: "file_name p = Some w \<Longrightarrow> plain_name w"
proof -
  assume a: "file_name p = Some w"
  then have m: "Normal w \<in> set (components p)"
    by (auto simp: file_name_def split: if_splits pcomp.splits) (metis last_in_set)
  obtain pre where "components p = pre @ map to_pcomp (filter (\<lambda>w. w \<noteq> [] \<and> w \<noteq> ''.'') (split_on (CHR ''/'') p))"
    "set pre \<subseteq> {RootDir, CurDir}" using components_body by blast
  with m have "\<exists>v \<in> set (split_on (CHR ''/'') p). v \<noteq> [] \<and> v \<noteq> ''.'' \<and> Normal w = to_pcomp v" by auto
  then show "plain_name w"
    by (auto simp: plain_name_def to_pcomp_def dest: split_on_no_sep split: if_splits)
qed

lemma components_join_plain:
  assumes "plain_name w"
  shows "components (path_join d w) = components d @ [Normal w]"
proof -
  have w: "split_on (CHR ''/'') w = [w]" "to_pcomp w = Normal w" "\<not> is_absolute w"
    using assms by (auto simp: plain_name_def split_on_single to_pcomp_def is_absolute_def) (metis hd_in_set)
  consider "d = []" | d' where "d = d' @ [CHR ''/'']" | "d \<noteq> []" "last d \<noteq> CHR ''/''"
    by (metis append_butlast_last_id)
  then show ?thesis
  proof cases
    case 1
    then show ?thesis using assms w by (auto simp: components_def path_join_def plain_name_def is_absolute_def)
  next
    case 2
    then have "split_on (CHR ''/'') (d @ w) = split_on (CHR ''/'') d' @ [w]" "split_on (CHR ''/'') d = split_on (CHR ''/'') d' @ [[]]"
      using split_on_append [of "CHR ''/''" d' w] split_on_append [of "CHR ''/''" d' "[]"] by (simp_all add: w)
    with 2 w assms show ?thesis
      by (auto simp: components_def path_join_def plain_name_def Let_def hd_append)
  next
    case 3
    then have "split_on (CHR ''/'') (d @ CHR ''/'' # w) = split_on (CHR ''/'') d @ [w]"
      by (simp add: split_on_append w)
    with 3 w assms show ?thesis
      by (auto simp: components_def path_join_def plain_name_def Let_def hd_append)
  qed
qed

lemma path_join_plain_under: "plain_name w \<Longrightarrow> path_starts_with (path_join d w) d"
  by (simp add: path_starts_with_def components_join_plain)

lemma path_samples:
  "components ''/a//b/./../c'' = [RootDir, Normal ''a'', Normal ''b'', ParentDir, Normal ''c'']"
  "file_name ''/a/b.txt'' = Some ''b.txt''" "file_name ''/a/..'' = None" "file_name ''/'' = None"
  "path_extension ''/a/b.tar.gz'' = Some ''gz''" "path_extension ''/a/.bashrc'' = None"
  "file_stem ''/a/b.tar.gz'' = Some ''b.tar''"
  "path_join ''/a'' ''/etc'' = ''/etc''" "path_join ''/a'' ''x/y'' = ''/a/x/y''"
  "split_whitespace '' a  bc '' = [''a'', ''bc'']"
  by code_simp+


text \<open>\<^verbatim>\<open>Path::parent\<close>: the last component dropped, then separators and dots left at the end.
  \<open>body_start\<close> is the length of the part before the ordinary components.\<close>

definition body_start :: "path \<Rightarrow> nat" where
  "body_start p = (if is_absolute p \<or> p = ''.'' \<or> starts_with ''./'' p then 1 else 0)"

definition last_piece :: "string \<Rightarrow> string" where
  "last_piece b = rev (takeWhile (\<lambda>c. c \<noteq> CHR ''/'') (rev b))"

definition drop_piece :: "string \<Rightarrow> string" where
  "drop_piece b = take (length b - (length (last_piece b) + 1)) b"

function trim_pieces :: "string \<Rightarrow> string" where
  "trim_pieces b = (if b \<noteq> [] \<and> (last_piece b = [] \<or> last_piece b = ''.'') then trim_pieces (drop_piece b) else b)"
  by auto
termination
  by (relation "measure length") (auto simp: drop_piece_def)

declare trim_pieces.simps [simp del]

definition path_parent :: "path \<Rightarrow> path option" where
  "path_parent p = (let n = body_start p; b = trim_pieces (drop n p) in
     if b \<noteq> [] then Some (take n p @ trim_pieces (drop_piece b))
     else if n = 1 \<and> \<not> is_absolute p then Some [] else None)"

lemma parent_samples:
  "path_parent ''/a/b.txt'' = Some ''/a''" "path_parent ''/a'' = Some ''/''" "path_parent ''/'' = None"
  "path_parent ''/a//b/./c'' = Some ''/a//b''" "path_parent ''a'' = Some []" "path_parent ''./a'' = Some ''.''"
  "path_parent ''/a/..'' = Some ''/a''" "path_parent [] = None"
  by code_simp+

section \<open>Chunks\<close>

text \<open>\<^verbatim>\<open>chunks(n)\<close>, and the reads of a loop with a buffer of \<open>n\<close> bytes.\<close>

function chunks_of :: "nat \<Rightarrow> 'a list \<Rightarrow> 'a list list" where
  "chunks_of n xs = (if xs = [] \<or> n = 0 then [] else take n xs # chunks_of n (drop n xs))"
  by auto
termination
  by (relation "measure (\<lambda>(n, xs). length xs)") auto

declare chunks_of.simps [simp del]

lemma chunks_of_ne [simp]: "[] \<notin> set (chunks_of n xs)"
  by (induction n xs rule: chunks_of.induct) (subst chunks_of.simps, auto)

lemma concat_chunks_of: "0 < n \<Longrightarrow> concat (chunks_of n xs) = xs"
  by (induction n xs rule: chunks_of.induct) (subst chunks_of.simps, simp)

lemma chunks_of_length: "list_all (\<lambda>c. length c \<le> n) (chunks_of n xs)"
  by (induction n xs rule: chunks_of.induct) (subst chunks_of.simps, simp)

section \<open>Decimal output\<close>

definition digit_char :: "nat \<Rightarrow> char" where
  "digit_char d = char_of (48 + d)"

fun show_nat :: "nat \<Rightarrow> string" where
  "show_nat n = (if n < 10 then [digit_char n] else show_nat (n div 10) @ [digit_char (n mod 10)])"

declare show_nat.simps [simp del]

definition show_int :: "int \<Rightarrow> string" where
  "show_int i = (if i < 0 then CHR ''-'' # show_nat (nat (- i)) else show_nat (nat i))"

text \<open>\<^verbatim>\<open>format!("{:0w}")\<close> on a number.\<close>

definition pad_left :: "nat \<Rightarrow> string \<Rightarrow> string" where
  "pad_left w s = replicate (w - length s) (CHR ''0'') @ s"

lemma code_digit_char: "d < 10 \<Longrightarrow> code (digit_char d) = 48 + d"
  by (simp add: digit_char_def)

lemma is_digit_char [simp]: "d < 10 \<Longrightarrow> is_digit (digit_char d)"
  by (simp add: is_digit_def code_digit_char)

lemma show_nat_digits: "list_all is_digit (show_nat n)"
proof (induction n rule: show_nat.induct)
  case (1 n)
  then show ?case
    by (subst show_nat.simps) simp
qed

lemma show_nat_length: "n < 10 ^ k \<Longrightarrow> 0 < k \<Longrightarrow> length (show_nat n) \<le> k"
proof (induction n arbitrary: k rule: show_nat.induct)
  case (1 n)
  show ?case
  proof (cases "n < 10")
    case True
    with 1(3) show ?thesis by (subst show_nat.simps) simp
  next
    case False
    then have "k \<noteq> 1" using 1(2) by auto
    with 1(3) obtain j where j: "k = Suc j" "0 < j" by (cases k) auto
    with 1(2) have "n div 10 < 10 ^ j" by (simp add: less_mult_imp_div_less mult.commute)
    with 1(1) [OF False] j False show ?thesis by (subst show_nat.simps) simp
  qed
qed

lemma show_nat_ne [simp]: "show_nat n \<noteq> []"
  by (subst show_nat.simps) simp

end
