(* ===== verification/Bloom_Filter.thy ===== *)
theory Bloom_Filter
  imports F64 Rust_Std
begin

text \<open>
  The Bloom filter of \<^verbatim>\<open>search/bloom.rs\<close>: an array of 64-bit words addressed by double hashing
  (FNV-1a plus multiples of an odd DJB2).  Filled from any list of terms, the filter answers a
  query exactly by its probe positions; it never forgets a term and never indexes out of the array.
\<close>

unbundle bit_operations_syntax

section \<open>The code\<close>

record bloom =
  bit_words :: "64 word list"
  hashes :: nat
  size_bits :: nat
  bloom_capacity :: nat

definition fnv1a :: "8 word list \<Rightarrow> 64 word" where
  "fnv1a data = foldl (\<lambda>hash byte. (hash XOR ucast byte) * 1099511628211) 14695981039346656037 data"

definition djb2 :: "8 word list \<Rightarrow> 64 word" where
  "djb2 data = foldl (\<lambda>hash byte. push_bit 5 hash + hash + ucast byte) 5381 data"

definition hash_i :: "bloom \<Rightarrow> string \<Rightarrow> nat \<Rightarrow> nat" where
  "hash_i b t i = (let h1 = fnv1a (utf8 t); h2 = djb2 (utf8 t) OR 1
     in unat ((h1 + word_of_nat i * h2) mod word_of_nat (size_bits b)))"

text \<open>\<^verbatim>\<open>ln\<close> of the platform's libm is a parameter.\<close>

definition LN_2 :: f64 where
  "LN_2 = f_of_rat (693147180559945309417232121458 / 10 ^ 30)"

definition bloom_new :: "(f64 \<Rightarrow> f64) \<Rightarrow> nat \<Rightarrow> f64 \<Rightarrow> bloom" where
  "bloom_new ln_fn cap0 fp_rate = (
     let cap = max cap0 1;
         m0 = f_to_usize (f_ceil (f_div (f_neg (f_mul (f_of_nat cap) (ln_fn fp_rate))) (f_mul LN_2 LN_2)));
         m = max m0 1;
         k = f_to_usize (f_max (f_round (f_mul (f_div (f_of_nat m) (f_of_nat cap)) LN_2)) (Fin False 1))
     in \<lparr> bit_words = replicate ((m + 63) div 64) 0, hashes = k, size_bits = m, bloom_capacity = cap \<rparr>)"

definition set_pos :: "64 word list \<Rightarrow> nat \<Rightarrow> 64 word list" where
  "set_pos ws pos = ws[pos div 64 := ws ! (pos div 64) OR push_bit (pos mod 64) 1]"

definition get_pos :: "64 word list \<Rightarrow> nat \<Rightarrow> bool" where
  "get_pos ws pos \<longleftrightarrow> drop_bit (pos mod 64) (ws ! (pos div 64)) AND 1 = 1"

definition bloom_insert :: "bloom \<Rightarrow> string \<Rightarrow> bloom" where
  "bloom_insert b t = foldl (\<lambda>b i. b\<lparr>bit_words := set_pos (bit_words b) (hash_i b t i)\<rparr>) b [0..<hashes b]"

definition may_contain :: "bloom \<Rightarrow> string \<Rightarrow> bool" where
  "may_contain b t \<longleftrightarrow> list_all (\<lambda>i. get_pos (bit_words b) (hash_i b t i)) [0..<hashes b]"

definition bit_count :: "bloom \<Rightarrow> nat" where
  "bit_count b = size_bits b"

section \<open>Well-formedness: every probe lies in the array\<close>

definition bloom_ok :: "bloom \<Rightarrow> bool" where
  "bloom_ok b \<longleftrightarrow> 0 < size_bits b \<and> size_bits b < 2 ^ 64 \<and> size_bits b \<le> 64 * length (bit_words b)"

lemma f_to_usize_less: "f_to_usize x < 18446744073709551616"
  by (cases x rule: f_to_usize.cases) auto

lemma bloom_new_ok: "bloom_ok (bloom_new ln_fn cap fp)"
  by (auto simp: bloom_ok_def bloom_new_def Let_def f_to_usize_less)

lemma bloom_new_sizes:
  "bloom_ok (bloom_new ln_fn cap fp)" "0 < size_bits (bloom_new ln_fn cap fp)"
  by (use bloom_new_ok [of ln_fn cap fp] in \<open>auto simp: bloom_ok_def\<close>)

lemma hash_i_less:
  assumes "bloom_ok b"
  shows "hash_i b t i < size_bits b"
proof -
  have "unat (word_of_nat (size_bits b) :: 64 word) = size_bits b"
    using assms by (simp add: bloom_ok_def unat_of_nat)
  moreover have "0 < (word_of_nat (size_bits b) :: 64 word)"
    using calculation assms by (simp add: bloom_ok_def word_less_nat_alt)
  ultimately show ?thesis
    unfolding hash_i_def Let_def by (metis word_less_nat_alt word_mod_less_divisor)
qed

lemma hash_i_in_array: "bloom_ok b \<Longrightarrow> hash_i b t i div 64 < length (bit_words b)"
  using hash_i_less [of b t i] by (auto simp: bloom_ok_def)

section \<open>Words as bit arrays\<close>

lemma get_pos_bit: "get_pos ws p \<longleftrightarrow> bit (ws ! (p div 64)) (p mod 64)"
  by (simp add: get_pos_def and_one_eq odd_iff_mod_2_eq_one [symmetric] bit_iff_odd_drop_bit)

lemma bit_set_word:
  "n < 64 \<Longrightarrow> bit ((w :: 64 word) OR 2 ^ k) n \<longleftrightarrow> bit w n \<or> k = n"
  by (auto simp: bit_simps)

lemma get_set_pos:
  assumes "p div 64 < length ws"
  shows "get_pos (set_pos ws p) q \<longleftrightarrow> get_pos ws q \<or> p = q"
proof (cases "p div 64 = q div 64")
  case True
  then have "p mod 64 = q mod 64 \<longleftrightarrow> p = q" by (metis mod_div_mult_eq)
  with True assms show ?thesis
    by (simp add: get_pos_bit set_pos_def bit_set_word)
next
  case False
  then show ?thesis by (auto simp: get_pos_bit set_pos_def)
qed

lemma length_set_pos [simp]: "length (set_pos ws p) = length ws"
  by (simp add: set_pos_def)

section \<open>Insertion\<close>

lemma hash_i_bits [simp]: "hash_i (b\<lparr>bit_words := ws\<rparr>) = hash_i b"
  by (intro ext) (simp add: hash_i_def)

lemma bloom_insert_fold:
  "foldl (\<lambda>b i. b\<lparr>bit_words := set_pos (bit_words b) (hash_i b t i)\<rparr>) b is
     = b\<lparr>bit_words := foldl set_pos (bit_words b) (map (hash_i b t) is)\<rparr>"
  by (induction "is" arbitrary: b) simp_all

lemma bloom_insert_eq:
  "bloom_insert b t = b\<lparr>bit_words := foldl set_pos (bit_words b) (map (hash_i b t) [0..<hashes b])\<rparr>"
  unfolding bloom_insert_def by (rule bloom_insert_fold)

lemma length_fold_set_pos [simp]: "length (foldl set_pos ws ps) = length ws"
  by (induction ps arbitrary: ws) simp_all

lemma get_fold_set_pos:
  "\<forall>p \<in> set ps. p div 64 < length ws \<Longrightarrow> get_pos (foldl set_pos ws ps) q \<longleftrightarrow> get_pos ws q \<or> q \<in> set ps"
  by (induction ps arbitrary: ws) (auto simp: get_set_pos)

lemma bloom_insert_same [simp]:
  "hashes (bloom_insert b t) = hashes b" "size_bits (bloom_insert b t) = size_bits b"
  "hash_i (bloom_insert b t) u i = hash_i b u i" "bloom_ok (bloom_insert b t) = bloom_ok b"
  by (simp_all add: bloom_insert_eq bloom_ok_def)

lemma bloom_insert_bits:
  assumes "bloom_ok b"
  shows "get_pos (bit_words (bloom_insert b t)) q \<longleftrightarrow> get_pos (bit_words b) q \<or> (\<exists>i < hashes b. q = hash_i b t i)"
  using assms hash_i_in_array [OF assms]
  by (auto simp: bloom_insert_eq get_fold_set_pos)

lemma bloom_fold_same [simp]:
  "hashes (foldl bloom_insert b ts) = hashes b" "bloom_ok (foldl bloom_insert b ts) = bloom_ok b"
  "hash_i (foldl bloom_insert b ts) u i = hash_i b u i"
  by (induction ts arbitrary: b) simp_all

lemma bloom_fold_bits:
  "bloom_ok b \<Longrightarrow> get_pos (bit_words (foldl bloom_insert b ts)) q
     \<longleftrightarrow> get_pos (bit_words b) q \<or> (\<exists>t \<in> set ts. \<exists>i < hashes b. q = hash_i b t i)"
  by (induction ts arbitrary: b) (auto simp: bloom_insert_bits)

lemma bloom_new_bits:
  "p < size_bits (bloom_new ln_fn cap fp) \<Longrightarrow> \<not> get_pos (bit_words (bloom_new ln_fn cap fp)) p"
proof -
  assume "p < size_bits (bloom_new ln_fn cap fp)"
  then have "p div 64 < length (bit_words (bloom_new ln_fn cap fp))"
    using bloom_new_ok [of ln_fn cap fp] by (auto simp: bloom_ok_def)
  then show ?thesis by (simp add: get_pos_bit bloom_new_def Let_def)
qed

lemma may_contain_iff:
  assumes "bloom_ok b"
  shows "may_contain (foldl bloom_insert b ts) u
     \<longleftrightarrow> (\<forall>i < hashes b. get_pos (bit_words b) (hash_i b u i)
            \<or> (\<exists>t \<in> set ts. \<exists>j < hashes b. hash_i b u i = hash_i b t j))"
  using assms by (simp add: may_contain_def list_all_iff bloom_fold_bits) auto

text \<open>
  The filter's exact answer: after inserting any terms into a new filter of any requested
  size, a query is positive iff each of its probe positions is a probe position of an inserted
  term.  In particular there are no false negatives, and the only false positives are those whose
  probes are all covered.
\<close>

theorem bloom_exact:
  fixes ln_fn cap fp
  defines "b \<equiv> bloom_new ln_fn cap fp"
  shows "may_contain (foldl bloom_insert b ts) u
     = list_all (\<lambda>i. list_ex (\<lambda>t. list_ex (\<lambda>j. hash_i b u i = hash_i b t j) [0..<hashes b]) ts) [0..<hashes b]"
proof -
  have ok: "bloom_ok b" by (simp add: b_def bloom_new_ok)
  then have "\<not> get_pos (bit_words b) (hash_i b u i)" for i
    using hash_i_less [OF ok, of u i] by (simp add: b_def bloom_new_bits)
  with ok show ?thesis by (auto simp: may_contain_iff list_all_iff list_ex_iff Bex_def)
qed

text \<open>
  No false negatives and no out-of-range access, for any well-formed filter: a term inserted
  at any point is reported present whatever is inserted before and after, and every probe of every
  term falls in the bit array.
\<close>

theorem bloom_no_false_negative:
  assumes "bloom_ok b" and "t \<in> set ts"
  shows "may_contain (foldl bloom_insert b ts) t
       \<and> hash_i b u i div 64 < length (bit_words (foldl bloom_insert b ts)) \<and> bloom_ok (foldl bloom_insert b ts)"
  using assms hash_i_in_array [of "foldl bloom_insert b ts" u i] by (auto simp: may_contain_iff)

lemma bloom_no_false_negative_witness:
  "may_contain (foldl bloom_insert \<lparr> bit_words = [0, 0], hashes = 3, size_bits = 100, bloom_capacity = 10 \<rparr> [''alpha'', ''beta'']) ''beta''"
  using bloom_no_false_negative [of "\<lparr> bit_words = [0, 0], hashes = 3, size_bits = 100, bloom_capacity = 10 \<rparr>" "''beta''" "[''alpha'', ''beta'']"]
  by (simp add: bloom_ok_def)

lemma bloom_sample:
  "fnv1a (utf8 ''a'') = 0xaf63dc4c8601ec8c" "djb2 (utf8 ''a'') = 177670"
  by code_simp+

end
