(* ===== verification/Trie_Index.thy ===== *)
theory Trie_Index
  imports Rust_Std "HOL-Library.List_Lexorder"
begin

text \<open>
  The frequency-weighted prefix trie of \<^verbatim>\<open>search/trie.rs\<close>.  Children are a list sorted by
  character, searched by binary search; a node that ends a key carries a 32-bit frequency and the
  first value inserted.  The specification is a finite map from keys to frequency and value:
  every operation is proved to act on that map, and a prefix search lists exactly the part of the
  map under the prefix, by falling frequency and, within a frequency, in key order.
\<close>

section \<open>The code\<close>

datatype trie_node = TNode (children: "(char \<times> trie_node) list") (is_end: bool)
  (frequency: "32 word") (node_value: "string option")

definition node_new :: trie_node where
  "node_new = TNode [] False 0 None"

text \<open>The standard library's \<^verbatim>\<open>binary_search_by\<close> on the sorted keys: \<open>Inr i\<close> is a match, \<open>Inl i\<close>
  the place to insert.\<close>

function bs_loop :: "char \<Rightarrow> char list \<Rightarrow> nat \<Rightarrow> nat \<Rightarrow> nat" where
  "bs_loop c ks base sz = (if sz \<le> 1 then base
     else let half = sz div 2; mid = base + half
          in bs_loop c ks (if c < ks ! mid then base else mid) (sz - half))"
  by auto
termination
  by (relation "measure (\<lambda>(_, _, _, sz). sz)") auto

declare bs_loop.simps [simp del]

definition binary_search :: "char \<Rightarrow> char list \<Rightarrow> (nat, nat) res" where
  "binary_search c ks = (if ks = [] then Inl 0
     else let b = bs_loop c ks 0 (length ks)
          in if ks ! b = c then Inr b else Inl (if ks ! b < c then b + 1 else b))"

definition node_find :: "trie_node \<Rightarrow> char \<Rightarrow> (nat, nat) res" where
  "node_find n c = binary_search c (map fst (children n))"

definition child :: "trie_node \<Rightarrow> char \<Rightarrow> trie_node option" where
  "child n c = (case node_find n c of Inl _ \<Rightarrow> None | Inr i \<Rightarrow> Some (snd (children n ! i)))"

definition insert_at :: "nat \<Rightarrow> 'a \<Rightarrow> 'a list \<Rightarrow> 'a list" where
  "insert_at i x xs = take i xs @ x # drop i xs"

definition remove_at :: "nat \<Rightarrow> 'a list \<Rightarrow> 'a list" where
  "remove_at i xs = take i xs @ drop (Suc i) xs"

text \<open>\<^verbatim>\<open>child_or_insert\<close> returns a reference into the children: here the children and the index.\<close>

definition child_or_insert :: "trie_node \<Rightarrow> char \<Rightarrow> (char \<times> trie_node) list \<times> nat" where
  "child_or_insert n c = (case node_find n c of
       Inr i \<Rightarrow> (children n, i)
     | Inl i \<Rightarrow> (insert_at i (c, node_new) (children n), i))"

definition remove_child :: "trie_node \<Rightarrow> char \<Rightarrow> trie_node" where
  "remove_child n c = (case node_find n c of Inl _ \<Rightarrow> n
     | Inr i \<Rightarrow> TNode (remove_at i (children n)) (is_end n) (frequency n) (node_value n))"

text \<open>The descent of \<^verbatim>\<open>insert\<close>; the flag tells that the key is new.\<close>

fun node_insert :: "string \<Rightarrow> string \<Rightarrow> trie_node \<Rightarrow> trie_node \<times> bool" where
  "node_insert [] v n = (if is_end n
     then (TNode (children n) True (frequency n + 1) (node_value n), False)
     else (TNode (children n) True 1 (Some v), True))"
| "node_insert (c # k) v n = (case child_or_insert n c of (cs, i) \<Rightarrow>
     case node_insert k v (snd (cs ! i)) of (ch, new) \<Rightarrow>
       (TNode (cs[i := (c, ch)]) (is_end n) (frequency n) (node_value n), new))"

record trie =
  root :: trie_node
  trie_size :: nat

definition trie_new :: trie where
  "trie_new = \<lparr> root = node_new, trie_size = 0 \<rparr>"

definition trie_insert :: "string \<Rightarrow> string \<Rightarrow> trie \<Rightarrow> trie" where
  "trie_insert k v t = (case node_insert k v (root t) of (n, new) \<Rightarrow>
     \<lparr> root = n, trie_size = (if new then trie_size t + 1 else trie_size t) \<rparr>)"

text \<open>\<^verbatim>\<open>remove_rec\<close> returns \<^verbatim>\<open>RemoveResult { existed, fully_removed }\<close> beside the changed node.\<close>

fun remove_rec :: "trie_node \<Rightarrow> string \<Rightarrow> trie_node \<times> bool \<times> bool" where
  "remove_rec n [] = (if \<not> is_end n then (n, False, False)
     else let f = frequency n - 1 in
       if f = 0 then (TNode (children n) False f None, True, True)
       else (TNode (children n) True f (node_value n), True, False))"
| "remove_rec n (c # k) = (case node_find n c of
       Inl _ \<Rightarrow> (n, False, False)
     | Inr i \<Rightarrow> (case remove_rec (snd (children n ! i)) k of (ch, existed, fully_removed) \<Rightarrow>
         let n' = TNode ((children n)[i := (c, ch)]) (is_end n) (frequency n) (node_value n);
             child_dead = (children ch = [] \<and> \<not> is_end ch)
         in (if existed \<and> child_dead then remove_child n' c else n', existed, fully_removed)))"

definition trie_remove :: "string \<Rightarrow> trie \<Rightarrow> bool \<times> trie" where
  "trie_remove k t = (case remove_rec (root t) k of (n, existed, fully_removed) \<Rightarrow>
     (existed, \<lparr> root = n, trie_size = (if fully_removed then trie_size t - 1 else trie_size t) \<rparr>))"

fun node_at :: "trie_node \<Rightarrow> string \<Rightarrow> trie_node option" where
  "node_at n [] = Some n"
| "node_at n (c # k) = (case child n c of None \<Rightarrow> None | Some ch \<Rightarrow> node_at ch k)"

definition trie_get :: "trie \<Rightarrow> string \<Rightarrow> string option" where
  "trie_get t k = (case node_at (root t) k of None \<Rightarrow> None
     | Some n \<Rightarrow> if is_end n then node_value n else None)"

fun node_collect :: "trie_node \<Rightarrow> (32 word \<times> string) list" where
  "node_collect (TNode cs e f v) =
     (if e then (case v of Some s \<Rightarrow> [(f, s)] | None \<Rightarrow> []) else [])
     @ concat (map (\<lambda>p. node_collect (snd p)) cs)"

definition freq_ge :: "32 word \<times> string \<Rightarrow> 32 word \<times> string \<Rightarrow> bool" where
  "freq_ge a b \<longleftrightarrow> fst b \<le> fst a"

definition prefix_search :: "trie \<Rightarrow> string \<Rightarrow> nat \<Rightarrow> string list" where
  "prefix_search t p limit = (case node_at (root t) p of None \<Rightarrow> []
     | Some n \<Rightarrow> map snd (take limit (sort_by freq_ge (node_collect n))))"

fun node_count :: "trie_node \<Rightarrow> nat" where
  "node_count (TNode cs e f v) = length cs + sum_list (map (\<lambda>p. node_count (snd p)) cs)"

definition trie_node_count :: "trie \<Rightarrow> nat" where
  "trie_node_count t = 1 + node_count (root t)"

section \<open>Binary search\<close>

lemma bs_loop_spec:
  assumes "sorted_wrt (<) ks" "0 < sz" "base + sz \<le> length ks"
    and "base = 0 \<or> ks ! base \<le> c" and "\<forall>j < length ks. base + sz \<le> j \<longrightarrow> c < ks ! j"
  shows "bs_loop c ks base sz < length ks
    \<and> (bs_loop c ks base sz = 0 \<or> ks ! bs_loop c ks base sz \<le> c)
    \<and> (\<forall>j < length ks. bs_loop c ks base sz < j \<longrightarrow> c < ks ! j)"
  using assms
proof (induction c ks base sz rule: bs_loop.induct)
  case (1 c ks base sz)
  let ?mid = "base + sz div 2"
  consider "sz = 1" | "1 < sz" "c < ks ! ?mid" | "1 < sz" "ks ! ?mid \<le> c"
    using 1(3) by (cases "sz = 1"; cases "c < ks ! ?mid") force+
  then show ?case
  proof cases
    case 1
    then have "bs_loop c ks base sz = base" by (simp add: bs_loop.simps)
    with 1 "1.prems" show ?thesis by auto
  next
    case 2
    then have eq: "bs_loop c ks base sz = bs_loop c ks base (sz - sz div 2)"
      by (subst bs_loop.simps) (simp add: Let_def)
    have "c < ks ! j" if "j < length ks" "base + (sz - sz div 2) \<le> j" for j
    proof (cases "j = ?mid")
      case False
      with that have "?mid < j" by linarith
      with that(1) "1.prems"(1) have "ks ! ?mid < ks ! j" by (metis sorted_wrt_nth_less)
      with 2(2) show ?thesis by (rule less_trans)
    qed (use 2 in simp)
    then have hi: "\<forall>j < length ks. base + (sz - sz div 2) \<le> j \<longrightarrow> c < ks ! j" by blast
    from 2 have nl: "\<not> sz \<le> 1" by simp
    from "1.IH" [OF nl refl refl] 2 hi "1.prems"(1-4) show ?thesis unfolding eq by simp
  next
    case 3
    then have nl: "\<not> c < ks ! ?mid" "\<not> sz \<le> 1" by auto
    then have eq: "bs_loop c ks base sz = bs_loop c ks ?mid (sz - sz div 2)"
      by (subst bs_loop.simps) (simp add: Let_def)
    from "1.IH" [OF nl(2) refl refl] nl 3 "1.prems" show ?thesis unfolding eq by simp
  qed
qed

lemma binary_search_Inr:
  assumes "sorted_wrt (<) ks" and "binary_search c ks = Inr i"
  shows "i < length ks \<and> ks ! i = c"
  using assms bs_loop_spec [of ks "length ks" 0 c]
  by (auto simp: binary_search_def Let_def split: if_splits)

lemma binary_search_Inl:
  assumes "sorted_wrt (<) ks" and "binary_search c ks = Inl i"
  shows "i \<le> length ks \<and> (\<forall>k \<in> set (take i ks). k < c) \<and> (\<forall>k \<in> set (drop i ks). c < k)"
proof (cases "ks = []")
  case False
  define b where "b = bs_loop c ks 0 (length ks)"
  have b: "b < length ks" "b = 0 \<or> ks ! b \<le> c" "\<forall>j < length ks. b < j \<longrightarrow> c < ks ! j"
    using bs_loop_spec [of ks "length ks" 0 c] assms(1) False by (auto simp: b_def)
  from assms(2) False have ne: "ks ! b \<noteq> c" and i: "i = (if ks ! b < c then b + 1 else b)"
    by (auto simp: binary_search_def b_def [symmetric] Let_def split: if_splits)
  have lt: "ks ! j < c" if "j < i" for j
  proof -
    from that i b(2) ne have *: "ks ! b < c" "j \<le> b" by (auto split: if_splits)
    then show ?thesis
      using assms(1) b(1) sorted_wrt_nth_less [of "(<)" ks j b] by (cases "j = b") auto
  qed
  have gt: "c < ks ! j" if "i \<le> j" "j < length ks" for j
    using that i b(3) ne by (cases "j = b") (auto split: if_splits)
  show ?thesis
  proof (intro conjI ballI)
    show "i \<le> length ks" using i b(1) by auto
  next
    fix k assume "k \<in> set (take i ks)"
    then show "k < c" using lt by (auto simp: in_set_conv_nth)
  next
    fix k assume "k \<in> set (drop i ks)"
    then obtain m where "m < length ks - i" "k = ks ! (i + m)"
      by (auto simp: in_set_conv_nth)
    then show "c < k" using gt by simp
  qed
qed (use assms in \<open>auto simp: binary_search_def\<close>)

lemma binary_search_absent:
  assumes "sorted_wrt (<) ks" and "binary_search c ks = Inl i"
  shows "c \<notin> set ks"
  using binary_search_Inl [OF assms] append_take_drop_id [of i ks]
  by (metis Un_iff less_irrefl set_append)


section \<open>Sorted children\<close>

lemma map_of_key_update:
  assumes "distinct (map fst cs)" "i < length cs" "fst (cs ! i) = c"
  shows "map_of (cs[i := (c, x)]) = (map_of cs)(c \<mapsto> x)"
  using assms
proof (induction cs arbitrary: i)
  case (Cons p cs)
  show ?case
  proof (cases i)
    case (Suc j)
    with Cons.prems have j: "map_of (cs[j := (c, x)]) = (map_of cs)(c \<mapsto> x)" "c \<in> fst ` set cs"
      using Cons.IH [of j] by auto
    with Cons.prems(1) have "c \<noteq> fst p"
      by (metis distinct.simps(2) list.simps(9) set_map)
    with Suc j(1) show ?thesis by (simp add: fun_eq_iff)
  qed (use Cons.prems in auto)
qed simp

lemma map_of_insert_at:
  "c \<notin> fst ` set cs \<Longrightarrow> map_of (insert_at i (c, x) cs) = (map_of cs)(c \<mapsto> x)"
proof -
  assume c: "c \<notin> fst ` set cs"
  have "map_of cs = map_of (drop i cs) ++ map_of (take i cs)"
    by (metis append_take_drop_id map_of_append)
  moreover have "c \<notin> dom (map_of (take i cs))"
    using c set_take_subset [of i cs] by (auto simp: dom_map_of_conv_image_fst)
  ultimately show ?thesis
    by (simp add: insert_at_def map_add_upd_left)
qed

lemma map_of_remove_at:
  assumes "distinct (map fst cs)" "i < length cs" "fst (cs ! i) = c"
  shows "map_of (remove_at i cs) = (map_of cs)(c := None)"
  using assms
proof (induction cs arbitrary: i)
  case (Cons p cs)
  show ?case
  proof (cases i)
    case 0
    with Cons.prems have "map_of cs c = None" by (simp add: map_of_eq_None_iff)
    with 0 Cons.prems show ?thesis by (auto simp: remove_at_def fun_upd_idem)
  next
    case (Suc j)
    with Cons.prems have j: "map_of (remove_at j cs) = (map_of cs)(c := None)" "c \<in> fst ` set cs"
      using Cons.IH [of j] by auto
    with Cons.prems(1) have "c \<noteq> fst p"
      by (metis distinct.simps(2) list.simps(9) set_map)
    with Suc j(1) show ?thesis by (simp add: remove_at_def fun_eq_iff)
  qed
qed simp

lemma sorted_distinct: "sorted_wrt (<) ks \<Longrightarrow> distinct (ks :: char list)"
  by (induction ks) auto

lemma keys_insert_at: "map fst (insert_at i (c, x) cs) = insert_at i c (map fst cs)"
  by (simp add: insert_at_def take_map drop_map)

lemma keys_remove_at: "map fst (remove_at i cs) = remove_at i (map fst cs)"
  by (simp add: remove_at_def take_map drop_map)

lemma sorted_insert_at:
  assumes "sorted_wrt (<) ks" "\<forall>k \<in> set (take i ks). k < c" "\<forall>k \<in> set (drop i ks). c < k"
  shows "sorted_wrt (<) (insert_at i (c :: char) ks)"
proof -
  have "sorted_wrt (<) (take i ks @ drop i ks)" using assms(1) by simp
  with assms(2,3) show ?thesis
    unfolding insert_at_def by (simp only: sorted_wrt_append) auto
qed

lemma sorted_remove_at: "sorted_wrt R ks \<Longrightarrow> sorted_wrt R (remove_at i ks)"
proof -
  assume "sorted_wrt R ks"
  then have "sorted_wrt R (take i ks @ drop i ks)" by simp
  moreover have "set (drop (Suc i) ks) \<subseteq> set (drop i ks)"
    by (simp add: set_drop_subset_set_drop)
  moreover have "sorted_wrt R (drop (Suc i) ks)"
    using \<open>sorted_wrt R ks\<close> by (metis append_take_drop_id sorted_wrt_append)
  ultimately show ?thesis
    unfolding remove_at_def sorted_wrt_append by blast
qed

abbreviation sorted_keys :: "(char \<times> trie_node) list \<Rightarrow> bool" where
  "sorted_keys cs \<equiv> sorted_wrt (<) (map fst cs)"

lemma node_find_Inr:
  assumes "sorted_keys (children n)" "node_find n c = Inr i"
  shows "i < length (children n)" "fst (children n ! i) = c"
    "map_of (children n) c = Some (snd (children n ! i))"
proof -
  show *: "i < length (children n)" "fst (children n ! i) = c"
    using binary_search_Inr assms unfolding node_find_def by fastforce+
  then show "map_of (children n) c = Some (snd (children n ! i))"
    using assms(1) by (metis map_of_is_SomeI nth_mem prod.collapse sorted_distinct)
qed

lemma node_find_Inl:
  assumes "sorted_keys (children n)" "node_find n c = Inl i"
  shows "map_of (children n) c = None"
  using binary_search_absent [OF assms(1)] assms(2)
  by (auto simp: node_find_def map_of_eq_None_iff)

lemma child_map_of:
  "sorted_keys (children n) \<Longrightarrow> child n c = map_of (children n) c"
  by (auto simp: child_def node_find_Inr node_find_Inl split: sum.splits)

lemma child_or_insert_spec:
  assumes "sorted_keys (children n)" "child_or_insert n c = (cs, i)"
  defines "ch \<equiv> (case map_of (children n) c of None \<Rightarrow> node_new | Some x \<Rightarrow> x)"
  shows "sorted_keys cs" "i < length cs" "fst (cs ! i) = c" "snd (cs ! i) = ch"
    "map_of cs = (map_of (children n))(c \<mapsto> ch)"
proof -
  have "sorted_keys cs \<and> i < length cs \<and> fst (cs ! i) = c \<and> snd (cs ! i) = ch
     \<and> map_of cs = (map_of (children n))(c \<mapsto> ch)"
  proof (cases "node_find n c")
    case (Inr j)
    with assms node_find_Inr [OF assms(1) Inr] show ?thesis
      by (auto simp: child_or_insert_def fun_upd_idem)
  next
    case (Inl j)
    have b: "j \<le> length (children n)" "sorted_wrt (<) (insert_at j c (map fst (children n)))"
      using binary_search_Inl [OF assms(1)] Inl assms(1)
      by (auto simp: node_find_def intro!: sorted_insert_at)
    have none: "map_of (children n) c = None" by (rule node_find_Inl [OF assms(1) Inl])
    then have c: "c \<notin> fst ` set (children n)" by (simp add: map_of_eq_None_iff)
    from none have ch: "ch = node_new" by (simp add: ch_def)
    have cs: "cs = insert_at j (c, node_new) (children n)" "i = j"
      using assms(2) Inl by (auto simp: child_or_insert_def)
    have "cs ! i = (c, node_new)" "i < length cs"
      using b(1) unfolding cs by (simp_all add: insert_at_def nth_append)
    with b(2) c ch show ?thesis
      by (simp add: cs(1) keys_insert_at map_of_insert_at)
  qed
  then show "sorted_keys cs" "i < length cs" "fst (cs ! i) = c" "snd (cs ! i) = ch"
    "map_of cs = (map_of (children n))(c \<mapsto> ch)" by auto
qed

section \<open>Invariant and abstraction\<close>

definition dead :: "trie_node \<Rightarrow> bool" where
  "dead n \<longleftrightarrow> children n = [] \<and> \<not> is_end n"

text \<open>Children sorted, a value exactly at the ends of keys, and no dead branch below.\<close>

fun wf_node :: "trie_node \<Rightarrow> bool" where
  "wf_node (TNode cs e f v) \<longleftrightarrow> sorted_keys cs \<and> (e \<longleftrightarrow> v \<noteq> None)
     \<and> list_all (\<lambda>p. wf_node (snd p) \<and> \<not> dead (snd p)) cs"

definition node_entry :: "trie_node \<Rightarrow> (32 word \<times> string) option" where
  "node_entry n = (if is_end n then map_option (Pair (frequency n)) (node_value n) else None)"

definition node_map :: "trie_node \<Rightarrow> string \<Rightarrow> (32 word \<times> string) option" where
  "node_map n k = Option.bind (node_at n k) node_entry"

lemma wf_node_iff:
  "wf_node n \<longleftrightarrow> sorted_keys (children n) \<and> (is_end n \<longleftrightarrow> node_value n \<noteq> None)
     \<and> (\<forall>c ch. map_of (children n) c = Some ch \<longrightarrow> wf_node ch \<and> \<not> dead ch)"
proof (cases n)
  case (TNode cs e f v)
  have "sorted_keys cs \<Longrightarrow> (\<forall>p \<in> set cs. P (snd p)) \<longleftrightarrow> (\<forall>c ch. map_of cs c = Some ch \<longrightarrow> P ch)" for P
    by (auto simp: sorted_distinct map_of_eq_Some_iff)
  from this [of "\<lambda>ch. wf_node ch \<and> \<not> dead ch"] TNode show ?thesis
    by (simp add: list_all_iff) blast
qed

lemma wf_nodeD:
  assumes "wf_node n"
  shows "sorted_keys (children n)" "is_end n \<longleftrightarrow> node_value n \<noteq> None"
    "map_of (children n) c = Some ch \<Longrightarrow> wf_node ch \<and> \<not> dead ch"
  using assms wf_node_iff [of n] by blast+

lemma wf_nodeI:
  assumes "sorted_keys (children n)" "is_end n \<longleftrightarrow> node_value n \<noteq> None"
    "\<And>c ch. map_of (children n) c = Some ch \<Longrightarrow> wf_node ch \<and> \<not> dead ch"
  shows "wf_node n"
  using assms wf_node_iff [of n] by blast

lemma node_map_Nil: "node_map n [] = node_entry n"
  by (simp add: node_map_def)

lemma node_map_Cons:
  "sorted_keys (children n) \<Longrightarrow>
   node_map n (c # k) = (case map_of (children n) c of None \<Rightarrow> None | Some ch \<Rightarrow> node_map ch k)"
  by (simp add: node_map_def child_map_of split: option.splits)

lemma node_map_new [simp]: "node_map node_new k = None"
  by (cases k) (simp_all add: node_map_def node_entry_def node_new_def child_def node_find_def binary_search_def)

lemma wf_node_new [simp]: "wf_node node_new"
  by (simp add: node_new_def)

section \<open>Insertion\<close>

lemma node_insert_not_dead: "\<not> dead (fst (node_insert k v n))"
proof (cases k)
  case (Cons c k')
  obtain cs i where "child_or_insert n c = (cs, i)" by fastforce
  moreover have "cs \<noteq> []"
    using calculation by (auto simp: child_or_insert_def node_find_def binary_search_def insert_at_def split: sum.splits if_splits)
  ultimately show ?thesis using Cons by (auto simp: dead_def split: prod.splits)
qed (simp add: dead_def)

definition bump :: "string \<Rightarrow> (32 word \<times> string) option \<Rightarrow> 32 word \<times> string" where
  "bump v m = (case m of None \<Rightarrow> (1, v) | Some (f, w) \<Rightarrow> (f + 1, w))"

declare node_insert.simps(2) [simp del]

lemma node_insert_spec:
  "wf_node n \<Longrightarrow> wf_node (fst (node_insert k v n))
     \<and> node_map (fst (node_insert k v n)) = (node_map n)(k \<mapsto> bump v (node_map n k))
     \<and> snd (node_insert k v n) = (node_map n k = None)"
proof (induction k arbitrary: n)
  case Nil
  note srt = wf_nodeD(1) [OF Nil] and e = wf_nodeD(2) [OF Nil]
  let ?m = "fst (node_insert [] v n)"
  have ch: "children ?m = children n" by simp
  have "wf_node ?m"
    by (rule wf_nodeI) (use srt e wf_nodeD(3) [OF Nil] in auto)
  moreover have "node_map ?m j = ((node_map n)([] \<mapsto> bump v (node_map n []))) j" for j
  proof (cases j)
    case Nil
    with e show ?thesis
      by (auto simp: node_map_Nil node_entry_def bump_def)
  qed (simp only: node_map_Cons srt ch, simp add: node_map_Cons srt)
  moreover have "snd (node_insert [] v n) = (node_map n [] = None)"
    using e by (auto simp: node_map_Nil node_entry_def)
  ultimately show ?case by blast
next
  case (Cons c k)
  obtain cs i where ci: "child_or_insert n c = (cs, i)" by fastforce
  note srt = wf_nodeD(1) [OF Cons.prems]
  note spec = child_or_insert_spec [OF srt ci]
  define ch where "ch = (case map_of (children n) c of None \<Rightarrow> node_new | Some x \<Rightarrow> x)"
  obtain ch' new where ch': "node_insert k v ch = (ch', new)" by fastforce
  have wch: "wf_node ch"
    using wf_nodeD(3) [OF Cons.prems] by (auto simp: ch_def split: option.splits)
  note IH = Cons.IH [OF wch, unfolded ch', simplified]
  have eq: "node_insert (c # k) v n = (TNode (cs[i := (c, ch')]) (is_end n) (frequency n) (node_value n), new)"
    using ci ch' spec(4) by (simp add: ch_def node_insert.simps(2))
  have m: "map_of (cs[i := (c, ch')]) = (map_of (children n))(c \<mapsto> ch')"
    using spec by (simp add: map_of_key_update sorted_distinct)
  have ks: "map fst (cs[i := (c, ch')]) = map fst cs"
    using spec(2,3) by (metis fst_conv list_update_id map_update nth_map)
  have wf: "wf_node (fst (node_insert (c # k) v n))"
    unfolding eq fst_conv by (rule wf_nodeI) (use IH node_insert_not_dead [of k v ch] ch' spec(1) wf_nodeD(2,3) [OF Cons.prems]
      in \<open>auto simp: m ks split: if_splits\<close>)
  have chmap: "node_map n (c # k) = node_map ch k" for k
    using srt by (auto simp: node_map_Cons ch_def split: option.splits)
  have "node_map (fst (node_insert (c # k) v n)) j = ((node_map n)(c # k \<mapsto> bump v (node_map n (c # k)))) j" for j
  proof (cases j)
    case Nil
    then show ?thesis by (simp add: eq node_map_Nil node_entry_def)
  next
    case (Cons d j')
    then show ?thesis
      using IH spec(1) srt by (cases "d = c") (simp_all add: eq node_map_Cons m ks chmap [symmetric] split: option.splits)
  qed
  with wf IH chmap show ?case by (auto simp: eq)
qed


section \<open>Removal\<close>

definition drop_one :: "(32 word \<times> string) option \<Rightarrow> (32 word \<times> string) option" where
  "drop_one m = (case m of None \<Rightarrow> None | Some (f, v) \<Rightarrow> if f - 1 = 0 then None else Some (f - 1, v))"

lemma drop_one_simps [simp]:
  "drop_one None = None"
  "drop_one (Some (f, v)) = (if f - 1 = 0 then None else Some (f - 1, v))"
  by (simp_all add: drop_one_def)

lemma dead_map: "dead n \<Longrightarrow> node_map n k = None"
  by (cases k) (simp_all add: dead_def node_map_Nil node_entry_def node_map_Cons)

lemma node_mapI:
  assumes "node_entry n' = e" and "sorted_keys (children n')" and "sorted_keys (children n)"
    and "map_of (children n') = (map_of (children n))(c := m)" and "node_entry n = e"
  shows "node_map n' = (\<lambda>j. case j of [] \<Rightarrow> e
     | d # k \<Rightarrow> if d = c then (case m of None \<Rightarrow> None | Some ch \<Rightarrow> node_map ch k) else node_map n j)"
  using assms by (intro ext) (auto simp: node_map_Nil node_map_Cons split: list.splits)

lemma remove_child_spec:
  assumes "sorted_keys (children n)"
  shows "map_of (children (remove_child n c)) = (map_of (children n))(c := None)"
    "sorted_keys (children (remove_child n c))" "node_entry (remove_child n c) = node_entry n"
    "is_end (remove_child n c) = is_end n" "node_value (remove_child n c) = node_value n"
  using assms
  by (auto simp: remove_child_def map_of_remove_at sorted_distinct node_find_Inr node_find_Inl fun_upd_idem
      keys_remove_at sorted_remove_at node_entry_def split: sum.splits)

lemma remove_rec_spec:
  "wf_node n \<Longrightarrow> remove_rec n k = (n', existed, fully) \<Longrightarrow>
     wf_node n' \<and> node_map n' = (node_map n)(k := drop_one (node_map n k))
     \<and> existed = (node_map n k \<noteq> None) \<and> fully = (existed \<and> drop_one (node_map n k) = None)
     \<and> (\<not> existed \<longrightarrow> n' = n)"
proof (induction k arbitrary: n n' existed fully)
  case Nil
  note srt = wf_nodeD(1) [OF Nil(1)] and e = wf_nodeD(2) [OF Nil(1)]
  show ?case
  proof (cases "is_end n")
    case False
    with Nil show ?thesis by (auto simp: node_map_Nil node_entry_def)
  next
    case True
    then obtain v where v: "node_value n = Some v" using e by auto
    with True have nm: "node_map n [] = Some (frequency n, v)" by (simp add: node_map_Nil node_entry_def)
    have ch: "children n' = children n" using True Nil(2) by (auto simp: Let_def split: if_splits)
    have "wf_node n'"
      by (rule wf_nodeI) (use Nil(2) True srt e wf_nodeD(3) [OF Nil(1)] in \<open>auto simp: Let_def split: if_splits\<close>)
    moreover have "node_map n' j = ((node_map n)([] := drop_one (node_map n []))) j" for j
    proof (cases j)
      case Nil
      with nm True v \<open>remove_rec n [] = _\<close> show ?thesis
        by (auto simp: node_map_Nil node_entry_def Let_def split: if_splits)
    qed (simp add: node_map_Cons srt ch)
    ultimately show ?thesis using nm True Nil(2) by (auto simp: Let_def split: if_splits)
  qed
next
  case (Cons c k)
  note srt = wf_nodeD(1) [OF Cons.prems(1)]
  show ?case
  proof (cases "node_find n c")
    case (Inl i)
    with Cons.prems(2) node_find_Inl [OF srt Inl] srt show ?thesis
      using Cons.prems(1) by (auto simp: node_map_Cons)
  next
    case (Inr i)
    note f = node_find_Inr [OF srt Inr]
    define ch0 where "ch0 = snd (children n ! i)"
    obtain ch ex fr where rec: "remove_rec ch0 k = (ch, ex, fr)" by (metis prod_cases3)
    define m where "m = TNode ((children n)[i := (c, ch)]) (is_end n) (frequency n) (node_value n)"
    have n': "n' = (if ex \<and> dead ch then remove_child m c else m)" "existed = ex" "fully = fr"
      using Cons.prems(2) Inr rec by (auto simp: ch0_def m_def dead_def Let_def split: if_splits)
    have ch0: "wf_node ch0" "\<not> dead ch0" "map_of (children n) c = Some ch0"
      using wf_nodeD(3) [OF Cons.prems(1) f(3)] f(3) by (simp_all add: ch0_def)
    note IH = Cons.IH [OF ch0(1) rec]
    have nm: "node_map n (c # k) = node_map ch0 k" for k using srt ch0(3) by (simp add: node_map_Cons)
    have mm: "map_of (children m) = (map_of (children n))(c \<mapsto> ch)"
      using f(1,2) srt by (simp add: m_def map_of_key_update sorted_distinct)
    have "map fst (children m) = map fst (children n)"
      using f(1,2) by (simp add: m_def) (metis fst_conv list_update_id map_update nth_map)
    then have sm: "sorted_keys (children m)" using srt by simp
    have em: "node_entry m = node_entry n" "is_end m = is_end n" "node_value m = node_value n"
      by (simp_all add: m_def node_entry_def)
    have sn': "sorted_keys (children n')" "node_entry n' = node_entry n" "is_end n' \<longleftrightarrow> node_value n' \<noteq> None"
      "map_of (children n') = (map_of (children n))(c := if ex \<and> dead ch then None else Some ch)"
      using remove_child_spec [OF sm] sm em wf_nodeD(2) [OF Cons.prems(1)]
      by (auto simp: n'(1) mm)
    have "ex \<or> \<not> dead ch" using IH ch0(2) by auto
    then have wf: "wf_node n'"
      by (intro wf_nodeI sn'(1,3)) (use IH wf_nodeD(3) [OF Cons.prems(1)] in \<open>auto simp: sn'(4) split: if_splits\<close>)
    have "node_map n' j = ((node_map n)(c # k := drop_one (node_map n (c # k)))) j" for j
    proof (cases "\<exists>k'. j = c # k'")
      case True
      then obtain k' where j: "j = c # k'" by blast
      have "node_map n' j = node_map ch k'"
        using dead_map [of ch k'] sn'(1) by (auto simp: j node_map_Cons sn'(4))
      also have "\<dots> = ((node_map ch0)(k := drop_one (node_map ch0 k))) k'" using IH by simp
      finally show ?thesis by (simp add: j nm)
    next
      case False
      then show ?thesis
        unfolding node_mapI [OF sn'(2,1) srt sn'(4) refl]
        by (cases j) (simp_all add: node_map_Nil)
    qed
    moreover have "n' = n" if "\<not> ex"
    proof -
      have "ch = ch0" using IH that by blast
      then have "(c, ch) = children n ! i" using f(2) by (simp add: ch0_def prod_eq_iff)
      then have "(children n)[i := (c, ch)] = children n" by simp
      with that show ?thesis by (simp add: n'(1) m_def)
    qed
    moreover note wf IH
    ultimately show ?thesis unfolding n'(2,3) nm by blast
  qed
qed


section \<open>Listing\<close>

fun node_list :: "trie_node \<Rightarrow> (string \<times> 32 word \<times> string) list" where
  "node_list (TNode cs e f v) =
     (if e then (case v of Some s \<Rightarrow> [([], f, s)] | None \<Rightarrow> []) else [])
     @ concat (map (\<lambda>p. map (\<lambda>(k, x). (fst p # k, x)) (node_list (snd p))) cs)"

lemma node_induct:
  assumes "\<And>cs e f v. (\<And>p. p \<in> set cs \<Longrightarrow> P (snd p)) \<Longrightarrow> P (TNode cs e f v)"
  shows "P n"
  using assms by (induction n) (metis prod_set_simps(2) singletonI snds.simps)

lemma node_collect_list: "node_collect n = map snd (node_list n)"
proof (induction n rule: node_induct)
  case (1 cs e f v)
  then have eq: "map (\<lambda>p. node_collect (snd p)) cs = map (\<lambda>p. map snd (node_list (snd p))) cs"
    by simp
  show ?case
    unfolding node_collect.simps eq
    by (simp add: map_concat comp_def case_prod_beta' split: option.split)
qed

lemma node_list_mem:
  "wf_node n \<Longrightarrow> (k, x) \<in> set (node_list n) \<longleftrightarrow> node_map n k = Some x"
proof (induction n arbitrary: k rule: node_induct)
  case (1 cs e f v)
  note srt = wf_nodeD(1) [OF 1(2), simplified]
  have mem: "(c, ch) \<in> set cs \<longleftrightarrow> map_of cs c = Some ch" for c ch
    using srt by (simp add: map_of_eq_Some_iff sorted_distinct)
  show ?case
  proof (cases k)
    case Nil
    with wf_nodeD(2) [OF 1(2)] show ?thesis
      by (cases e; cases v) (auto simp: node_map_Nil node_entry_def)
  next
    case (Cons c k')
    have "(k, x) \<in> set (node_list (TNode cs e f v)) \<longleftrightarrow> (\<exists>ch. (c, ch) \<in> set cs \<and> (k', x) \<in> set (node_list ch))"
      unfolding Cons by (cases e; cases v) force+
    also have "\<dots> \<longleftrightarrow> (\<exists>ch. (c, ch) \<in> set cs \<and> node_map ch k' = Some x)"
      using 1(1) wf_nodeD(3) [OF 1(2)] by (metis mem snd_conv trie_node.sel(1))
    also have "\<dots> \<longleftrightarrow> node_map (TNode cs e f v) k = Some x"
      unfolding mem Cons by (cases "map_of cs c") (use srt in \<open>simp_all add: node_map_Cons\<close>)
    finally show ?thesis .
  qed
qed

lemma node_list_sorted: "wf_node n \<Longrightarrow> sorted_wrt (<) (map fst (node_list n))"
proof (induction n rule: node_induct)
  case (1 cs e f v)
  have srt: "sorted_keys cs" and sub: "\<And>p. p \<in> set cs \<Longrightarrow> sorted_wrt (<) (map fst (node_list (snd p)))"
    using 1 by (auto simp: list_all_iff)
  then have "sorted_wrt (<) (map fst (concat (map (\<lambda>p. map (\<lambda>(k, x). (fst p # k, x)) (node_list (snd p))) cs)))"
  proof (induction cs)
    case (Cons p cs)
    have "sorted_wrt (<) (map (\<lambda>x. fst p # fst x) (node_list (snd p)))"
      using Cons.prems(2) [of p] by (simp add: sorted_wrt_map)
    with Cons show ?case
      by (auto simp: sorted_wrt_append comp_def case_prod_beta')
  qed simp
  then show ?case by (cases e; cases v) (auto simp: sorted_wrt_append)
qed

lemma node_dom: "wf_node n \<Longrightarrow> dom (node_map n) = fst ` set (node_list n)"
  by (force simp: node_list_mem [symmetric] dom_def)

lemma node_map_at:
  "node_map n (p @ k) = (case node_at n p of None \<Rightarrow> None | Some m \<Rightarrow> node_map m k)"
proof (induction p arbitrary: n)
  case (Cons c p)
  then show ?case by (auto simp: node_map_def split: option.splits)
qed simp

lemma node_at_wf: "wf_node n \<Longrightarrow> node_at n p = Some m \<Longrightarrow> wf_node m"
proof (induction p arbitrary: n)
  case (Cons c p)
  then show ?case
    using wf_nodeD(1,3) [OF Cons.prems(1)] by (auto simp: child_map_of split: option.splits)
qed simp

text \<open>The values a search ranks: those of the keys under the prefix, in key order.\<close>

definition ranked :: "(string \<Rightarrow> (32 word \<times> string) option) \<Rightarrow> string \<Rightarrow> (32 word \<times> string) list" where
  "ranked m p = map (\<lambda>k. the (m k)) (sorted_list_of_set {k \<in> dom m. prefix p k})"

lemma append_less_append: "p @ x < p @ y \<longleftrightarrow> x < (y :: string)"
  by (induction p) simp_all

lemma node_collect_ranked:
  assumes "wf_node n"
  shows "(case node_at n p of None \<Rightarrow> [] | Some m \<Rightarrow> node_collect m) = ranked (node_map n) p"
proof (cases "node_at n p")
  case None
  then have "{k \<in> dom (node_map n). prefix p k} = {}"
    by (auto simp: node_map_at elim!: prefixE)
  then show ?thesis by (simp add: ranked_def None del: Collect_empty_eq)
next
  case (Some m)
  let ?ks = "map (\<lambda>e. p @ fst e) (node_list m)"
  have wm: "wf_node m" by (rule node_at_wf [OF assms Some])
  have "sorted_wrt (<) ?ks"
    using node_list_sorted [OF wm] by (simp add: sorted_wrt_map append_less_append)
  moreover have "set ?ks = {k \<in> dom (node_map n). prefix p k}"
    using Some by (auto simp: node_list_mem [OF wm] node_map_at prefix_def image_iff Bex_def)
  ultimately have ks: "sorted_list_of_set {k \<in> dom (node_map n). prefix p k} = ?ks"
    using sorted_list_of_set.idem_if_sorted_distinct [of ?ks] by (simp only: strict_sorted_iff)
  have "the (node_map n (p @ fst e)) = snd e" if "e \<in> set (node_list m)" for e
    using that node_list_mem [OF wm, of "fst e" "snd e"] Some by (simp add: node_map_at)
  with Some show ?thesis by (simp add: ranked_def ks node_collect_list)
qed

section \<open>The contract of a prefix index\<close>

locale prefix_index =
  fixes entry :: "'t \<Rightarrow> string \<Rightarrow> (32 word \<times> string) option"
    and good :: "'t \<Rightarrow> bool"
    and ins :: "string \<Rightarrow> string \<Rightarrow> 't \<Rightarrow> 't"
    and rem :: "string \<Rightarrow> 't \<Rightarrow> bool \<times> 't"
    and lookup :: "'t \<Rightarrow> string \<Rightarrow> string option"
    and search :: "'t \<Rightarrow> string \<Rightarrow> nat \<Rightarrow> string list"
    and size_of :: "'t \<Rightarrow> nat"
  assumes good_ins: "good t \<Longrightarrow> good (ins k v t)"
    and good_rem: "good t \<Longrightarrow> good (snd (rem k t))"
    and entry_ins: "good t \<Longrightarrow> entry (ins k v t) = (entry t)(k \<mapsto> bump v (entry t k))"
    and entry_rem: "good t \<Longrightarrow> entry (snd (rem k t)) = (entry t)(k := drop_one (entry t k))"
    and rem_flag: "good t \<Longrightarrow> fst (rem k t) \<longleftrightarrow> entry t k \<noteq> None"
    and lookup_entry: "good t \<Longrightarrow> lookup t k = map_option snd (entry t k)"
    and search_entry: "good t \<Longrightarrow> search t p n = map snd (take n (sort_by freq_ge (ranked (entry t) p)))"
    and size_entry: "good t \<Longrightarrow> finite (dom (entry t)) \<and> size_of t = card (dom (entry t))"
begin

lemma search_sound:
  assumes "good t" "v \<in> set (search t p n)"
  shows "\<exists>k f. prefix p k \<and> entry t k = Some (f, v)"
proof -
  from assms obtain f where "(f, v) \<in> set (ranked (entry t) p)"
    by (auto simp: search_entry dest!: in_set_takeD)
  then show ?thesis
    using size_entry [OF assms(1)] by (auto simp: ranked_def)
qed

lemma search_length: "good t \<Longrightarrow> length (search t p n) \<le> n"
  by (simp add: search_entry)

lemma search_complete:
  assumes "good t" "entry t k = Some (f, v)" "prefix p k" "size_of t \<le> n"
  shows "v \<in> set (search t p n)"
proof -
  have fin: "finite (dom (entry t))" and sz: "size_of t = card (dom (entry t))"
    using size_entry [OF assms(1)] by auto
  have "length (ranked (entry t) p) \<le> n"
    using assms(4) sz card_mono [OF fin, of "{k \<in> dom (entry t). prefix p k}"]
    by (auto simp: ranked_def)
  moreover have "(f, v) \<in> set (ranked (entry t) p)"
    using assms(2,3) fin by (force simp: ranked_def)
  ultimately show ?thesis
    using assms(1) by (force simp: search_entry)
qed

lemma insert_then_remove:
  assumes "good t" "\<forall>f v. entry t k = Some (f, v) \<longrightarrow> f \<noteq> 0"
  shows "entry (snd (rem k (ins k v t))) = entry t"
  using assms by (auto simp: entry_rem entry_ins good_ins bump_def fun_eq_iff split: option.splits)

end

definition trie_map :: "trie \<Rightarrow> string \<Rightarrow> (32 word \<times> string) option" where
  "trie_map t = node_map (root t)"

definition trie_ok :: "trie \<Rightarrow> bool" where
  "trie_ok t \<longleftrightarrow> wf_node (root t) \<and> trie_size t = card (dom (trie_map t))"

lemma trie_ok_new [invar_intros]: "trie_ok trie_new"
  by (simp add: trie_ok_def trie_new_def trie_map_def dom_def)

lemma trie_map_new: "trie_map trie_new = (\<lambda>_. None)"
  by (simp add: fun_eq_iff trie_new_def trie_map_def)

lemma trie_finite: "trie_ok t \<Longrightarrow> finite (dom (trie_map t))"
  by (simp add: trie_ok_def trie_map_def node_dom)

lemma trie_insert_spec:
  assumes "trie_ok t"
  shows "trie_ok (trie_insert k v t) \<and> trie_map (trie_insert k v t) = (trie_map t)(k \<mapsto> bump v (trie_map t k))"
proof -
  obtain n new where n: "node_insert k v (root t) = (n, new)" by fastforce
  have "wf_node (root t)" using assms by (simp add: trie_ok_def)
  from node_insert_spec [OF this, of k v] n have
    s: "wf_node n" "node_map n = (trie_map t)(k \<mapsto> bump v (trie_map t k))" "new = (trie_map t k = None)"
    by (simp_all add: trie_map_def)
  with trie_finite [OF assms] assms show ?thesis
    by (auto simp: trie_insert_def n trie_ok_def trie_map_def dom_def [of "trie_map t"] insert_absorb card_insert_if)
qed

lemma trie_remove_spec:
  assumes "trie_ok t"
  shows "trie_ok (snd (trie_remove k t))
    \<and> trie_map (snd (trie_remove k t)) = (trie_map t)(k := drop_one (trie_map t k))
    \<and> fst (trie_remove k t) = (trie_map t k \<noteq> None)"
proof -
  obtain n ex fr where n: "remove_rec (root t) k = (n, ex, fr)" by (metis prod_cases3)
  have "wf_node (root t)" using assms by (simp add: trie_ok_def)
  note s = remove_rec_spec [OF this n, folded trie_map_def]
  have dom: "dom ((trie_map t)(k := drop_one (trie_map t k))) = (if fr then dom (trie_map t) - {k} else dom (trie_map t))"
    using s by (cases "trie_map t k") auto
  have "fr \<Longrightarrow> k \<in> dom (trie_map t)" using s by auto
  with s trie_finite [OF assms] assms dom show ?thesis
    by (auto simp: trie_remove_def n trie_ok_def trie_map_def card_Diff_singleton simp del: dom_fun_upd)
qed

lemma trie_get_map: "trie_ok t \<Longrightarrow> trie_get t k = map_option snd (trie_map t k)"
  by (auto simp: trie_get_def trie_map_def node_map_def node_entry_def option.map_comp comp_def option.map_ident
      split: option.splits)

lemma trie_search_map:
  "trie_ok t \<Longrightarrow> prefix_search t p n = map snd (take n (sort_by freq_ge (ranked (trie_map t) p)))"
  using node_collect_ranked [of "root t" p]
  by (auto simp: prefix_search_def trie_ok_def trie_map_def split: option.splits)

interpretation tr: prefix_index trie_map trie_ok trie_insert trie_remove trie_get prefix_search trie_size
  by unfold_locales
    (simp_all add: trie_insert_spec trie_remove_spec trie_get_map trie_search_map trie_finite, simp add: trie_ok_def)


section \<open>Runs\<close>

datatype trie_op = Ins string string | Rem string

fun trie_do :: "trie \<Rightarrow> trie_op \<Rightarrow> trie" where
  "trie_do t (Ins k v) = trie_insert k v t"
| "trie_do t (Rem k) = snd (trie_remove k t)"

definition trie_run :: "trie_op list \<Rightarrow> trie" where
  "trie_run xs = foldl trie_do trie_new xs"

text \<open>The same operations on the specification map.\<close>

fun map_do :: "(string \<Rightarrow> (32 word \<times> string) option) \<Rightarrow> trie_op \<Rightarrow> string \<Rightarrow> (32 word \<times> string) option" where
  "map_do m (Ins k v) = m(k \<mapsto> bump v (m k))"
| "map_do m (Rem k) = m(k := drop_one (m k))"

definition map_run :: "trie_op list \<Rightarrow> string \<Rightarrow> (32 word \<times> string) option" where
  "map_run xs = foldl map_do (\<lambda>_. None) xs"

lemma trie_do_spec: "trie_ok t \<Longrightarrow> trie_ok (trie_do t x) \<and> trie_map (trie_do t x) = map_do (trie_map t) x"
  by (cases x) (simp_all add: trie_insert_spec trie_remove_spec)

lemma trie_fold_spec:
  "trie_ok t \<Longrightarrow> trie_ok (foldl trie_do t xs) \<and> trie_map (foldl trie_do t xs) = foldl map_do (trie_map t) xs"
  by (induction xs arbitrary: t) (simp_all add: trie_do_spec)

lemma trie_run_spec: "trie_ok (trie_run xs)" "trie_map (trie_run xs) = map_run xs"
  using trie_fold_spec [OF trie_ok_new, of xs] by (simp_all add: trie_run_def map_run_def trie_map_new)

text \<open>
  C30.  The trie refines a map: after any sequence of inserts and removes from the empty trie, \<^verbatim>\<open>get\<close>
  returns the value the specification map holds (the first value inserted since the key was last
  absent), \<^verbatim>\<open>remove\<close> reports whether the key was present, \<^verbatim>\<open>len\<close> counts the keys, and no dead branch
  is left in the tree.
\<close>

theorem trie_refines_map:
  fixes xs
  defines "t \<equiv> trie_run xs"
  shows "trie_get t k = map_option snd (map_run xs k)
    \<and> fst (trie_remove k t) = (map_run xs k \<noteq> None)
    \<and> trie_size t = card (dom (map_run xs)) \<and> wf_node (root t)"
  using trie_run_spec [of xs] by (simp add: t_def trie_get_map trie_remove_spec trie_ok_def)

text \<open>
  C31.  Prefix search is exact: in every reachable trie the answer is the values of the keys that
  start with the prefix, ordered by falling frequency and by key within a frequency, cut at the
  limit.
\<close>

theorem trie_prefix_search_exact:
  "prefix_search (trie_run xs) p n = map snd (take n (sort_by freq_ge (ranked (map_run xs) p)))"
  using trie_run_spec [of xs] by (simp add: trie_search_map)

text \<open>
  Removing undoes inserting: from any reachable trie, inserting a key and removing it again
  leaves every lookup, every prefix search and the size as they were (the 32-bit frequency of the
  key must not be about to wrap).
\<close>

theorem trie_insert_remove:
  assumes "\<forall>f w. map_run xs k = Some (f, w) \<longrightarrow> f \<noteq> 0"
  shows "trie_get (snd (trie_remove k (trie_insert k v (trie_run xs)))) j = trie_get (trie_run xs) j
    \<and> prefix_search (snd (trie_remove k (trie_insert k v (trie_run xs)))) p n = prefix_search (trie_run xs) p n
    \<and> trie_size (snd (trie_remove k (trie_insert k v (trie_run xs)))) = trie_size (trie_run xs)"
proof -
  let ?t = "trie_run xs" and ?u = "snd (trie_remove k (trie_insert k v (trie_run xs)))"
  have ok: "trie_ok ?t" "trie_ok ?u"
    using trie_run_spec(1) tr.good_rem tr.good_ins by blast+
  have "trie_map ?u = trie_map ?t"
    using assms tr.insert_then_remove [OF ok(1)] by (simp add: trie_run_spec)
  with ok show ?thesis by (simp add: trie_get_map trie_search_map tr.size_entry)
qed

lemma trie_insert_remove_witness:
  "prefix_search (snd (trie_remove ''ab'' (trie_insert ''ab'' ''z'' (trie_run [Ins ''abc'' ''x'', Ins ''ab'' ''y''])))) ''a'' 5
     = prefix_search (trie_run [Ins ''abc'' ''x'', Ins ''ab'' ''y'']) ''a'' 5"
proof -
  have "\<forall>f w. map_run [Ins ''abc'' ''x'', Ins ''ab'' ''y''] ''ab'' = Some (f, w) \<longrightarrow> f \<noteq> 0"
    by (simp add: map_run_def bump_def)
  from trie_insert_remove [OF this] show ?thesis by blast
qed

lemma trie_sample:
  "prefix_search (trie_run [Ins ''fox'' ''1'', Ins ''foo'' ''2'', Ins ''fog'' ''3'', Ins ''fox'' ''4'', Ins ''bar'' ''5'']) ''fo'' 2
     = [''1'', ''3'']"
  by code_simp

text \<open>The descendants the diagnostic count visits are the nodes below the root.\<close>

lemma node_count_positive: "wf_node n \<Longrightarrow> \<not> dead n \<Longrightarrow> node_entry n = None \<Longrightarrow> 0 < node_count n"
  by (cases n) (auto simp: dead_def node_entry_def)

end
