(* ===== verification/Database.thy ===== *)
theory Database
  imports Rust_Std "HOL-Library.List_Lexorder"
begin

text \<open>
  The SQLite layer (\<^verbatim>\<open>storage/db.rs\<close> over the schema in \<^verbatim>\<open>migrations/\<close>): each table is the list of its
  rows in rowid order, each method the effect of its SQL statement.  The engine is external: which
  statements fail is a schedule in the state (\<open>faults\<close>), a statement that fails changes nothing, and a
  transaction with a failing statement is rolled back.  Where SQL leaves the row order open the
  model uses rowid order.  Text compares by code point, \<^verbatim>\<open>LIKE\<close> ignores the case of ASCII letters.
\<close>

section \<open>Rows\<close>

datatype db_error = Sqlx | DbPath string | Migrate

record local_device_row =
  ld_device_id :: string
  ld_device_name :: string
  ld_pubkey_b64 :: string
  ld_privkey_b64 :: string

record trusted_peer_row =
  tp_device_id :: string
  tp_device_name :: string
  tp_pubkey_b64 :: string
  tp_fingerprint :: string
  tp_paired_at :: int
  tp_last_seen :: "int option"

record transfer_history_row =
  th_peer_device_id :: string
  th_filename :: string
  th_remote_path :: string
  th_local_path :: string
  th_size :: "int option"
  th_bytes_received :: int
  th_status :: string
  th_started_at :: int
  th_completed_at :: "int option"
  th_transfer_id :: "string option"

record file_row =
  fr_name :: string
  fr_path :: string
  fr_parent_path :: string
  fr_file_type :: string
  fr_size :: "int option"
  fr_last_modified :: "int option"
  fr_extension :: "string option"
  fr_is_hidden :: int

record app_row =
  ar_id :: int
  ar_name :: string
  ar_exec :: string
  ar_icon_path :: "string option"
  ar_platform :: string
  ar_source_path :: string

record indexed_dir_row =
  ix_path :: string
  ix_file_count :: int
  ix_last_indexed :: "int option"

text \<open>The tables; \<open>next_\<close> fields are the \<^verbatim>\<open>AUTOINCREMENT\<close> counters the code can observe.\<close>

record db =
  settings :: "(string \<times> string) list"
  trusted_peers :: "trusted_peer_row list"
  local_device :: "local_device_row option"
  shared_dirs :: "string list"
  transfer_history :: "(int \<times> transfer_history_row) list"
  next_transfer :: int
  files :: "(int \<times> file_row) list"
  next_file :: int
  indexed_dirs :: "indexed_dir_row list"
  applications :: "app_row list"
  next_app :: int
  faults :: "bool list"

section \<open>Statements\<close>

type_synonym 'a db_act = "(db, db_error, 'a) act"

definition db_exec :: "'a db_act \<Rightarrow> 'a db_act" where
  "db_exec m d = (let d' = d\<lparr>faults := tl (faults d)\<rparr> in
     if faults d \<noteq> [] \<and> hd (faults d) then (Inl Sqlx, d') else m d')"

text \<open>\<^verbatim>\<open>begin\<close> .. \<^verbatim>\<open>commit\<close>: on an error the tables are those before, the faults met are used up.\<close>

definition db_transaction :: "unit db_act \<Rightarrow> unit db_act" where
  "db_transaction m d = (case m d of (Inl e, t) \<Rightarrow> (Inl e, d\<lparr>faults := faults t\<rparr>) | (Inr u, t) \<Rightarrow> (Inr u, t))"

definition sql_query :: "(db \<Rightarrow> 'a) \<Rightarrow> 'a db_act" where
  "sql_query g = db_exec (act_get g)"

definition sql_execute :: "(db \<Rightarrow> db) \<Rightarrow> unit db_act" where
  "sql_execute g = db_exec (act_mod g)"

definition upsert_by :: "('r \<Rightarrow> 'k) \<Rightarrow> 'r \<Rightarrow> 'r list \<Rightarrow> 'r list" where
  "upsert_by key r rs = (if List.find (\<lambda>x. key x = key r) rs = None then rs @ [r]
     else update_first (\<lambda>x. key x = key r) (\<lambda>_. r) rs)"

definition delete_by :: "('r \<Rightarrow> 'k) \<Rightarrow> 'k \<Rightarrow> 'r list \<Rightarrow> 'r list" where
  "delete_by key k rs = filter (\<lambda>x. key x \<noteq> k) rs"

definition insert_or_ignore :: "('r \<Rightarrow> 'k) \<Rightarrow> 'r \<Rightarrow> 'r list \<Rightarrow> 'r list" where
  "insert_or_ignore key r rs = (if List.find (\<lambda>x. key x = key r) rs = None then rs @ [r] else rs)"

definition order_by :: "('r \<Rightarrow> 'k :: linorder) \<Rightarrow> 'r list \<Rightarrow> 'r list" where
  "order_by key rs = sort_by (\<lambda>a b. key a \<le> key b) rs"

definition order_by_desc :: "('r \<Rightarrow> 'k :: linorder) \<Rightarrow> 'r list \<Rightarrow> 'r list" where
  "order_by_desc key rs = sort_by (\<lambda>a b. key b \<le> key a) rs"

definition sql_limit :: "int \<Rightarrow> 'r list \<Rightarrow> 'r list" where
  "sql_limit n rs = (if n < 0 then rs else take (nat n) rs)"

definition ascii_lower :: "char \<Rightarrow> char" where
  "ascii_lower c = (if 65 \<le> code c \<and> code c \<le> 90 then char_of (code c + 32) else c)"

fun sql_like :: "string \<Rightarrow> string \<Rightarrow> bool" where
  "sql_like [] s = (s = [])"
| "sql_like (c # p) s =
     (if c = CHR ''%'' then list_ex (\<lambda>n. sql_like p (drop n s)) [0..<Suc (length s)]
      else case s of [] \<Rightarrow> False
        | d # t \<Rightarrow> (c = CHR ''_'' \<or> ascii_lower c = ascii_lower d) \<and> sql_like p t)"

definition like_pattern :: "string \<Rightarrow> string" where
  "like_pattern q = ''%'' @ q @ ''%''"

section \<open>Settings, peers, identity, shared directories\<close>

definition get_setting :: "string \<Rightarrow> string option db_act" where
  "get_setting key = sql_query (\<lambda>d. map_of (settings d) key)"

definition get_all_settings :: "(string \<Rightarrow> string option) db_act" where
  "get_all_settings = sql_query (\<lambda>d. map_of (settings d))"

definition set_setting :: "string \<Rightarrow> string \<Rightarrow> unit db_act" where
  "set_setting key val = sql_execute (\<lambda>d. d\<lparr>settings := upsert_by fst (key, val) (settings d)\<rparr>)"

definition get_trusted_peers :: "trusted_peer_row list db_act" where
  "get_trusted_peers = sql_query (\<lambda>d. order_by tp_device_name (trusted_peers d))"

definition upsert_trusted_peer :: "trusted_peer_row \<Rightarrow> unit db_act" where
  "upsert_trusted_peer p = sql_execute (\<lambda>d. d\<lparr>trusted_peers := upsert_by tp_device_id p (trusted_peers d)\<rparr>)"

definition remove_trusted_peer :: "string \<Rightarrow> unit db_act" where
  "remove_trusted_peer i = sql_execute (\<lambda>d. d\<lparr>trusted_peers := delete_by tp_device_id i (trusted_peers d)\<rparr>)"

definition get_local_device :: "local_device_row option db_act" where
  "get_local_device = sql_query local_device"

definition update_local_device_name :: "string \<Rightarrow> unit db_act" where
  "update_local_device_name n = sql_execute (\<lambda>d. d\<lparr>local_device := map_option (\<lambda>r. r\<lparr>ld_device_name := n\<rparr>) (local_device d)\<rparr>)"

text \<open>A second insertion violates the primary key.\<close>

definition insert_local_device :: "local_device_row \<Rightarrow> unit db_act" where
  "insert_local_device r = db_exec (\<lambda>d. case local_device d of
      Some _ \<Rightarrow> (Inl Sqlx, d) | None \<Rightarrow> (Inr (), d\<lparr>local_device := Some r\<rparr>))"

definition get_shared_dirs :: "string list db_act" where
  "get_shared_dirs = sql_query (\<lambda>d. order_by (\<lambda>p. p) (shared_dirs d))"

definition add_shared_dir :: "string \<Rightarrow> unit db_act" where
  "add_shared_dir p = sql_execute (\<lambda>d. d\<lparr>shared_dirs := insert_or_ignore (\<lambda>p. p) p (shared_dirs d)\<rparr>)"

definition remove_shared_dir :: "string \<Rightarrow> unit db_act" where
  "remove_shared_dir p = sql_execute (\<lambda>d. d\<lparr>shared_dirs := delete_by (\<lambda>p. p) p (shared_dirs d)\<rparr>)"

section \<open>Transfer history\<close>

definition insert_transfer :: "transfer_history_row \<Rightarrow> int db_act" where
  "insert_transfer t = db_exec (\<lambda>d. (Inr (next_transfer d),
     d\<lparr>transfer_history := transfer_history d @ [(next_transfer d, t)], next_transfer := next_transfer d + 1\<rparr>))"

definition change_transfer :: "int \<Rightarrow> (transfer_history_row \<Rightarrow> transfer_history_row) \<Rightarrow> db \<Rightarrow> db" where
  "change_transfer i f d = d\<lparr>transfer_history :=
     update_first (\<lambda>x. fst x = i) (\<lambda>(j, t). (j, f t)) (transfer_history d)\<rparr>"

definition update_transfer_status :: "int \<Rightarrow> 64 word \<Rightarrow> string \<Rightarrow> int option \<Rightarrow> unit db_act" where
  "update_transfer_status i n st done = sql_execute (change_transfer i
     (\<lambda>t. t\<lparr>th_bytes_received := sint n, th_status := st, th_completed_at := done\<rparr>))"

definition get_transfer_history :: "transfer_history_row list db_act" where
  "get_transfer_history = sql_query (\<lambda>d. order_by_desc th_started_at (map snd (transfer_history d)))"

definition set_transfer_status :: "int \<Rightarrow> string \<Rightarrow> unit db_act" where
  "set_transfer_status i st = sql_execute (change_transfer i (\<lambda>t. t\<lparr>th_status := st\<rparr>))"

definition get_transfer_bytes :: "int \<Rightarrow> int option db_act" where
  "get_transfer_bytes i = sql_query (\<lambda>d. map_option th_bytes_received (map_of (transfer_history d) i))"

definition partial_row :: "string \<Rightarrow> string \<Rightarrow> int \<times> transfer_history_row \<Rightarrow> bool" where
  "partial_row peer rpath x \<longleftrightarrow> th_peer_device_id (snd x) = peer \<and> th_remote_path (snd x) = rpath
     \<and> th_status (snd x) = ''partial''"

definition find_partial_transfer :: "string \<Rightarrow> string \<Rightarrow> (int \<times> string option \<times> int) option db_act" where
  "find_partial_transfer peer rpath = sql_query (\<lambda>d.
     case order_by_desc (\<lambda>x. th_started_at (snd x)) (filter (partial_row peer rpath) (transfer_history d)) of
       [] \<Rightarrow> None
     | (i, t) # _ \<Rightarrow> Some (i, th_transfer_id t, th_bytes_received t))"

section \<open>Files\<close>

definition file_key :: "int \<times> file_row \<Rightarrow> string" where
  "file_key x = fr_path (snd x)"

text \<open>The statement of \<^verbatim>\<open>upsert_files\<close>: a conflicting row keeps its id; it is written only when a value
  differs, which leaves the same table either way.\<close>

definition upsert_file_row :: "file_row \<Rightarrow> db \<Rightarrow> db" where
  "upsert_file_row r d =
     (case List.find (\<lambda>x. file_key x = fr_path r) (files d) of
        None \<Rightarrow> d\<lparr>files := files d @ [(next_file d, r)], next_file := next_file d + 1\<rparr>
      | Some (i, r0) \<Rightarrow> if r0 = r then d
          else d\<lparr>files := update_first (\<lambda>x. file_key x = fr_path r) (\<lambda>(i, _). (i, r)) (files d)\<rparr>)"

fun exec_each :: "('r \<Rightarrow> db \<Rightarrow> db) \<Rightarrow> 'r list \<Rightarrow> unit db_act" where
  "exec_each f [] = act_ret ()"
| "exec_each f (r # rs) = act_then (sql_execute (f r)) (exec_each f rs)"

text \<open>\<^verbatim>\<open>begin()\<close> and \<^verbatim>\<open>commit()\<close> are calls of the engine of their own, and fail like statements.\<close>

definition upsert_files :: "file_row list \<Rightarrow> unit db_act" where
  "upsert_files rs = (if rs = [] then act_ret ()
     else db_transaction (act_then (sql_execute id) (act_then (exec_each upsert_file_row rs) (sql_execute id))))"

definition delete_file_row :: "string \<Rightarrow> db \<Rightarrow> db" where
  "delete_file_row p d = d\<lparr>files := delete_by file_key p (files d)\<rparr>"

definition delete_files_by_path :: "string list \<Rightarrow> unit db_act" where
  "delete_files_by_path ps = (if ps = [] then act_ret ()
     else db_transaction (act_then (sql_execute id) (act_then (exec_each delete_file_row ps) (sql_execute id))))"

definition get_all_file_paths :: "string list db_act" where
  "get_all_file_paths = sql_query (\<lambda>d. map file_key (files d))"

definition count_files :: "int db_act" where
  "count_files = sql_query (\<lambda>d. int (length (files d)))"

definition count_dirs :: "int db_act" where
  "count_dirs = sql_query (\<lambda>d. int (length (filter (\<lambda>x. fr_file_type (snd x) = ''dir'') (files d))))"

definition get_all_files_for_index :: "file_row list db_act" where
  "get_all_files_for_index = sql_query (\<lambda>d. order_by fr_name (map snd (files d)))"

definition search_files_by_name :: "string \<Rightarrow> int \<Rightarrow> file_row list db_act" where
  "search_files_by_name q limit = sql_query (\<lambda>d.
     sql_limit limit (filter (\<lambda>r. sql_like (like_pattern q) (fr_name r)) (map snd (files d))))"

definition search_dirs_by_name :: "string \<Rightarrow> int \<Rightarrow> file_row list db_act" where
  "search_dirs_by_name q limit = sql_query (\<lambda>d. sql_limit limit (order_by fr_name
     (filter (\<lambda>r. fr_file_type r = ''dir'' \<and> sql_like (like_pattern q) (fr_name r)) (map snd (files d)))))"

section \<open>Indexed directories\<close>

definition get_indexed_dirs :: "indexed_dir_row list db_act" where
  "get_indexed_dirs = sql_query (\<lambda>d. order_by ix_path (indexed_dirs d))"

definition get_indexed_dir_stats :: "indexed_dir_row list db_act" where
  "get_indexed_dir_stats = sql_query (\<lambda>d. order_by ix_path (indexed_dirs d))"

definition add_indexed_dir :: "string \<Rightarrow> unit db_act" where
  "add_indexed_dir p = sql_execute (\<lambda>d. d\<lparr>indexed_dirs := insert_or_ignore ix_path
     \<lparr> ix_path = p, ix_file_count = 0, ix_last_indexed = None \<rparr> (indexed_dirs d)\<rparr>)"

definition remove_indexed_dir :: "string \<Rightarrow> unit db_act" where
  "remove_indexed_dir p = sql_execute (\<lambda>d. d\<lparr>indexed_dirs := delete_by ix_path p (indexed_dirs d)\<rparr>)"

definition get_last_scan :: "int option db_act" where
  "get_last_scan = sql_query (\<lambda>d. let ts = List.map_filter ix_last_indexed (indexed_dirs d) in
     if ts = [] then None else Some (foldr max ts (hd ts)))"

definition update_indexed_dir_count :: "int \<Rightarrow> string \<Rightarrow> int \<Rightarrow> unit db_act" where
  "update_indexed_dir_count now p n = sql_execute (\<lambda>d. d\<lparr>indexed_dirs :=
     update_first (\<lambda>r. ix_path r = p) (\<lambda>r. r\<lparr>ix_file_count := n, ix_last_indexed := Some now\<rparr>) (indexed_dirs d)\<rparr>)"

section \<open>Applications\<close>

text \<open>\<^verbatim>\<open>INSERT OR REPLACE\<close> deletes a conflicting row and inserts a new one with a new id.\<close>

definition upsert_app :: "app_row \<Rightarrow> unit db_act" where
  "upsert_app r = sql_execute (\<lambda>d. d\<lparr>applications :=
     delete_by ar_source_path (ar_source_path r) (applications d) @ [r\<lparr>ar_id := next_app d\<rparr>],
     next_app := next_app d + 1\<rparr>)"

definition get_all_apps :: "app_row list db_act" where
  "get_all_apps = sql_query (\<lambda>d. order_by ar_name (applications d))"

definition search_apps_by_name :: "string \<Rightarrow> app_row list db_act" where
  "search_apps_by_name q = sql_query (\<lambda>d. sql_limit 20 (order_by ar_name
     (filter (\<lambda>r. sql_like (like_pattern q) (ar_name r)) (applications d))))"

definition clear_apps :: "unit db_act" where
  "clear_apps = sql_execute (\<lambda>d. d\<lparr>applications := []\<rparr>)"

definition app_exec_by_source_path :: "string \<Rightarrow> string option db_act" where
  "app_exec_by_source_path p = sql_query (\<lambda>d. map_option ar_exec (List.find (\<lambda>r. ar_source_path r = p) (applications d)))"

text \<open>The migrated database: empty tables and the default settings.\<close>

definition db_empty :: db where
  "db_empty = \<lparr> settings = [(''max_results'', ''50''), (''include_hidden'', ''false''), (''theme'', ''dark''),
       (''hotkey'', ''ctrl+space''), (''download_dir'', ''''), (''notifications_enabled'', ''true''),
       (''experimental_ui'', ''false'')],
     trusted_peers = [], local_device = None, shared_dirs = [], transfer_history = [], next_transfer = 1,
     files = [], next_file = 1, indexed_dirs = [], applications = [], next_app = 1, faults = [] \<rparr>"

text \<open>\<^verbatim>\<open>Db::open\<close>: the platform's data directory, directory creation, connection and migration are
  given.\<close>

definition db_open :: "string option \<Rightarrow> (path \<Rightarrow> (string, unit) res) \<Rightarrow> (string \<Rightarrow> db option)
    \<Rightarrow> (db \<Rightarrow> db option) \<Rightarrow> (db_error, db) res" where
  "db_open data_dir create_dir_all connect migrate =
     bind_res (ok_or (DbPath ''no data dir'') data_dir) (\<lambda>base.
       let dir = path_join base ''synapt'' in
       bind_res (map_err DbPath (create_dir_all dir)) (\<lambda>_.
         bind_res (ok_or Sqlx (connect (''sqlite://'' @ path_join dir ''synapt.db'' @ ''?mode=rwc''))) (\<lambda>pool.
           ok_or Migrate (migrate pool))))"

section \<open>Keyed tables\<close>

lemma map_key_upsert_by:
  "map key (upsert_by key r rs) = (if key r \<in> key ` set rs then map key rs else map key rs @ [key r])"
  using map_update_first [of "\<lambda>x. key x = key r" key "\<lambda>_. r" rs]
  by (auto simp: upsert_by_def find_None_all) (metis image_eqI)

lemma find_append: "List.find p (xs @ ys) = (case List.find p xs of None \<Rightarrow> List.find p ys | Some x \<Rightarrow> Some x)"
  by (induction xs) auto

lemma find_update_const:
  "List.find (\<lambda>x. key x = k) (update_first (\<lambda>x. key x = key r) (\<lambda>_. r) rs)
     = (if k = key r then (if List.find (\<lambda>x. key x = k) rs = None then None else Some r)
        else List.find (\<lambda>x. key x = k) rs)"
  by (induction rs) auto

lemma find_upsert_by:
  "List.find (\<lambda>x. key x = k) (upsert_by key r rs)
     = (if k = key r then Some r else List.find (\<lambda>x. key x = k) rs)"
  by (auto simp: upsert_by_def find_append find_update_const split: option.split)

lemma find_delete_by:
  "List.find (\<lambda>x. key x = k) (delete_by key j rs) = (if k = j then None else List.find (\<lambda>x. key x = k) rs)"
  by (induction rs) (auto simp: delete_by_def find_None_all)

lemma distinct_upsert_by: "distinct (map key rs) \<Longrightarrow> distinct (map key (upsert_by key r rs))"
  by (simp add: map_key_upsert_by)

lemma distinct_delete_by: "distinct (map key rs) \<Longrightarrow> distinct (map key (delete_by key k rs))"
  by (simp add: delete_by_def distinct_map_filter)

lemma distinct_insert_or_ignore: "distinct (map key rs) \<Longrightarrow> distinct (map key (insert_or_ignore key r rs))"
  by (auto simp: insert_or_ignore_def find_None_all)

text \<open>A table with a unique key: what a lookup returns after an upsert and after a deletion.\<close>

locale keyed_store =
  fixes rows :: "'s \<Rightarrow> 'r list"
    and key :: "'r \<Rightarrow> 'k"
    and akey :: "'a \<Rightarrow> 'k"
    and put :: "'a \<Rightarrow> 's \<Rightarrow> 's"
    and del :: "'k \<Rightarrow> 's \<Rightarrow> 's"
    and stored :: "'a \<Rightarrow> 's \<Rightarrow> 'r"
  assumes stored_key: "key (stored a s) = akey a"
    and find_put: "List.find (\<lambda>x. key x = k) (rows (put a s))
      = (if k = akey a then Some (stored a s) else List.find (\<lambda>x. key x = k) (rows s))"
    and find_del: "List.find (\<lambda>x. key x = k) (rows (del j s))
      = (if k = j then None else List.find (\<lambda>x. key x = k) (rows s))"
    and distinct_put: "distinct (map key (rows s)) \<Longrightarrow> distinct (map key (rows (put a s)))"
    and distinct_del: "distinct (map key (rows s)) \<Longrightarrow> distinct (map key (rows (del j s)))"
begin

definition at :: "'s \<Rightarrow> 'k \<Rightarrow> 'r option" where
  "at s k = List.find (\<lambda>x. key x = k) (rows s)"

lemma at_put: "at (put a s) = (at s)(akey a \<mapsto> stored a s)"
  by (auto simp: at_def find_put)

lemma at_del: "at (del j s) = (at s)(j := None)"
  by (auto simp: at_def find_del)

lemma at_puts_other: "k \<notin> akey ` set as \<Longrightarrow> at (fold put as s) k = at s k"
  by (induction as arbitrary: s) (simp_all add: at_put)

lemma at_puts_key: "k \<in> akey ` set as \<Longrightarrow> at (fold put as s) k \<noteq> None"
proof (induction as rule: rev_induct)
  case (snoc a as)
  then show ?case by (cases "k = akey a") (auto simp: at_put)
qed simp

lemma at_dels: "at (fold del ks s) k = (if k \<in> set ks then None else at s k)"
  by (induction ks arbitrary: s) (auto simp: at_del)

lemma distinct_puts: "distinct (map key (rows s)) \<Longrightarrow> distinct (map key (rows (fold put as s)))"
  by (induction as arbitrary: s) (simp_all add: distinct_put)

lemma distinct_dels: "distinct (map key (rows s)) \<Longrightarrow> distinct (map key (rows (fold del ks s)))"
  by (induction ks arbitrary: s) (simp_all add: distinct_del)

lemma keys_dom: "key ` set (rows s) = dom (at s)"
  by (force simp: at_def dom_def find_None_all dest: find_Some_mem)

lemma row_at: "distinct (map key (rows s)) \<Longrightarrow> r \<in> set (rows s) \<longleftrightarrow> at s (key r) = Some r"
  by (auto simp: at_def find_distinct_key dest: find_Some_mem)

end

interpretation setting_store: keyed_store settings fst fst
  "\<lambda>kv d. d\<lparr>settings := upsert_by fst kv (settings d)\<rparr>"
  "\<lambda>k d. d\<lparr>settings := delete_by fst k (settings d)\<rparr>" "\<lambda>kv d. kv"
  by unfold_locales (simp_all add: find_upsert_by find_delete_by distinct_upsert_by distinct_delete_by)

interpretation peer_store: keyed_store trusted_peers tp_device_id tp_device_id
  "\<lambda>p d. d\<lparr>trusted_peers := upsert_by tp_device_id p (trusted_peers d)\<rparr>"
  "\<lambda>k d. d\<lparr>trusted_peers := delete_by tp_device_id k (trusted_peers d)\<rparr>" "\<lambda>p d. p"
  by unfold_locales (simp_all add: find_upsert_by find_delete_by distinct_upsert_by distinct_delete_by)

definition stored_file :: "file_row \<Rightarrow> db \<Rightarrow> int \<times> file_row" where
  "stored_file r d = (case List.find (\<lambda>x. file_key x = fr_path r) (files d) of
     None \<Rightarrow> (next_file d, r) | Some (i, _) \<Rightarrow> (i, r))"

lemma files_upsert_file_row:
  "files (upsert_file_row r d) = (case List.find (\<lambda>x. file_key x = fr_path r) (files d) of
     None \<Rightarrow> files d @ [(next_file d, r)]
   | Some (i, r0) \<Rightarrow> update_first (\<lambda>x. file_key x = fr_path r) (\<lambda>(i, _). (i, r)) (files d))"
proof -
  have "update_first (\<lambda>x. file_key x = fr_path r) (\<lambda>(i, _). (i, r)) xs = xs"
    if "List.find (\<lambda>x. file_key x = fr_path r) xs = Some (i, r)" for xs i
    using that by (induction xs) (auto split: if_splits)
  then show ?thesis
    by (auto simp: upsert_file_row_def split: option.split)
qed

lemma file_key_pair [simp]: "file_key (i, r) = fr_path r"
  by (simp add: file_key_def)

lemma file_key_upd: "(\<And>x. file_key x = fr_path r \<Longrightarrow> file_key ((\<lambda>(i, _). (i, r)) x) = file_key x)"
  by (auto simp: file_key_def)

lemma find_update_file:
  "List.find (\<lambda>x. file_key x = k) (update_first (\<lambda>x. file_key x = fr_path r) (\<lambda>(i, _). (i, r)) xs)
     = (if k = fr_path r then map_option (\<lambda>x. (fst x, r)) (List.find (\<lambda>x. file_key x = k) xs)
        else List.find (\<lambda>x. file_key x = k) xs)"
  by (induction xs) (auto simp: file_key_def)

interpretation file_store: keyed_store files file_key fr_path upsert_file_row delete_file_row stored_file
proof unfold_locales
  fix a :: file_row and s :: db and k j :: string
  show "file_key (stored_file a s) = fr_path a"
    by (auto simp: stored_file_def file_key_def split: option.split)
  show "List.find (\<lambda>x. file_key x = k) (files (upsert_file_row a s))
      = (if k = fr_path a then Some (stored_file a s) else List.find (\<lambda>x. file_key x = k) (files s))"
    by (auto simp: files_upsert_file_row stored_file_def find_append find_update_file split: option.split)
  show "List.find (\<lambda>x. file_key x = k) (files (delete_file_row j s))
      = (if k = j then None else List.find (\<lambda>x. file_key x = k) (files s))"
    by (simp add: delete_file_row_def find_delete_by)
  show "distinct (map file_key (files s)) \<Longrightarrow> distinct (map file_key (files (upsert_file_row a s)))"
    using map_update_first [of "\<lambda>x. file_key x = fr_path a" file_key "\<lambda>(i, _). (i, a)" "files s"]
      file_key_upd [of _ a]
    by (auto simp: files_upsert_file_row find_None_all file_key_def split: option.split)
  show "distinct (map file_key (files s)) \<Longrightarrow> distinct (map file_key (files (delete_file_row j s)))"
    by (simp add: delete_file_row_def distinct_delete_by)
qed

text \<open>Applications, keyed by source path; the id is the engine's.\<close>

interpretation app_store: keyed_store "applications :: db \<Rightarrow> app_row list" ar_source_path ar_source_path
  "\<lambda>r (d :: db). d\<lparr>applications := delete_by ar_source_path (ar_source_path r) (applications d) @ [r\<lparr>ar_id := next_app d\<rparr>],
     next_app := next_app d + 1\<rparr>"
  "\<lambda>k (d :: db). d\<lparr>applications := delete_by ar_source_path k (applications d)\<rparr>"
  "\<lambda>r (d :: db). r\<lparr>ar_id := next_app d\<rparr>"
proof unfold_locales
  fix a :: app_row and s :: db and k j :: string
  show "List.find (\<lambda>x. ar_source_path x = k) (applications (s\<lparr>applications :=
      delete_by ar_source_path (ar_source_path a) (applications s) @ [a\<lparr>ar_id := next_app s\<rparr>], next_app := next_app s + 1\<rparr>))
      = (if k = ar_source_path a then Some (a\<lparr>ar_id := next_app s\<rparr>) else List.find (\<lambda>x. ar_source_path x = k) (applications s))"
    by (auto simp: find_append find_delete_by split: option.split)
qed (simp_all add: find_delete_by distinct_delete_by, auto simp: delete_by_def)


section \<open>Statements, faults and transactions\<close>

lemma faults_upd_same [simp]: "d\<lparr>faults := faults d\<rparr> = (d :: db)"
  by simp

lemma db_exec_cases:
  assumes "db_exec m d = (r, t)"
  obtains (fault) "r = Inl Sqlx" "t = d\<lparr>faults := tl (faults d)\<rparr>"
    | (run) "m (d\<lparr>faults := tl (faults d)\<rparr>) = (r, t)"
proof (cases "faults d \<noteq> [] \<and> hd (faults d)")
  case True
  with assms show ?thesis by (intro fault) (simp_all add: db_exec_def Let_def)
next
  case False
  then have "db_exec m d = m (d\<lparr>faults := tl (faults d)\<rparr>)" unfolding db_exec_def Let_def by (rule if_not_P)
  with assms show ?thesis by (intro run) simp
qed

lemma db_exec_Inr: "db_exec m d = (Inr a, t) \<Longrightarrow> m (d\<lparr>faults := tl (faults d)\<rparr>) = (Inr a, t)"
  by (erule db_exec_cases) auto

lemma db_exec_no_faults: "faults d = [] \<Longrightarrow> db_exec m d = m d"
proof -
  assume "faults d = []"
  then have "d\<lparr>faults := tl (faults d)\<rparr> = d" by simp
  then show ?thesis using \<open>faults d = []\<close> by (simp only: db_exec_def Let_def) simp
qed

lemma execute_no_faults: "faults d = [] \<Longrightarrow> sql_execute g d = (Inr (), g d)"
  by (simp add: sql_execute_def db_exec_no_faults act_mod_def)

lemma query_no_faults: "faults d = [] \<Longrightarrow> sql_query g d = (Inr (g d), d)"
  by (simp add: sql_query_def db_exec_no_faults act_get_def)

lemma execute_Inr: "sql_execute g d = (Inr u, t) \<Longrightarrow> t = g (d\<lparr>faults := tl (faults d)\<rparr>)"
  by (auto simp: sql_execute_def act_mod_def dest: db_exec_Inr)

lemma query_state: "snd (sql_query g d) = d\<lparr>faults := tl (faults d)\<rparr>"
  by (simp add: sql_query_def db_exec_def act_get_def Let_def)

definition blind :: "(db \<Rightarrow> db) \<Rightarrow> bool" where
  "blind g \<longleftrightarrow> (\<forall>d fs. g (d\<lparr>faults := fs\<rparr>) = (g d)\<lparr>faults := fs\<rparr>)"

lemma blindD: "blind g \<Longrightarrow> g (d\<lparr>faults := fs\<rparr>) = (g d)\<lparr>faults := fs\<rparr>"
  by (simp add: blind_def)

lemma fold_blind:
  "(\<And>r. blind (f r)) \<Longrightarrow> fold f rs (d\<lparr>faults := fs\<rparr>) = (fold f rs d)\<lparr>faults := fs\<rparr>"
  by (induction rs arbitrary: d) (simp_all add: blindD)

lemma exec_each_Inr:
  assumes "\<And>r. blind (f r)" and "exec_each f rs d = (Inr u, t)"
  shows "\<exists>fs. t = (fold f rs d)\<lparr>faults := fs\<rparr>"
  using assms(2)
proof (induction rs arbitrary: d)
  case (Cons r rs)
  from Cons.prems obtain v x where "sql_execute (f r) d = (Inr x, v)" and v: "exec_each f rs v = (Inr u, t)"
    by (auto elim!: act_then_Inr)
  then have "v = (f r d)\<lparr>faults := tl (faults d)\<rparr>"
    using execute_Inr blindD [OF assms(1)] by metis
  with Cons.IH [OF v] show ?case
    by (auto simp: fold_blind [where f = f, OF assms(1)])
next
  case Nil
  then have "t = d" by (simp add: act_ret_def)
  then show ?case by (intro exI [where x = "faults d"]) simp
qed

lemma batch_cases:
  assumes b: "\<And>r. blind (f r)"
    and "db_transaction (act_then (sql_execute id) (act_then (exec_each f rs) (sql_execute id))) d = (r, t)"
  shows "case r of Inl e \<Rightarrow> \<exists>fs. t = d\<lparr>faults := fs\<rparr> | Inr _ \<Rightarrow> \<exists>fs. t = (fold f rs d)\<lparr>faults := fs\<rparr>"
proof (cases r)
  case (Inl e)
  with assms(2) show ?thesis
    by (auto simp: db_transaction_def split: prod.splits sum.splits)
next
  case (Inr u)
  with assms(2) obtain v w x y where run: "sql_execute id d = (Inr v, w)" "exec_each f rs w = (Inr x, y)"
    "sql_execute id y = (Inr u, t)"
    by (auto simp: db_transaction_def elim!: act_then_Inr split: prod.splits sum.splits)
  have "w = d\<lparr>faults := tl (faults d)\<rparr>" "t = y\<lparr>faults := tl (faults y)\<rparr>"
    using execute_Inr [OF run(1)] execute_Inr [OF run(3)] by simp_all
  moreover obtain fs where "y = (fold f rs w)\<lparr>faults := fs\<rparr>" using exec_each_Inr [OF b run(2)] by blast
  ultimately show ?thesis using Inr by (simp add: fold_blind [OF b]) blast
qed

lemma blind_file_ops: "blind (upsert_file_row r)" "blind (delete_file_row p)"
  by (simp_all add: blind_def upsert_file_row_def delete_file_row_def split: option.split)

lemma at_faults [simp]: "file_store.at (d\<lparr>faults := fs\<rparr>) p = file_store.at d p"
  by (simp add: file_store.at_def)

lemma at_upserts:
  "map_option snd (file_store.at (fold upsert_file_row rs d) p)
     = (case List.find (\<lambda>r. fr_path r = p) (rev rs) of Some r \<Rightarrow> Some r
        | None \<Rightarrow> map_option snd (file_store.at d p))"
  by (induction rs rule: rev_induct) (auto simp: file_store.at_put stored_file_def split: option.split)

lemma at_upserts_id:
  "file_store.at d p = Some (i, r) \<Longrightarrow> map_option fst (file_store.at (fold upsert_file_row rs d) p) = Some i"
proof (induction rs rule: rev_induct)
  case (snoc a rs)
  then obtain r' where "file_store.at (fold upsert_file_row rs d) p = Some (i, r')" by auto
  then show ?case
    by (auto simp: file_store.at_put stored_file_def file_store.at_def [of "fold upsert_file_row rs d"])
qed simp

text \<open>
  C32.  A batch upsert is atomic and keyed by path: when any statement, the begin or the commit
  fails, no table changes; otherwise each path holds the last row of the batch for it, or its old
  row, and a path already present keeps its row id.
\<close>

theorem upsert_files_atomic:
  "case upsert_files rs d of
     (Inl e, t) \<Rightarrow> t\<lparr>faults := []\<rparr> = d\<lparr>faults := []\<rparr>
   | (Inr _, t) \<Rightarrow>
       map_option snd (file_store.at t p) = (case List.find (\<lambda>r. fr_path r = p) (rev rs) of
           Some r \<Rightarrow> Some r | None \<Rightarrow> map_option snd (file_store.at d p))
       \<and> (case file_store.at d p of None \<Rightarrow> True | Some (i, _) \<Rightarrow> map_option fst (file_store.at t p) = Some i)"
proof (cases "rs = []")
  case True
  then show ?thesis by (auto simp: upsert_files_def act_ret_def split: option.split)
next
  case False
  obtain r t where run: "upsert_files rs d = (r, t)" by fastforce
  with False have b: "db_transaction (act_then (sql_execute id) (act_then (exec_each upsert_file_row rs) (sql_execute id))) d = (r, t)"
    by (simp add: upsert_files_def)
  note c = batch_cases [OF blind_file_ops(1) b]
  show ?thesis
  proof (cases r)
    case (Inl e)
    with c run show ?thesis by auto
  next
    case (Inr u)
    with c have at: "file_store.at t p = file_store.at (fold upsert_file_row rs d) p" by auto
    have "case file_store.at d p of None \<Rightarrow> True | Some (i, _) \<Rightarrow>
        map_option fst (file_store.at (fold upsert_file_row rs d) p) = Some i"
      using at_upserts_id [of d p _ _ rs] by (auto split: option.split)
    then show ?thesis unfolding run Inr prod.case sum.case at at_upserts by simp
  qed
qed


section \<open>Reachable databases\<close>

definition db_ok :: "db \<Rightarrow> bool" where
  "db_ok d \<longleftrightarrow> distinct (map fst (settings d)) \<and> distinct (map tp_device_id (trusted_peers d))
     \<and> distinct (shared_dirs d)
     \<and> distinct (map fst (transfer_history d)) \<and> list_all (\<lambda>x. fst x < next_transfer d) (transfer_history d)
     \<and> distinct (map file_key (files d)) \<and> distinct (map fst (files d)) \<and> list_all (\<lambda>x. fst x < next_file d) (files d)
     \<and> distinct (map ix_path (indexed_dirs d)) \<and> distinct (map ar_source_path (applications d))"

text \<open>One call of a method that can write, whatever its outcome.\<close>

inductive db_step :: "db \<Rightarrow> db \<Rightarrow> bool" where
  step_set_setting: "db_step d (snd (set_setting k v d))"
| step_upsert_peer: "db_step d (snd (upsert_trusted_peer p d))"
| step_remove_peer: "db_step d (snd (remove_trusted_peer i d))"
| step_rename_device: "db_step d (snd (update_local_device_name n d))"
| step_insert_device: "db_step d (snd (insert_local_device l d))"
| step_add_shared: "db_step d (snd (add_shared_dir s d))"
| step_remove_shared: "db_step d (snd (remove_shared_dir s d))"
| step_insert_transfer: "db_step d (snd (insert_transfer t d))"
| step_update_transfer: "db_step d (snd (update_transfer_status j b st c d))"
| step_set_transfer: "db_step d (snd (set_transfer_status j st d))"
| step_upsert_files: "db_step d (snd (upsert_files rs d))"
| step_delete_files: "db_step d (snd (delete_files_by_path ps d))"
| step_add_indexed: "db_step d (snd (add_indexed_dir s d))"
| step_remove_indexed: "db_step d (snd (remove_indexed_dir s d))"
| step_count_indexed: "db_step d (snd (update_indexed_dir_count now s m d))"
| step_upsert_app: "db_step d (snd (upsert_app a d))"
| step_clear_apps: "db_step d (snd (clear_apps d))"
| step_query: "db_step d (snd (sql_query (g :: db \<Rightarrow> unit) d))"

inductive db_reach :: "db \<Rightarrow> bool" where
  reach_init: "db_reach (db_empty\<lparr>faults := fs\<rparr>)"
| reach_step: "db_reach d \<Longrightarrow> db_step d e \<Longrightarrow> db_reach e"

lemma db_ok_faults [simp]: "db_ok (d\<lparr>faults := fs\<rparr>) = db_ok d"
  by (simp add: db_ok_def)

lemma execute_ok: "(\<And>d. db_ok d \<Longrightarrow> db_ok (g d)) \<Longrightarrow> db_ok d \<Longrightarrow> db_ok (snd (sql_execute g d))"
  by (simp add: sql_execute_def db_exec_def act_mod_def Let_def)

lemma list_all_fst: "list_all (\<lambda>x. fst x < n) xs = list_all (\<lambda>j. j < n) (map fst xs)"
  by (simp add: list.pred_map comp_def)

lemma change_transfer_ok: "db_ok d \<Longrightarrow> db_ok (change_transfer i f d)"
proof -
  have "map fst (update_first (\<lambda>x. fst x = i) (\<lambda>(j, t). (j, f t)) xs) = map fst xs" for xs
    by (rule map_update_first) auto
  then show "db_ok d \<Longrightarrow> db_ok (change_transfer i f d)"
    unfolding db_ok_def change_transfer_def list_all_fst by simp
qed

lemma upsert_file_row_ok:
  assumes ok: "db_ok d"
  shows "db_ok (upsert_file_row r d)"
proof -
  have k: "distinct (map file_key (files (upsert_file_row r d)))"
    using file_store.distinct_put ok by (simp add: db_ok_def)
  have m: "map fst (update_first (\<lambda>x. file_key x = fr_path r) (\<lambda>(i, _). (i, r)) xs) = map fst xs" for xs
    by (rule map_update_first) auto
  show ?thesis
  proof (cases "List.find (\<lambda>x. file_key x = fr_path r) (files d)")
    case None
    with k ok show ?thesis by (auto simp: db_ok_def upsert_file_row_def list_all_iff)
  next
    case (Some x)
    with k ok m show ?thesis
      unfolding db_ok_def list_all_fst by (simp add: upsert_file_row_def split: prod.split)
  qed
qed

lemma delete_file_row_ok: "db_ok d \<Longrightarrow> db_ok (delete_file_row p d)"
  by (auto simp: db_ok_def delete_file_row_def delete_by_def distinct_map_filter list_all_iff)

lemma fold_ok: "(\<And>r d. db_ok d \<Longrightarrow> db_ok (f r d)) \<Longrightarrow> db_ok d \<Longrightarrow> db_ok (fold f rs d)"
  by (induction rs arbitrary: d) simp_all

lemma batch_ok:
  assumes "\<And>r. blind (f r)" "\<And>r d. db_ok d \<Longrightarrow> db_ok (f r d)" "db_ok d"
  shows "db_ok (snd (db_transaction (act_then (sql_execute id) (act_then (exec_each f rs) (sql_execute id))) d))"
proof -
  obtain r t where run: "db_transaction (act_then (sql_execute id) (act_then (exec_each f rs) (sql_execute id))) d = (r, t)"
    by fastforce
  from batch_cases [OF assms(1) run] assms(3) fold_ok [of f d rs, OF assms(2)] show ?thesis
    by (cases r) (auto simp: run)
qed

lemma distinct_ident_ops:
  "distinct rs \<Longrightarrow> distinct (insert_or_ignore (\<lambda>p. p) r rs)" "distinct rs \<Longrightarrow> distinct (delete_by (\<lambda>p. p) r rs)"
  using distinct_insert_or_ignore [of "\<lambda>p. p" rs r] distinct_delete_by [of "\<lambda>p. p" rs r] by simp_all

lemmas write_defs = set_setting_def upsert_trusted_peer_def remove_trusted_peer_def
  update_local_device_name_def add_shared_dir_def remove_shared_dir_def update_transfer_status_def
  set_transfer_status_def add_indexed_dir_def remove_indexed_dir_def clear_apps_def

lemma db_step_ok: "db_step d e \<Longrightarrow> db_ok d \<Longrightarrow> db_ok e"
proof (induction rule: db_step.induct)
  case step_insert_device
  then show ?case by (auto simp: insert_local_device_def db_exec_def Let_def db_ok_def split: option.split)
next
  case step_insert_transfer
  then show ?case
    by (auto simp: insert_transfer_def db_exec_def Let_def db_ok_def list_all_iff)
next
  case (step_upsert_files d rs)
  then show ?case
    by (auto simp: upsert_files_def act_ret_def intro!: batch_ok blind_file_ops upsert_file_row_ok)
next
  case (step_delete_files d ps)
  then show ?case
    by (auto simp: delete_files_by_path_def act_ret_def intro!: batch_ok blind_file_ops delete_file_row_ok)
next
  case step_query
  then show ?case by (simp add: query_state)
next
  case (step_upsert_app d a)
  then show ?case
    unfolding upsert_app_def
    by (intro execute_ok) (auto simp: db_ok_def delete_by_def distinct_map_filter)
next
  case (step_count_indexed d now s m)
  have "map ix_path (update_first (\<lambda>r. ix_path r = s) (\<lambda>r. r\<lparr>ix_file_count := m, ix_last_indexed := Some now\<rparr>) rs)
      = map ix_path rs" for rs by (rule map_update_first) simp
  note this [simp]
  show ?case
    unfolding update_indexed_dir_count_def
    by (rule execute_ok [OF _ step_count_indexed]) (simp add: db_ok_def)
qed (unfold write_defs,
    (erule execute_ok [rotated], simp add: db_ok_def distinct_upsert_by distinct_delete_by
      distinct_insert_or_ignore distinct_ident_ops change_transfer_ok [unfolded db_ok_def])+)

lemma db_reach_ok: "db_reach d \<Longrightarrow> db_ok d"
proof (induction rule: db_reach.induct)
  case reach_init
  then show ?case by (simp add: db_ok_def db_empty_def)
qed (rule db_step_ok)



section \<open>Name search\<close>

lemma sql_like_percent: "sql_like (CHR ''%'' # p) s \<longleftrightarrow> (\<exists>n \<le> length s. sql_like p (drop n s))"
  unfolding sql_like.simps list_ex_iff by (auto simp: less_Suc_eq_le simp del: upt_Suc)

definition plain_query :: "string \<Rightarrow> bool" where
  "plain_query q \<longleftrightarrow> CHR ''%'' \<notin> set q \<and> CHR ''_'' \<notin> set q"

lemma sql_like_prefix:
  "plain_query q \<Longrightarrow> sql_like (q @ ''%'') s \<longleftrightarrow> prefix (map ascii_lower q) (map ascii_lower s)"
proof (induction q arbitrary: s)
  case Nil
  then show ?case by (auto simp: sql_like_percent intro: exI [where x = "length s"])
next
  case (Cons c q)
  then show ?case by (cases s) (auto simp: plain_query_def)
qed

lemma drop_sublist: "(\<exists>n \<le> length s. prefix p (drop n s)) \<longleftrightarrow> sublist p s"
proof
  assume "sublist p s"
  then obtain l r where "s = l @ p @ r" by (auto simp: sublist_def)
  then show "\<exists>n \<le> length s. prefix p (drop n s)" by (intro exI [where x = "length l"]) simp
next
  assume "\<exists>n \<le> length s. prefix p (drop n s)"
  then obtain n r where "drop n s = p @ r" by (auto simp: prefix_def)
  then have "s = take n s @ p @ r" by (metis append_take_drop_id)
  then show "sublist p s" by (metis sublist_appendI)
qed

text \<open>\<^verbatim>\<open>LIKE '%q%'\<close> finds the names that contain the query, ASCII case aside; a wildcard character in
  the query is not escaped.\<close>

lemma like_pattern_iff:
  assumes "plain_query q"
  shows "sql_like (like_pattern q) s \<longleftrightarrow> sublist (map ascii_lower q) (map ascii_lower s)"
proof -
  have "sql_like (like_pattern q) s \<longleftrightarrow> (\<exists>n \<le> length s. prefix (map ascii_lower q) (drop n (map ascii_lower s)))"
    using sql_like_prefix [OF assms] by (simp add: like_pattern_def sql_like_percent drop_map del: sql_like.simps)
  also have "\<dots> \<longleftrightarrow> sublist (map ascii_lower q) (map ascii_lower s)"
    using drop_sublist [of "map ascii_lower s"] by simp
  finally show ?thesis .
qed

end
