(* ===== verification/Fuzzy_Match.thy ===== *)
theory Fuzzy_Match
  imports F64 Database
begin

text \<open>
  Fuzzy matching of names (\<^verbatim>\<open>search/fuzzy.rs\<close>).  Levenshtein's two-row table is proved to compute the
  least number of edits; the Jaro-Winkler score, in IEEE arithmetic with its roundings, lies in
  $[0, 1]$ and its second loop never runs off the match array; ranking keeps exactly the candidates
  over a threshold, best first.
\<close>

section \<open>Levenshtein: the code\<close>

text \<open>One inner iteration: \<open>a_i\<close> is \<^verbatim>\<open>a[i - 1]\<close>.\<close>

definition lev_cell :: "char \<Rightarrow> string \<Rightarrow> nat list \<Rightarrow> nat list \<Rightarrow> nat \<Rightarrow> nat list" where
  "lev_cell a_i b prev cur j = (let cost = (if a_i = b ! (j - 1) then 0 else 1) in
     cur[j := min (min (prev ! j + 1) (cur ! (j - 1) + 1)) (prev ! (j - 1) + cost)])"

definition lev_row :: "nat \<Rightarrow> char \<Rightarrow> string \<Rightarrow> nat list \<times> nat list \<Rightarrow> nat list \<times> nat list" where
  "lev_row i a_i b pc = (case pc of (prev, cur) \<Rightarrow>
     let cur' = foldl (lev_cell a_i b prev) (cur[0 := i]) [1..<Suc (length b)] in (cur', prev))"

definition levenshtein :: "string \<Rightarrow> string \<Rightarrow> nat" where
  "levenshtein s1 s2 = (
     let (a, b) = (if length s1 < length s2 then (s2, s1) else (s1, s2)) in
     if b = [] then length a
     else let prev = [0..<Suc (length b)]; cur = replicate (length b + 1) 0;
              (prev', _) = foldl (\<lambda>pc i. lev_row i (a ! (i - 1)) b pc) (prev, cur) [1..<Suc (length a)]
          in prev' ! length b)"

section \<open>Levenshtein: the specification\<close>

text \<open>\<open>edits n s t\<close>: \<open>n\<close> insertions, deletions and substitutions turn \<open>s\<close> into \<open>t\<close>.\<close>

inductive edits :: "nat \<Rightarrow> string \<Rightarrow> string \<Rightarrow> bool" where
  ed_nil: "edits 0 [] []"
| ed_keep: "edits n s t \<Longrightarrow> edits n (c # s) (c # t)"
| ed_subst: "edits n s t \<Longrightarrow> edits (Suc n) (c # s) (d # t)"
| ed_del: "edits n s t \<Longrightarrow> edits (Suc n) (c # s) t"
| ed_ins: "edits n s t \<Longrightarrow> edits (Suc n) s (d # t)"

fun dist :: "string \<Rightarrow> string \<Rightarrow> nat" where
  "dist [] t = length t"
| "dist s [] = length s"
| "dist (c # s) (d # t) = min (min (dist s (d # t) + 1) (dist (c # s) t + 1)) (dist s t + (if c = d then 0 else 1))"

lemma dist_Nil2 [simp]: "dist s [] = length s"
  by (cases s) auto

lemma edits_delete_all: "edits (length s) s []"
  by (induction s) (auto intro: edits.intros)

lemma edits_insert_all: "edits (length t) [] t"
  by (induction t) (auto intro: edits.intros)

lemma edits_dist: "edits (dist s t) s t"
proof (induction s t rule: dist.induct)
  case (3 c s d t)
  then show ?case
    by (auto simp: min_def intro: edits.intros)
qed (auto simp: edits_insert_all edits_delete_all [of "_ # _", simplified])

lemma dist_del: "dist (c # s) t \<le> dist s t + 1"
  by (cases t) auto

lemma dist_ins: "dist s (d # t) \<le> dist s t + 1"
  by (cases s) auto

lemma dist_le_edits: "edits n s t \<Longrightarrow> dist s t \<le> n"
proof (induction rule: edits.induct)
  case (ed_del n s t c)
  then show ?case using dist_del [of c s t] by simp
next
  case (ed_ins n s t d)
  then show ?case using dist_ins [of s d t] by simp
qed auto

lemma edits_sym: "edits n s t \<Longrightarrow> edits n t s"
  by (induction rule: edits.induct) (auto intro: edits.intros)

lemma edits_append: "edits n s t \<Longrightarrow> edits m u v \<Longrightarrow> edits (n + m) (s @ u) (t @ v)"
  by (induction rule: edits.induct) (auto intro: edits.intros)

lemma edits_rev: "edits n s t \<Longrightarrow> edits n (rev s) (rev t)"
proof (induction rule: edits.induct)
  case (ed_keep n s t c)
  then show ?case using edits_append [OF ed_keep.IH, of 0 "[c]" "[c]"] by (auto intro: edits.intros)
next
  case (ed_subst n s t c d)
  then show ?case using edits_append [OF ed_subst.IH, of 1 "[c]" "[d]"] by (auto intro: edits.intros)
next
  case (ed_del n s t c)
  then show ?case using edits_append [OF ed_del.IH, of 1 "[c]" "[]"] by (auto intro: edits.intros)
next
  case (ed_ins n s t d)
  then show ?case using edits_append [OF ed_ins.IH, of 1 "[]" "[d]"] by (auto intro: edits.intros)
qed (auto intro: edits.intros)

lemma dist_rev: "dist (rev s) (rev t) = dist s t"
proof (rule antisym)
  show "dist (rev s) (rev t) \<le> dist s t" by (intro dist_le_edits edits_rev edits_dist)
  have "edits (dist (rev s) (rev t)) (rev (rev s)) (rev (rev t))" by (intro edits_rev edits_dist)
  then show "dist s t \<le> dist (rev s) (rev t)" by (intro dist_le_edits) simp
qed

lemma dist_sym: "dist s t = dist t s"
proof -
  have "dist s t \<le> dist t s" for s t by (rule dist_le_edits [OF edits_sym [OF edits_dist]])
  then show ?thesis by (simp add: antisym)
qed

section \<open>Levenshtein: the table is the distance of prefixes\<close>

text \<open>The cell in row \<open>i\<close> and column \<open>j\<close>.\<close>

definition cell :: "string \<Rightarrow> string \<Rightarrow> nat \<Rightarrow> nat \<Rightarrow> nat" where
  "cell a b i j = dist (rev (take i a)) (rev (take j b))"

lemma cell_0 [simp]: "j \<le> length b \<Longrightarrow> cell a b 0 j = j"
  by (simp add: cell_def)

lemma cell_col0 [simp]: "i \<le> length a \<Longrightarrow> cell a b i 0 = i"
  by (simp add: cell_def)

lemma cell_Suc:
  "i < length a \<Longrightarrow> j < length b \<Longrightarrow> cell a b (Suc i) (Suc j)
     = min (min (cell a b i (Suc j) + 1) (cell a b (Suc i) j + 1)) (cell a b i j + (if a ! i = b ! j then 0 else 1))"
  by (simp add: cell_def take_Suc_conv_app_nth)

definition row_of :: "string \<Rightarrow> string \<Rightarrow> nat \<Rightarrow> nat list" where
  "row_of a b i = map (cell a b i) [0..<Suc (length b)]"

lemma row_of_nth: "j \<le> length b \<Longrightarrow> row_of a b i ! j = cell a b i j"
  by (simp add: row_of_def del: upt_Suc)

lemma lev_row_cells:
  assumes "i < length a" "length cur = Suc (length b)" "cur ! 0 = Suc i" "n \<le> length b"
  shows "length (foldl (lev_cell (a ! i) b (row_of a b i)) cur [1..<Suc n]) = Suc (length b)
    \<and> (\<forall>j \<le> n. foldl (lev_cell (a ! i) b (row_of a b i)) cur [1..<Suc n] ! j = cell a b (Suc i) j)"
  using assms(4)
proof (induction n)
  case 0
  with assms show ?case by simp
next
  case (Suc n)
  let ?c = "foldl (lev_cell (a ! i) b (row_of a b i)) cur [1..<Suc n]"
  have IH: "length ?c = Suc (length b)" "\<forall>j \<le> n. ?c ! j = cell a b (Suc i) j" using Suc by auto
  have "foldl (lev_cell (a ! i) b (row_of a b i)) cur [1..<Suc (Suc n)] = lev_cell (a ! i) b (row_of a b i) ?c (Suc n)"
    by simp
  also have "\<dots> = ?c[Suc n := cell a b (Suc i) (Suc n)]"
    using IH(2) Suc.prems assms(1) by (simp add: lev_cell_def Let_def row_of_nth cell_Suc)
  finally show ?case using IH Suc.prems by (auto simp: nth_list_update le_Suc_eq)
qed

lemma lev_row_eq:
  assumes "i < length a" "length cur = Suc (length b)"
  shows "lev_row (Suc i) (a ! i) b (row_of a b i, cur) = (row_of a b (Suc i), row_of a b i)"
proof -
  let ?c = "foldl (lev_cell (a ! i) b (row_of a b i)) (cur[0 := Suc i]) [1..<Suc (length b)]"
  have "length ?c = Suc (length b)" "\<forall>j \<le> length b. ?c ! j = cell a b (Suc i) j"
    using lev_row_cells [of i a "cur[0 := Suc i]" b "length b"] assms by auto
  then have "?c = row_of a b (Suc i)"
    by (intro nth_equalityI) (auto simp: row_of_nth row_of_def [of a b] less_Suc_eq_le simp del: upt_Suc)
  then show ?thesis by (simp add: lev_row_def Let_def del: upt_Suc)
qed

lemma lev_rows:
  assumes "n \<le> length a" "length cur = Suc (length b)"
  shows "\<exists>c. length c = Suc (length b) \<and>
    foldl (\<lambda>pc i. lev_row i (a ! (i - 1)) b pc) (row_of a b 0, cur) [1..<Suc n] = (row_of a b n, c)"
  using assms(1)
proof (induction n)
  case 0
  with assms(2) show ?case by auto
next
  case (Suc n)
  then obtain c where c: "length c = Suc (length b)"
    "foldl (\<lambda>pc i. lev_row i (a ! (i - 1)) b pc) (row_of a b 0, cur) [1..<Suc n] = (row_of a b n, c)" by auto
  moreover have "length (row_of a b n) = Suc (length b)" by (simp add: row_of_def)
  moreover have "[1..<Suc (Suc n)] = [1..<Suc n] @ [Suc n]" by simp
  ultimately show ?case
    using lev_row_eq [of n a c b] Suc.prems by (simp del: upt_Suc)
qed

lemma levenshtein_dist: "levenshtein s1 s2 = dist s1 s2"
proof -
  have go: "(let prev = [0..<Suc (length b)]; cur = replicate (length b + 1) 0;
              (prev', _) = foldl (\<lambda>pc i. lev_row i (a ! (i - 1)) b pc) (prev, cur) [1..<Suc (length a)]
          in prev' ! length b) = dist a b" for a b :: string
  proof -
    have r0: "[0..<Suc (length b)] = row_of a b 0"
      unfolding row_of_def by (rule sym, rule map_idI) (auto simp: less_Suc_eq_le simp del: upt_Suc)
    obtain c where "foldl (\<lambda>pc i. lev_row i (a ! (i - 1)) b pc) (row_of a b 0, replicate (length b + 1) 0) [1..<Suc (length a)]
        = (row_of a b (length a), c)"
      using lev_rows [of "length a" a "replicate (length b + 1) 0" b] by auto
    then show ?thesis unfolding r0 Let_def
      by (simp add: row_of_nth cell_def dist_rev del: upt_Suc)
  qed
  show ?thesis
  proof (cases "length s1 < length s2")
    case True
    then show ?thesis using go [of s1 s2] dist_sym [of s1 s2]
      unfolding levenshtein_def by (simp only: if_True prod.case split: if_splits) simp
  next
    case False
    then show ?thesis using go [of s2 s1]
      unfolding levenshtein_def by (simp only: if_False prod.case split: if_splits) simp
  qed
qed

text \<open>
  C35.  \<^verbatim>\<open>levenshtein\<close> is the edit distance: the number it returns is a number of single-character
  insertions, deletions and substitutions that turns one name into the other, and no smaller
  number does.
\<close>

theorem levenshtein_is_edit_distance:
  "levenshtein s t = (LEAST n. edits n s t) \<and> edits (levenshtein s t) s t"
proof -
  have "edits (levenshtein s t) s t" by (simp add: levenshtein_dist edits_dist)
  moreover from this have "(LEAST n. edits n s t) = levenshtein s t"
    by (rule Least_equality) (simp add: levenshtein_dist dist_le_edits)
  ultimately show ?thesis by simp
qed

lemma levenshtein_sample: "levenshtein ''abc'' ''axcd'' = 2"
  by code_simp


section \<open>Jaro and Jaro-Winkler: the code\<close>

text \<open>\<^verbatim>\<open>None\<close> is an index out of range, which panics.\<close>

definition jaro_match :: "string \<Rightarrow> string \<Rightarrow> nat \<Rightarrow> bool list \<times> bool list \<times> nat \<Rightarrow> nat \<Rightarrow> bool list \<times> bool list \<times> nat" where
  "jaro_match a b max_dist st i = (case st of (am, bm, m) \<Rightarrow>
     case List.find (\<lambda>j. \<not> bm ! j \<and> a ! i = b ! j) [i - max_dist ..< min (i + max_dist + 1) (length b)] of
       None \<Rightarrow> (am, bm, m)
     | Some j \<Rightarrow> (am[i := True], bm[j := True], m + 1))"

function skip_unmatched :: "bool list \<Rightarrow> nat \<Rightarrow> nat option" where
  "skip_unmatched bm k = (if length bm \<le> k then None else if bm ! k then Some k else skip_unmatched bm (k + 1))"
  by auto
termination
  by (relation "measure (\<lambda>(bm, k). length bm - k)") auto

declare skip_unmatched.simps [simp del]

fun jaro_transpositions :: "string \<Rightarrow> string \<Rightarrow> bool list \<Rightarrow> bool list \<Rightarrow> nat list \<Rightarrow> nat \<Rightarrow> nat \<Rightarrow> nat option" where
  "jaro_transpositions a b am bm [] t k = Some t"
| "jaro_transpositions a b am bm (i # is) t k = (if am ! i
     then case skip_unmatched bm k of None \<Rightarrow> None
       | Some k' \<Rightarrow> jaro_transpositions a b am bm is (if a ! i \<noteq> b ! k' then t + 1 else t) (k' + 1)
     else jaro_transpositions a b am bm is t k)"

definition jaro :: "string \<Rightarrow> string \<Rightarrow> f64 option" where
  "jaro a b = (
     let la = length a; lb = length b in
     if la = 0 \<and> lb = 0 then Some (Fin False 1)
     else if la = 0 \<or> lb = 0 then Some (Fin False 0)
     else let max_dist = max la lb div 2 - 1;
              (am, bm, matches) = foldl (jaro_match a b max_dist) (replicate la False, replicate lb False, 0) [0..<la]
          in if matches = 0 then Some (Fin False 0)
             else case jaro_transpositions a b am bm [0..<la] 0 0 of None \<Rightarrow> None
               | Some transpositions \<Rightarrow>
                   let t = f_of_nat (transpositions div 2); m = f_of_nat matches
                   in Some (f_div (f_add (f_add (f_div m (f_of_nat la)) (f_div m (f_of_nat lb)))
                                         (f_div (f_sub m t) m)) (Fin False 3)))"

fun common_prefix :: "nat \<Rightarrow> string \<Rightarrow> string \<Rightarrow> nat" where
  "common_prefix (Suc n) (x # a) (y # b) = (if x = y then common_prefix n a b + 1 else 0)"
| "common_prefix _ _ _ = 0"

definition jaro_winkler :: "string \<Rightarrow> string \<Rightarrow> f64 option" where
  "jaro_winkler s1 s2 = map_option (\<lambda>j.
     f_add j (f_mul (f_mul (f_of_nat (common_prefix 4 s1 s2)) (f_of_rat (1 / 10))) (f_sub (Fin False 1) j)))
     (jaro s1 s2)"

section \<open>The match arrays\<close>

definition marks :: "bool list \<Rightarrow> nat" where
  "marks xs = length (filter id xs)"

lemma marks_simps [simp]: "marks [] = 0" "marks (x # xs) = (if x then Suc (marks xs) else marks xs)"
  by (simp_all add: marks_def)

lemma marks_le: "marks xs \<le> length xs"
  by (simp add: marks_def)

lemma marks_replicate [simp]: "marks (replicate n False) = 0"
  by (induction n) simp_all

lemma marks_update: "i < length xs \<Longrightarrow> \<not> xs ! i \<Longrightarrow> marks (xs[i := True]) = Suc (marks xs)"
proof (induction xs arbitrary: i)
  case (Cons x xs)
  then show ?case by (cases i) auto
qed simp

lemma marks_drop: "k < length xs \<Longrightarrow> marks (drop k xs) = (if xs ! k then 1 else 0) + marks (drop (Suc k) xs)"
  by (simp add: Cons_nth_drop_Suc [symmetric])

lemma find_range:
  assumes "List.find p [m..<n] = Some j"
  shows "p j \<and> j < n"
  using find_Some_mem [OF assms] by auto

lemma jaro_match_loop:
  assumes "foldl (jaro_match a b d) (replicate (length a) False, replicate (length b) False, 0) [0..<n] = (am, bm, m)"
    and "n \<le> length a"
  shows "length am = length a \<and> length bm = length b \<and> marks am = m \<and> marks bm = m
    \<and> (\<forall>i. n \<le> i \<longrightarrow> i < length a \<longrightarrow> \<not> am ! i)"
  using assms
proof (induction n arbitrary: am bm m)
  case (Suc n)
  obtain am0 bm0 m0 where f: "foldl (jaro_match a b d) (replicate (length a) False, replicate (length b) False, 0) [0..<n] = (am0, bm0, m0)"
    by (metis prod_cases3)
  with Suc have IH: "length am0 = length a" "length bm0 = length b" "marks am0 = m0" "marks bm0 = m0"
      "\<forall>i. n \<le> i \<longrightarrow> i < length a \<longrightarrow> \<not> am0 ! i"
    by auto
  have step: "jaro_match a b d (am0, bm0, m0) n = (am, bm, m)" using Suc.prems(1) f by simp
  show ?case
  proof (cases "List.find (\<lambda>j. \<not> bm0 ! j \<and> a ! n = b ! j) [n - d ..< min (n + d + 1) (length b)]")
    case None
    with step IH show ?thesis by (simp add: jaro_match_def)
  next
    case (Some j)
    from find_range [OF this] have j: "\<not> bm0 ! j" "j < length b" by auto
    from Some step have "am = am0[n := True]" "bm = bm0[j := True]" "m = m0 + 1"
      by (auto simp: jaro_match_def)
    with j IH Suc.prems(2) show ?thesis by (auto simp: marks_update)
  qed
qed simp

lemma skip_unmatched_found:
  "0 < marks (drop k bm) \<Longrightarrow> \<exists>k'. skip_unmatched bm k = Some k' \<and> k' < length bm
     \<and> Suc (marks (drop (Suc k') bm)) = marks (drop k bm)"
proof (induction bm k rule: skip_unmatched.induct)
  case (1 bm k)
  then have k: "k < length bm" by (cases "k < length bm") auto
  with 1 show ?case
    by (cases "bm ! k") (auto simp: skip_unmatched.simps [of bm k] marks_drop [of k bm])
qed

lemma jaro_transpositions_ok:
  "marks (map ((!) am) is) \<le> marks (drop k bm) \<Longrightarrow>
   \<exists>t'. jaro_transpositions a b am bm is t k = Some t' \<and> t' \<le> t + marks (map ((!) am) is)"
proof (induction "is" arbitrary: t k)
  case (Cons i "is")
  show ?case
  proof (cases "am ! i")
    case True
    with Cons.prems obtain k' where k': "skip_unmatched bm k = Some k'"
      "Suc (marks (drop (Suc k') bm)) = marks (drop k bm)"
      using skip_unmatched_found [of k bm] by auto
    with Cons.prems True have "marks (map ((!) am) is) \<le> marks (drop (Suc k') bm)" by simp
    from Cons.IH [OF this, of t] Cons.IH [OF this, of "t + 1"] k' True show ?thesis by auto
  next
    case False
    with Cons show ?thesis by auto
  qed
qed simp


section \<open>Scores lie in the unit interval\<close>

text \<open>A score: a rounded value between zero and one.\<close>

definition is_score :: "f64 \<Rightarrow> bool" where
  "is_score x \<longleftrightarrow> (\<exists>q. x = Fin False (rnd q) \<and> 0 \<le> q \<and> rnd q \<le> 1)"

lemma is_scoreI: "0 \<le> q \<Longrightarrow> q \<le> 1 \<Longrightarrow> is_score (Fin False (rnd q))"
  unfolding is_score_def using rnd_le_fix [of q 1] by auto

lemma is_score_01 [simp]: "is_score (Fin False 0)" "is_score (Fin False 1)"
  using is_scoreI [of 0] is_scoreI [of 1] by simp_all

lemma is_score_unit: "is_score x \<Longrightarrow> unit_interval x"
  unfolding is_score_def unit_interval_def using rnd_nonneg by auto

lemma f_add_small: "0 \<le> x \<Longrightarrow> 0 \<le> y \<Longrightarrow> x + y \<le> 3 \<Longrightarrow> f_add (Fin False x) (Fin False y) = Fin False (rnd (x + y))"
  by (auto simp: Let_def round_val_def round_mag_le3 add_nonneg_eq_0_iff)

lemma f_sub_small: "0 \<le> y \<Longrightarrow> y \<le> x \<Longrightarrow> x \<le> 3 \<Longrightarrow> f_sub (Fin False x) (Fin False y) = Fin False (rnd (x - y))"
  by (auto simp: f_sub_def Let_def round_val_def round_mag_le3)

lemma f_mul_small: "0 \<le> x \<Longrightarrow> 0 \<le> y \<Longrightarrow> x * y \<le> 3 \<Longrightarrow> f_mul (Fin False x) (Fin False y) = Fin False (rnd (x * y))"
  by (simp add: round_mag_le3)

lemma f_div_small: "0 \<le> x \<Longrightarrow> 0 < y \<Longrightarrow> x \<le> y \<Longrightarrow> f_div (Fin False x) (Fin False y) = Fin False (rnd (x / y))"
  by (simp add: round_mag_le3 divide_le_eq)

lemma f_of_nat_small: "n < 2 ^ 53 \<Longrightarrow> f_of_nat n = Fin False (of_nat n)"
proof -
  assume n: "n < 2 ^ 53"
  have r: "rnd (of_nat n) = of_nat n" using rnd_int [of "int n"] n by simp
  have "(of_nat n :: rat) < 2 powi 53" using n by (simp add: powi_nat)
  then have "\<not> overflows (of_nat n)"
    using powi_le [of 53 1024] by (simp add: overflows_iff)
  then show ?thesis by (simp add: f_of_nat_def round_mag_def r)
qed

lemma f_sub_nat: "t \<le> m \<Longrightarrow> m < 2 ^ 53 \<Longrightarrow> f_sub (f_of_nat m) (f_of_nat t) = f_of_nat (m - t)"
proof -
  assume "t \<le> m" "m < 2 ^ 53"
  then have e: "f_of_nat m = Fin False (of_nat m)" "f_of_nat t = Fin False (of_nat t)"
    "f_of_nat (m - t) = Fin False (of_nat (m - t))" by (intro f_of_nat_small; simp)+
  have d: "(of_nat m :: rat) - of_nat t = of_nat (m - t)" using \<open>t \<le> m\<close> by (simp add: of_nat_diff)
  have "f_sub (Fin False (of_nat m)) (Fin False (of_nat t))
      = (if (of_nat (m - t) :: rat) = 0 then Fin False 0 else round_mag False (of_nat (m - t)))"
    using \<open>t \<le> m\<close> by (simp add: f_sub_def Let_def round_val_def d [symmetric])
  also have "\<dots> = f_of_nat (m - t)"
    using e(3) by (auto simp: f_of_nat_def)
  finally show ?thesis by (simp add: e(1,2))
qed

lemma ratio_score: "a \<le> b \<Longrightarrow> 0 < b \<Longrightarrow> b < 2 ^ 53 \<Longrightarrow>
  f_div (f_of_nat a) (f_of_nat b) = Fin False (rnd (of_nat a / of_nat b)) \<and> 0 \<le> rnd (of_nat a / of_nat b)
  \<and> rnd (of_nat a / of_nat b) \<le> 1"
  using rnd_le_fix [of "of_nat a / of_nat b" 1] rnd_nonneg [of "of_nat a / of_nat b"]
  by (simp add: f_of_nat_small f_div_small divide_le_eq del: f_div.simps)

lemma jaro_mean:
  assumes "0 < m" "m \<le> la" "m \<le> lb" "t \<le> m" "la < 2 ^ 53" "lb < 2 ^ 53"
  shows "is_score (f_div (f_add (f_add (f_div (f_of_nat m) (f_of_nat la)) (f_div (f_of_nat m) (f_of_nat lb)))
     (f_div (f_sub (f_of_nat m) (f_of_nat t)) (f_of_nat m))) (Fin False 3))"
proof -
  define x y z where d: "x = rnd (of_nat m / of_nat la)" "y = rnd (of_nat m / of_nat lb)" "z = rnd (of_nat (m - t) / of_nat m)"
  have e: "f_div (f_of_nat m) (f_of_nat la) = Fin False x" "f_div (f_of_nat m) (f_of_nat lb) = Fin False y"
    "f_div (f_sub (f_of_nat m) (f_of_nat t)) (f_of_nat m) = Fin False z"
    and b: "0 \<le> x" "x \<le> 1" "0 \<le> y" "y \<le> 1" "0 \<le> z" "z \<le> 1"
    using ratio_score [of m la] ratio_score [of m lb] ratio_score [of "m - t" m] assms
    by (simp_all add: d f_sub_nat)
  have s: "0 \<le> rnd (x + y)" "rnd (x + y) \<le> 2"
    using b by (auto intro!: rnd_nonneg rnd_le_fix)
  then have u: "0 \<le> rnd (rnd (x + y) + z)" "rnd (rnd (x + y) + z) \<le> 3"
    using b by (auto intro!: rnd_nonneg rnd_le_fix)
  have "f_div (f_add (f_add (Fin False x) (Fin False y)) (Fin False z)) (Fin False 3)
      = Fin False (rnd (rnd (rnd (x + y) + z) / 3))"
    using b s u by (simp add: f_add_small f_div_small del: f_add.simps f_div.simps)
  then show ?thesis using u by (simp add: e is_scoreI)
qed

lemma jaro_score:
  assumes "length a < 2 ^ 53" "length b < 2 ^ 53"
  shows "\<exists>j. jaro a b = Some j \<and> is_score j"
proof (cases "a = [] \<or> b = []")
  case True
  then show ?thesis by (auto simp: jaro_def Let_def)
next
  case False
  obtain am bm m where f: "foldl (jaro_match a b (max (length a) (length b) div 2 - 1))
      (replicate (length a) False, replicate (length b) False, 0) [0..<length a] = (am, bm, m)"
    by (metis prod_cases3)
  from jaro_match_loop [OF f] have l: "length am = length a" "length bm = length b" "marks am = m" "marks bm = m"
    by auto
  then have ml: "m \<le> length a" "m \<le> length b" using marks_le [of am] marks_le [of bm] by auto
  have am: "map ((!) am) [0..<length a] = am" using l(1) by (metis map_nth)
  obtain t where t: "jaro_transpositions a b am bm [0..<length a] 0 0 = Some t" "t \<le> m"
    using jaro_transpositions_ok [of am "[0..<length a]" 0 bm a b 0] l by (auto simp: am)
  show ?thesis
  proof (cases "m = 0")
    case True
    then show ?thesis using False f by (simp add: jaro_def Let_def)
  next
    case nz: False
    have "t div 2 \<le> m" using t(2) by linarith
    with nz ml assms show ?thesis using False f t(1) jaro_mean [of m "length a" "length b" "t div 2"]
      by (simp add: jaro_def Let_def)
  qed
qed

lemma common_prefix_le: "common_prefix n a b \<le> n"
  by (induction n a b rule: common_prefix.induct) auto

lemma winkler_score:
  assumes "is_score j" "p \<le> 4"
  shows "is_score (f_add j (f_mul (f_mul (f_of_nat p) (f_of_rat (1 / 10))) (f_sub (Fin False 1) j)))"
proof -
  from assms(1) obtain q0 where j: "j = Fin False (rnd q0)" and q0: "0 \<le> q0" "rnd q0 \<le> 1"
    by (auto simp: is_score_def)
  define q where "q = rnd q0"
  have q: "0 \<le> q" "q \<le> 1" using q0 by (simp_all add: q_def rnd_nonneg)
  have t: "f_of_rat (1 / 10) = Fin False (rnd (1 / 10))"
    by (simp add: f_of_rat_def round_val_def round_mag_le3)
  have tb: "0 \<le> rnd (1 / 10)" "rnd (1 / 10) \<le> 1 / 8"
    by (rule rnd_nonneg, simp) (rule rnd_le_fix, simp_all)
  have pb: "0 \<le> of_nat p * rnd (1 / 10)" "of_nat p * rnd (1 / 10) \<le> 1 / 2"
  proof -
    have "(of_nat p :: rat) \<le> 4" using assms(2) by (metis of_nat_le_iff of_nat_numeral)
    then have "of_nat p * rnd (1 / 10) \<le> 4 * (1 / 8)" using tb by (intro mult_mono) auto
    then show "of_nat p * rnd (1 / 10) \<le> 1 / 2" by simp
  qed (use tb in simp)
  define w where "w = rnd (of_nat p * rnd (1 / 10))"
  have w: "0 \<le> w" "w \<le> 1 / 2"
    unfolding w_def using pb rnd_le_fix [of "of_nat p * rnd (1 / 10)" "1 / 2"]
    by (simp_all only: rnd_nonneg rnd_numeral)
  have m1: "f_mul (f_of_nat p) (f_of_rat (1 / 10)) = Fin False w"
  proof -
    have "f_of_nat p = Fin False (of_nat p)" using assms(2) by (intro f_of_nat_small) simp
    with pb tb show ?thesis by (simp add: t w_def f_mul_small del: f_mul.simps)
  qed
  have m2: "f_sub (Fin False 1) j = Fin False (rnd (1 - q))"
    using q by (simp add: j q_def [symmetric] f_sub_small)
  have r: "0 \<le> rnd (1 - q)" "rnd (1 - q) \<le> 1" using q by (auto intro!: rnd_nonneg rnd_le_fix)
  have wr: "0 \<le> w * rnd (1 - q)" "w * rnd (1 - q) \<le> 1 / 2"
    using w r mult_mono [of w "1 / 2" "rnd (1 - q)" 1] by auto
  define e where "e = rnd (w * rnd (1 - q))"
  have m3: "f_mul (Fin False w) (Fin False (rnd (1 - q))) = Fin False e"
    using w r wr by (simp add: e_def f_mul_small del: f_mul.simps)
  have e0: "0 \<le> e" using wr by (simp add: e_def rnd_nonneg)
  have "q + e \<le> 1"
  proof (cases "1 / 2 \<le> q")
    case True
    have fix1: "rnd (1 - q) = 1 - q"
      using rnd_one_minus [of q0] q0 True by (simp add: q_def)
    have "w * (1 - q) \<le> 1 * (1 - q)" using w q by (intro mult_right_mono) auto
    then have "e \<le> 1 - q" unfolding e_def fix1 using w q fix1 by (intro rnd_le_fix) auto
    then show ?thesis by simp
  next
    case False
    have "e \<le> 1 / 2" unfolding e_def using wr by (intro rnd_le_fix) auto
    with False show ?thesis by simp
  qed
  with q e0 have "f_add j (Fin False e) = Fin False (rnd (q + e))" "is_score (Fin False (rnd (q + e)))"
    by (simp_all add: j q_def [symmetric] f_add_small is_scoreI del: f_add.simps)
  then show ?thesis unfolding m1 m2 m3 by simp
qed

text \<open>
  The Jaro-Winkler similarity of two names is always defined (the transposition loop finds a
  second-string match for every first-string match and never runs off the end) and, with every
  operation rounded, is a number between 0 and 1.
\<close>

theorem jaro_winkler_unit:
  assumes "length s1 < 2 ^ 53" and "length s2 < 2 ^ 53"
  shows "\<exists>x. jaro_winkler s1 s2 = Some x \<and> f_le (Fin False 0) x \<and> f_le x (Fin False 1)"
proof -
  obtain j where j: "jaro s1 s2 = Some j" "is_score j" using jaro_score [OF assms] by blast
  show ?thesis
    using unit_interval_le [OF is_score_unit [OF winkler_score [OF j(2) common_prefix_le]]] j(1)
    by (simp add: jaro_winkler_def)
qed

lemma jaro_winkler_unit_witness:
  "\<exists>x. jaro_winkler ''report'' ''reprot'' = Some x \<and> f_le (Fin False 0) x \<and> f_le x (Fin False 1)"
  by (rule jaro_winkler_unit) simp_all

lemma jaro_winkler_score:
  "length s1 < 2 ^ 53 \<Longrightarrow> length s2 < 2 ^ 53 \<Longrightarrow> \<exists>x. jaro_winkler s1 s2 = Some x \<and> is_score x"
  using jaro_score [of s1 s2] winkler_score [OF _ common_prefix_le] by (fastforce simp: jaro_winkler_def)


section \<open>Ranking candidates\<close>

record fuzzy_match =
  fm_path :: string
  fm_name :: string
  fm_score :: f64

text \<open>The outer option is the panic of an index out of range.\<close>

definition score_candidate :: "string \<Rightarrow> string \<Rightarrow> f64 \<Rightarrow> nat \<Rightarrow> f64 option option" where
  "score_candidate q name jw_threshold lev_max_dist = map_option (\<lambda>jw.
     if f_le jw_threshold jw then Some jw
     else let d = levenshtein q name in
       if d \<le> lev_max_dist
       then let denom = max (max (length q) (length name)) 1
            in Some (f_sub (Fin False 1) (f_div (f_of_nat d) (f_of_nat denom)))
       else None) (jaro_winkler q name)"

fun scan_candidates :: "string \<Rightarrow> f64 \<Rightarrow> nat \<Rightarrow> file_row list \<Rightarrow> fuzzy_match list option" where
  "scan_candidates q thr lev [] = Some []"
| "scan_candidates q thr lev (c # cs) = (case score_candidate q (to_lowercase (fr_name c)) thr lev of
       None \<Rightarrow> None
     | Some None \<Rightarrow> scan_candidates q thr lev cs
     | Some (Some s) \<Rightarrow> map_option (\<lambda>out. \<lparr> fm_path = fr_path c, fm_name = fr_name c, fm_score = s \<rparr> # out)
         (scan_candidates q thr lev cs))"

text \<open>\<^verbatim>\<open>b.score.partial_cmp(&a.score).unwrap_or(Equal)\<close> is not \<^verbatim>\<open>Greater\<close>.\<close>

definition score_ge :: "fuzzy_match \<Rightarrow> fuzzy_match \<Rightarrow> bool" where
  "score_ge a b \<longleftrightarrow> f_not_gt (fm_score b) (fm_score a)"

definition match_candidates :: "string \<Rightarrow> file_row list \<Rightarrow> f64 \<Rightarrow> nat \<Rightarrow> nat \<Rightarrow> fuzzy_match list option" where
  "match_candidates query candidates jw_threshold lev_max_dist limit =
     map_option (\<lambda>out. take limit (sort_by score_ge out))
       (scan_candidates (to_lowercase query) jw_threshold lev_max_dist candidates)"

lemma dist_le_max: "dist s t \<le> max (length s) (length t)"
  by (induction s t rule: dist.induct) auto

lemma score_candidate_score:
  assumes "length q < 2 ^ 53" "length n < 2 ^ 53"
  shows "\<exists>r. score_candidate q n thr lev = Some r \<and> (case r of None \<Rightarrow> True | Some s \<Rightarrow> is_score s)"
proof -
  obtain jw where jw: "jaro_winkler q n = Some jw" "is_score jw" using jaro_winkler_score [OF assms] by blast
  let ?d = "levenshtein q n" and ?n = "max (max (length q) (length n)) 1"
  have r: "f_div (f_of_nat ?d) (f_of_nat ?n) = Fin False (rnd (of_nat ?d / of_nat ?n))"
    "0 \<le> rnd (of_nat ?d / of_nat ?n)" "rnd (of_nat ?d / of_nat ?n) \<le> 1"
    using ratio_score [of ?d ?n] dist_le_max [of q n] assms by (simp_all add: levenshtein_dist)
  have "is_score (f_sub (Fin False 1) (f_div (f_of_nat ?d) (f_of_nat ?n)))"
    unfolding r(1) using r(2,3) by (simp add: f_sub_small is_scoreI)
  with jw show ?thesis by (auto simp: score_candidate_def Let_def)
qed

text \<open>What the code should compute for one candidate.\<close>

definition candidate_score :: "string \<Rightarrow> f64 \<Rightarrow> nat \<Rightarrow> file_row \<Rightarrow> f64 option" where
  "candidate_score q thr lev c = the (score_candidate q (to_lowercase (fr_name c)) thr lev)"

definition matched :: "string \<Rightarrow> f64 \<Rightarrow> nat \<Rightarrow> file_row list \<Rightarrow> fuzzy_match list" where
  "matched q thr lev cs = List.map_filter (\<lambda>c. map_option
     (\<lambda>s. \<lparr> fm_path = fr_path c, fm_name = fr_name c, fm_score = s \<rparr>) (candidate_score q thr lev c)) cs"

lemma scan_candidates_matched:
  assumes "length q < 2 ^ 53" "list_all (\<lambda>c. length (fr_name c) < 2 ^ 53) cs"
  shows "scan_candidates q thr lev cs = Some (matched q thr lev cs)
    \<and> (\<forall>m \<in> set (matched q thr lev cs). is_score (fm_score m))"
  using assms(2)
proof (induction cs)
  case (Cons c cs)
  obtain r where r: "score_candidate q (to_lowercase (fr_name c)) thr lev = Some r"
    "case r of None \<Rightarrow> True | Some s \<Rightarrow> is_score s"
    using score_candidate_score [OF assms(1), of "to_lowercase (fr_name c)"] Cons.prems by auto
  with Cons show ?case
    by (cases r) (auto simp: matched_def candidate_score_def List.map_filter_simps)
qed (simp add: matched_def List.map_filter_simps)

text \<open>
  The ranking is exact: for names of any realistic length \<^verbatim>\<open>match_candidates\<close> never panics and
  returns the candidates whose Jaro-Winkler score reaches the threshold or whose edit distance is
  within the limit, each once with its score in $[0, 1]$, best first, at most \<^verbatim>\<open>limit\<close> of them, and
  whatever it leaves out scores no better than what it returns.
\<close>

theorem match_candidates_ranked:
  assumes "length query < 2 ^ 53" and "list_all (\<lambda>c. length (fr_name c) < 2 ^ 53) cs"
  shows "\<exists>out rest. match_candidates query cs thr lev limit = Some out
    \<and> mset (out @ rest) = mset (matched (to_lowercase query) thr lev cs)
    \<and> sorted_wrt (\<lambda>a b. f_le (fm_score b) (fm_score a)) (out @ rest)
    \<and> length out = min limit (length (matched (to_lowercase query) thr lev cs))
    \<and> list_all (\<lambda>m. f_le (Fin False 0) (fm_score m) \<and> f_le (fm_score m) (Fin False 1)) out"
proof -
  let ?m = "matched (to_lowercase query) thr lev cs"
  have scan: "scan_candidates (to_lowercase query) thr lev cs = Some ?m"
    and sc: "\<And>m. m \<in> set ?m \<Longrightarrow> is_score (fm_score m)"
    using scan_candidates_matched [of "to_lowercase query" cs thr lev] assms by auto
  have nn: "m \<in> set ?m \<Longrightarrow> fm_score m \<noteq> NaN" for m
    using unit_interval_not_nan [OF is_score_unit [OF sc]] by blast
  then have le: "score_ge a b \<longleftrightarrow> f_le (fm_score b) (fm_score a)" if "a \<in> set ?m" "b \<in> set ?m" for a b
    using that by (simp add: score_ge_def f_not_gt_iff)
  have "sorted_wrt score_ge (sort_by score_ge ?m)"
  proof (rule sorted_sort_by)
    fix a b assume "a \<in> set ?m" "b \<in> set ?m"
    then show "score_ge a b \<or> score_ge b a"
      using f_le_total [of "fm_score b" "fm_score a"] nn by (simp add: le)
  next
    fix a b c assume "a \<in> set ?m" "b \<in> set ?m" "c \<in> set ?m" "score_ge a b" "score_ge b c"
    then show "score_ge a c"
      using f_le_trans [of "fm_score c" "fm_score b" "fm_score a"] by (simp add: le)
  qed
  then have "sorted_wrt (\<lambda>a b. f_le (fm_score b) (fm_score a)) (sort_by score_ge ?m)"
    by (rule sorted_wrt_mono_rel [rotated]) (use le in auto)
  moreover have "list_all (\<lambda>m. f_le (Fin False 0) (fm_score m) \<and> f_le (fm_score m) (Fin False 1)) (take limit (sort_by score_ge ?m))"
    using unit_interval_le [OF is_score_unit [OF sc]] by (auto simp: list_all_iff dest: in_set_takeD)
  ultimately show ?thesis
    by (intro exI [where x = "take limit (sort_by score_ge ?m)"] exI [where x = "drop limit (sort_by score_ge ?m)"])
      (simp add: match_candidates_def scan min_def del: mset_append)
qed

definition sample_file :: "string \<Rightarrow> file_row" where
  "sample_file n = \<lparr> fr_name = n, fr_path = CHR ''/'' # n, fr_parent_path = ''/'', fr_file_type = ''file'',
     fr_size = None, fr_last_modified = None, fr_extension = None, fr_is_hidden = 0 \<rparr>"

lemma match_candidates_ranked_witness:
  "\<exists>out rest. match_candidates ''report'' [sample_file ''Reprot'', sample_file ''zebra''] (f_of_rat (8 / 10)) 2 10 = Some out
    \<and> mset (out @ rest) = mset (matched (to_lowercase ''report'') (f_of_rat (8 / 10)) 2 [sample_file ''Reprot'', sample_file ''zebra''])
    \<and> sorted_wrt (\<lambda>a b. f_le (fm_score b) (fm_score a)) (out @ rest)
    \<and> length out = min 10 (length (matched (to_lowercase ''report'') (f_of_rat (8 / 10)) 2 [sample_file ''Reprot'', sample_file ''zebra'']))
    \<and> list_all (\<lambda>m. f_le (Fin False 0) (fm_score m) \<and> f_le (fm_score m) (Fin False 1)) out"
  by (rule match_candidates_ranked [of "''report''" "[sample_file ''Reprot'', sample_file ''zebra'']"])
    (simp, simp add: sample_file_def)

end
