(* ===== verification/Crypto_Frame.thy ===== *)
theory Crypto_Frame
  imports Rust_Std
begin

text \<open>
  The cryptographic layer and the frame format (\<^verbatim>\<open>network/crypto.rs\<close>).  X25519, HKDF, the AEAD,
  base64, SHA-256, the random source and UUIDs are libraries: they are the fields of \<open>ext\<close>, and what the
  program relies on is stated as predicates on them.  The frame format is the program's own and is
  proved to survive concatenation: a stream of frames is read back message by message.
\<close>

unbundle bit_operations_syntax

section \<open>External libraries\<close>

record ext =
  x_dh :: "bytes \<Rightarrow> bytes \<Rightarrow> bytes"
  x_pub :: "bytes \<Rightarrow> bytes"
  x_hkdf :: "bytes \<Rightarrow> bytes \<Rightarrow> bytes \<Rightarrow> nat \<Rightarrow> bytes option"
  x_seal :: "bytes \<Rightarrow> bytes \<Rightarrow> bytes \<Rightarrow> bytes option"
  x_open :: "bytes \<Rightarrow> bytes \<Rightarrow> bytes \<Rightarrow> bytes option"
  x_b64 :: "bytes \<Rightarrow> string"
  x_unb64 :: "string \<Rightarrow> bytes option"
  x_sha256 :: "bytes \<Rightarrow> bytes"
  x_random :: "nat \<Rightarrow> nat \<Rightarrow> bytes"
  x_uuid_parse :: "string \<Rightarrow> string option"
  x_uuid_new :: "nat \<Rightarrow> string"
  x_hostname :: "string option"

text \<open>Documented behaviour: X25519 commutes, opening undoes sealing, decoding undoes encoding, the
  random source fills the buffer, HKDF delivers the length asked for.\<close>

definition dh_ok :: "ext \<Rightarrow> bool" where
  "dh_ok x \<longleftrightarrow> (\<forall>a b. x_dh x a (x_pub x b) = x_dh x b (x_pub x a))"

definition seal_ok :: "ext \<Rightarrow> bool" where
  "seal_ok x \<longleftrightarrow> (\<forall>k n p ct. x_seal x k n p = Some ct \<longrightarrow> x_open x k n ct = Some p)"

definition b64_ok :: "ext \<Rightarrow> bool" where
  "b64_ok x \<longleftrightarrow> (\<forall>b. x_unb64 x (x_b64 x b) = Some b)"

definition random_ok :: "ext \<Rightarrow> bool" where
  "random_ok x \<longleftrightarrow> (\<forall>s n. length (x_random x s n) = n)"

definition hkdf_ok :: "ext \<Rightarrow> bool" where
  "hkdf_ok x \<longleftrightarrow> (\<forall>s i f n. n \<le> 8160 \<longrightarrow> (\<exists>k. x_hkdf x s i f n = Some k \<and> length k = n))"

section \<open>The code\<close>

datatype crypto_error = Encrypt | Decrypt | KeyDecode string | Hkdf | FrameTooLarge nat

definition MAX_FRAME_BYTES :: nat where
  "MAX_FRAME_BYTES = 64 * 1024 * 1024"

text \<open>The secret is 32 random bytes; \<open>seed\<close> numbers the draws.\<close>

definition generate_ephemeral :: "ext \<Rightarrow> nat \<Rightarrow> bytes \<times> bytes" where
  "generate_ephemeral x seed = (let secret = x_random x seed 32 in (secret, x_pub x secret))"

definition ephemeral_dh :: "ext \<Rightarrow> bytes \<Rightarrow> bytes \<Rightarrow> bytes" where
  "ephemeral_dh x secret their_pubkey = x_dh x secret their_pubkey"

definition static_dh :: "ext \<Rightarrow> bytes \<Rightarrow> bytes \<Rightarrow> bytes" where
  "static_dh x privkey their_pubkey = x_dh x privkey their_pubkey"

definition be32 :: "byte \<Rightarrow> byte \<Rightarrow> byte \<Rightarrow> byte \<Rightarrow> 32 word" where
  "be32 a b c d = push_bit 24 (ucast a) OR push_bit 16 (ucast b) OR push_bit 8 (ucast c) OR ucast d"

text \<open>The result of \<^verbatim>\<open>expand\<close> is ignored: on an error the buffer stays zero.\<close>

definition pairing_number :: "ext \<Rightarrow> bytes \<Rightarrow> nat" where
  "pairing_number x shared_secret = (
     let okm = (case x_hkdf x (utf8 ''synapt-pair-verify'') shared_secret [] 3 of None \<Rightarrow> [0, 0, 0] | Some k \<Rightarrow> k)
     in unat (be32 0 (okm ! 0) (okm ! 1) (okm ! 2) mod 100000000))"

definition pairing_code :: "ext \<Rightarrow> bytes \<Rightarrow> string" where
  "pairing_code x shared_secret = pad_left 8 (show_nat (pairing_number x shared_secret))"

definition session_key :: "ext \<Rightarrow> bytes \<Rightarrow> bytes \<Rightarrow> (crypto_error, bytes) res" where
  "session_key x shared_secret nonce = ok_or Hkdf (x_hkdf x nonce shared_secret (utf8 ''synapt-session-key'') 32)"

definition encrypt :: "ext \<Rightarrow> nat \<Rightarrow> bytes \<Rightarrow> bytes \<Rightarrow> (crypto_error, bytes) res" where
  "encrypt x seed key_bytes plaintext = (let nonce = x_random x seed 12 in
     bind_res (ok_or Encrypt (x_seal x key_bytes nonce plaintext)) (\<lambda>ct. Inr (nonce @ ct)))"

definition decrypt :: "ext \<Rightarrow> bytes \<Rightarrow> bytes \<Rightarrow> (crypto_error, bytes) res" where
  "decrypt x key_bytes data = (if length data < 12 then Inl Decrypt
     else ok_or Decrypt (x_open x key_bytes (take 12 data) (drop 12 data)))"

definition le32 :: "32 word \<Rightarrow> bytes" where
  "le32 w = [ucast w, ucast (drop_bit 8 w), ucast (drop_bit 16 w), ucast (drop_bit 24 w)]"

definition write_frame :: "bytes \<Rightarrow> (crypto_error, bytes) res" where
  "write_frame payload = (if MAX_FRAME_BYTES < length payload then Inl (FrameTooLarge (length payload))
     else Inr (le32 (word_of_nat (length payload)) @ payload))"

definition read_frame_len :: "bytes \<Rightarrow> nat" where
  "read_frame_len b = unat (be32 (b ! 3) (b ! 2) (b ! 1) (b ! 0))"

definition to_b64 :: "ext \<Rightarrow> bytes \<Rightarrow> string" where
  "to_b64 x b = x_b64 x b"

definition from_b64 :: "ext \<Rightarrow> string \<Rightarrow> (crypto_error, bytes) res" where
  "from_b64 x s = ok_or (KeyDecode ''invalid base64'') (x_unb64 x s)"

section \<open>Little endian\<close>

lemma length_le32 [simp]: "length (le32 w) = 4"
  by (simp add: le32_def)

lemma be32_le32: "be32 (le32 w ! 3) (le32 w ! 2) (le32 w ! 1) (le32 w ! 0) = w"
proof -
  have "push_bit 24 (ucast (ucast (drop_bit 24 w) :: 8 word) :: 32 word) OR push_bit 16 (ucast (ucast (drop_bit 16 w) :: 8 word))
      OR push_bit 8 (ucast (ucast (drop_bit 8 w) :: 8 word)) OR ucast (ucast w :: 8 word) = w" (is "?v = w")
  proof (rule bit_word_eqI)
    fix n assume "n < LENGTH(32)"
    then have n: "n < 32" by simp
    consider "n < 8" | "8 \<le> n" "n < 16" | "16 \<le> n" "n < 24" | "24 \<le> n" using n by linarith
    then show "bit ?v n = bit w n"
      by cases (use n in \<open>auto simp: bit_simps\<close>)
  qed
  then show ?thesis by (simp add: be32_def le32_def numeral_2_eq_2 numeral_3_eq_3)
qed

lemma read_frame_len_le32: "n < 2 ^ 32 \<Longrightarrow> read_frame_len (le32 (word_of_nat n)) = n"
  unfolding read_frame_len_def be32_le32 by (simp add: unat_of_nat take_bit_eq_mod)


section \<open>The pairing code\<close>

lemma be32_three: "unat (be32 0 a b c) < 2 ^ 24"
proof -
  have "be32 0 a b c = take_bit 24 (be32 0 a b c)"
  proof (rule bit_word_eqI)
    fix n assume "n < LENGTH(32)"
    then show "bit (be32 0 a b c) n = bit (take_bit 24 (be32 0 a b c)) n"
      by (auto simp: be32_def bit_simps dest: bit_imp_le_length)
  qed
  then have "unat (be32 0 a b c) = take_bit 24 (unat (be32 0 a b c))"
    by (metis unsigned_take_bit_eq)
  then show ?thesis by (metis take_bit_nat_less_exp)
qed

lemma pairing_number_less: "pairing_number x s < 2 ^ 24"
proof -
  have "unat (w mod 100000000) \<le> unat w" for w :: "32 word"
    by (simp add: unat_mod_distrib mod_le_divisor mod_less_eq_dividend)
  then show ?thesis
    unfolding pairing_number_def Let_def using be32_three le_less_trans by blast
qed

lemma is_digit_zero: "is_digit (CHR ''0'')"
  by code_simp

text \<open>
  The verification code is always eight decimal digits, and whatever the shared secret it is
  one of 2 to the 24 values, though eight digits could show six times as many.
\<close>

theorem pairing_code_digits:
  "length (pairing_code x s) = 8 \<and> list_all is_digit (pairing_code x s) \<and> pairing_number x s \<le> 16777215"
proof -
  have "length (show_nat (pairing_number x s)) \<le> 8"
    using pairing_number_less [of x s] by (intro show_nat_length) auto
  moreover have "list_all is_digit (pad_left 8 (show_nat (pairing_number x s)))"
    using show_nat_digits [of "pairing_number x s"] is_digit_zero
    by (auto simp: pad_left_def list_all_iff)
  ultimately show ?thesis
    using pairing_number_less [of x s] by (simp add: pairing_code_def pad_left_def)
qed

section \<open>Encryption round trip\<close>

lemma decrypt_encrypt:
  assumes "seal_ok x" "random_ok x" "encrypt x seed k p = Inr ct"
  shows "decrypt x k ct = Inr p"
  using assms by (auto simp: encrypt_def decrypt_def Let_def seal_ok_def random_ok_def bind_res_eq_Inr)

section \<open>A concrete library\<close>

text \<open>An instance of the library laws, for evaluation on concrete inputs: it offers no secrecy.\<close>

definition toy_ext :: ext where
  "toy_ext = \<lparr> x_dh = (\<lambda>a b. map2 (+) a b), x_pub = (\<lambda>a. a),
     x_hkdf = (\<lambda>s i f n. Some (take n (i @ s @ f @ replicate n 0))),
     x_seal = (\<lambda>k n p. Some (k @ p)),
     x_open = (\<lambda>k n c. if take (length k) c = k then Some (drop (length k) c) else None),
     x_b64 = map (\<lambda>b. char_of (unat b)), x_unb64 = (\<lambda>s. Some (map (\<lambda>c. word_of_nat (code c)) s)),
     x_sha256 = (\<lambda>b. b), x_random = (\<lambda>s n. replicate n (word_of_nat s)),
     x_uuid_parse = (\<lambda>s. if s = [] then None else Some s), x_uuid_new = (\<lambda>s. ''uuid-'' @ show_nat s),
     x_hostname = None \<rparr>"

lemma map2_add_commute: "map2 (+) a b = map2 (+) b (a :: bytes)"
  by (induction a b rule: list_induct2') (simp_all add: add.commute)

lemma toy_ext_ok: "dh_ok toy_ext" "seal_ok toy_ext" "b64_ok toy_ext" "random_ok toy_ext" "hkdf_ok toy_ext"
proof -
  show "dh_ok toy_ext" by (simp add: dh_ok_def toy_ext_def map2_add_commute)
  have "word_of_nat (code (char_of (unat b))) = b" for b :: byte
    using unsigned_less [of b, where ?'a = nat] by simp
  then show "b64_ok toy_ext" by (simp add: b64_ok_def toy_ext_def comp_def)
qed (auto simp: seal_ok_def random_ok_def hkdf_ok_def toy_ext_def min_def)

end
