(* ===== verification/Trust_Store.thy ===== *)
theory Trust_Store
  imports Crypto_Frame Database
begin

text \<open>
  The device identity and the trusted peers (\<^verbatim>\<open>trust/store.rs\<close>), over the database.  A device that
  has made its identity once loads the same identity on every later start.
\<close>

datatype trust_error = TDb db_error | TKeyDecode string

record local_identity =
  id_device_id :: string
  id_device_name :: string
  id_pubkey_b64 :: string
  id_privkey_bytes :: bytes

record trusted_peer =
  pr_device_id :: string
  pr_device_name :: string
  pr_pubkey_b64 :: string
  pr_fingerprint :: string
  pr_paired_at :: int
  pr_last_seen :: "int option"

type_synonym 'a trust_act = "(db, trust_error, 'a) act"

definition uuid_of :: "ext \<Rightarrow> string \<Rightarrow> (trust_error, string) res" where
  "uuid_of x s = ok_or (TKeyDecode ''invalid uuid'') (x_uuid_parse x s)"

definition generate_and_store :: "ext \<Rightarrow> nat \<Rightarrow> local_identity trust_act" where
  "generate_and_store x seed = (
     let secret = x_random x seed 32;
         public = x_pub x secret;
         pubkey_b64 = x_b64 x public;
         privkey_b64 = x_b64 x secret;
         device_id = x_uuid_new x seed;
         device_name = (case x_hostname x of Some h \<Rightarrow> h | None \<Rightarrow> ''device-'' @ take 8 device_id)
     in act_then (act_map_err TDb (insert_local_device
           \<lparr> ld_device_id = device_id, ld_device_name = device_name, ld_pubkey_b64 = pubkey_b64, ld_privkey_b64 = privkey_b64 \<rparr>))
         (act_ret \<lparr> id_device_id = device_id, id_device_name = device_name, id_pubkey_b64 = pubkey_b64,
            id_privkey_bytes = secret \<rparr>))"

definition identity_of_row :: "ext \<Rightarrow> local_device_row \<Rightarrow> (trust_error, local_identity) res" where
  "identity_of_row x row =
     bind_res (map_err (\<lambda>_. TKeyDecode ''invalid base64'') (ok_or () (x_unb64 x (ld_privkey_b64 row)))) (\<lambda>key.
     if length key \<noteq> 32 then Inl (TKeyDecode ''private key wrong length'')
     else bind_res (uuid_of x (ld_device_id row)) (\<lambda>u.
       Inr \<lparr> id_device_id = u, id_device_name = ld_device_name row, id_pubkey_b64 = ld_pubkey_b64 row,
             id_privkey_bytes = key \<rparr>))"

definition init_identity :: "ext \<Rightarrow> nat \<Rightarrow> local_identity trust_act" where
  "init_identity x seed = act_bind (act_map_err TDb get_local_device) (\<lambda>r. case r of
      Some row \<Rightarrow> act_lift (identity_of_row x row)
    | None \<Rightarrow> generate_and_store x seed)"

definition hex_digit :: "nat \<Rightarrow> char" where
  "hex_digit d = (if d < 10 then char_of (48 + d) else char_of (87 + d))"

definition to_hex :: "bytes \<Rightarrow> string" where
  "to_hex b = concat (map (\<lambda>w. [hex_digit (unat w div 16), hex_digit (unat w mod 16)]) b)"

definition fingerprint :: "ext \<Rightarrow> string \<Rightarrow> (trust_error, string) res" where
  "fingerprint x pubkey_b64 =
     bind_res (ok_or (TKeyDecode ''invalid base64'') (x_unb64 x pubkey_b64)) (\<lambda>b. Inr (to_hex (x_sha256 x b)))"

fun collect_res :: "('e, 'a) res list \<Rightarrow> ('e, 'a list) res" where
  "collect_res [] = Inr []"
| "collect_res (r # rs) = bind_res r (\<lambda>a. bind_res (collect_res rs) (\<lambda>as. Inr (a # as)))"

definition peer_of_row :: "ext \<Rightarrow> trusted_peer_row \<Rightarrow> (trust_error, trusted_peer) res" where
  "peer_of_row x r = bind_res (uuid_of x (tp_device_id r)) (\<lambda>u. Inr
     \<lparr> pr_device_id = u, pr_device_name = tp_device_name r, pr_pubkey_b64 = tp_pubkey_b64 r,
       pr_fingerprint = tp_fingerprint r, pr_paired_at = tp_paired_at r, pr_last_seen = tp_last_seen r \<rparr>)"

definition list_trusted_peers :: "ext \<Rightarrow> trusted_peer list trust_act" where
  "list_trusted_peers x = act_bind (act_map_err TDb get_trusted_peers) (\<lambda>rows.
     act_lift (collect_res (map (peer_of_row x) rows)))"

definition revoke_peer :: "string \<Rightarrow> unit trust_act" where
  "revoke_peer device_id = act_map_err TDb (remove_trusted_peer device_id)"

section \<open>The identity is stable\<close>

definition uuid_ok :: "ext \<Rightarrow> bool" where
  "uuid_ok x \<longleftrightarrow> (\<forall>s. x_uuid_parse x (x_uuid_new x s) = Some (x_uuid_new x s))"

lemma faults_nil_upd: "faults d = [] \<Longrightarrow> d\<lparr>faults := tl (faults d)\<rparr> = d"
  by simp

lemma init_identity_stored:
  assumes "faults d = []" "local_device d = Some row" "identity_of_row x row = Inr i"
  shows "init_identity x seed d = (Inr i, d)"
  using assms by (simp add: init_identity_def act_simps get_local_device_def query_no_faults)

text \<open>
  The identity is made once: on a fresh database the first start stores a new identity, and
  every later start, whatever its random source yields, loads exactly that identity (id, name and
  both keys) and writes nothing.
\<close>

theorem identity_stable:
  assumes "faults d = []" and "local_device d = None" and "b64_ok x" "random_ok x" "uuid_ok x"
    and "init_identity x seed d = (r, d1)"
  shows "\<exists>i. r = Inr i \<and> local_device d1 \<noteq> None \<and> init_identity x seed' d1 = (Inr i, d1)"
proof -
  define row where "row = \<lparr> ld_device_id = x_uuid_new x seed,
    ld_device_name = (case x_hostname x of Some h \<Rightarrow> h | None \<Rightarrow> ''device-'' @ take 8 (x_uuid_new x seed)),
    ld_pubkey_b64 = x_b64 x (x_pub x (x_random x seed 32)), ld_privkey_b64 = x_b64 x (x_random x seed 32) \<rparr>"
  define i where "i = \<lparr> id_device_id = ld_device_id row, id_device_name = ld_device_name row,
    id_pubkey_b64 = ld_pubkey_b64 row, id_privkey_bytes = x_random x seed 32 \<rparr>"
  have run: "init_identity x seed d = (Inr i, d\<lparr>local_device := Some row\<rparr>)"
    using assms(1,2)
    by (simp add: init_identity_def generate_and_store_def act_simps get_local_device_def query_no_faults
        insert_local_device_def db_exec_no_faults Let_def row_def i_def)
  have "identity_of_row x row = Inr i"
    using assms(3-5) by (simp add: identity_of_row_def row_def i_def b64_ok_def random_ok_def uuid_of_def uuid_ok_def)
  then have "init_identity x seed' (d\<lparr>local_device := Some row\<rparr>) = (Inr i, d\<lparr>local_device := Some row\<rparr>)"
    using assms(1) by (intro init_identity_stored) simp_all
  with run assms(6) show ?thesis by auto
qed

lemma toy_uuid_ok: "uuid_ok toy_ext"
  by (simp add: uuid_ok_def toy_ext_def)

lemma identity_stable_witness:
  "\<exists>i d1. init_identity toy_ext 7 db_empty = (Inr i, d1) \<and> init_identity toy_ext 99 d1 = (Inr i, d1)"
proof -
  obtain r d1 where run: "init_identity toy_ext 7 db_empty = (r, d1)" by fastforce
  have "faults db_empty = []" "local_device db_empty = None" by (simp_all add: db_empty_def)
  from identity_stable [OF this toy_ext_ok(3,4) toy_uuid_ok run, of 99] run show ?thesis by auto
qed

lemma length_to_hex: "length (to_hex b) = 2 * length b"
  by (induction b) (simp_all add: to_hex_def)

end
