(* ===== verification/Session.thy ===== *)
theory Session
  imports Trust_Store
begin

text \<open>
  Frames over a TCP connection and the session handshake (\<^verbatim>\<open>network/mod.rs\<close>).  A connection holds the
  bytes that will arrive and the bytes sent; sending may fail part way by a schedule.  JSON is a
  library: its encoders and decoders are the fields of \<open>handshake_json\<close>.
\<close>

section \<open>Connections\<close>

record conn =
  c_in :: bytes
  c_out :: bytes
  c_faults :: "nat option list"

datatype session_error = SIo | SJson | SCrypto crypto_error | NotTrusted | SDb db_error

type_synonym 'a conn_act = "(conn, session_error, 'a) act"

definition read_exact :: "nat \<Rightarrow> bytes conn_act" where
  "read_exact n c = (if length (c_in c) < n then (Inl SIo, c\<lparr>c_in := []\<rparr>)
     else (Inr (take n (c_in c)), c\<lparr>c_in := drop n (c_in c)\<rparr>))"

text \<open>A scheduled fault lets \<open>k\<close> bytes out and then fails; \<^verbatim>\<open>flush\<close> is a call of its own.\<close>

definition write_all :: "bytes \<Rightarrow> unit conn_act" where
  "write_all b c = (case c_faults c of
       [] \<Rightarrow> (Inr (), c\<lparr>c_out := c_out c @ b\<rparr>)
     | None # fs \<Rightarrow> (Inr (), c\<lparr>c_out := c_out c @ b, c_faults := fs\<rparr>)
     | Some k # fs \<Rightarrow> (Inl SIo, c\<lparr>c_out := c_out c @ take k b, c_faults := fs\<rparr>))"

definition flush :: "unit conn_act" where
  "flush = write_all []"

definition write_plain :: "bytes \<Rightarrow> unit conn_act" where
  "write_plain b = act_bind (act_lift (map_err SCrypto (write_frame b))) (\<lambda>frame.
     act_then (write_all frame) flush)"

definition read_plain :: "bytes conn_act" where
  "read_plain = act_bind (read_exact 4) (\<lambda>len_buf.
     let len = read_frame_len len_buf in
     if MAX_FRAME_BYTES < len then act_err (SCrypto (FrameTooLarge len)) else read_exact len)"

definition write_enc :: "ext \<Rightarrow> nat \<Rightarrow> bytes \<Rightarrow> bytes \<Rightarrow> unit conn_act" where
  "write_enc x seed key plaintext = act_bind (act_lift (map_err SCrypto (encrypt x seed key plaintext))) write_plain"

definition read_enc :: "ext \<Rightarrow> bytes \<Rightarrow> bytes conn_act" where
  "read_enc x key = act_bind read_plain (\<lambda>ct. act_lift (map_err SCrypto (decrypt x key ct)))"

section \<open>The handshake\<close>

datatype server_hello = Hello string | Rejected

record handshake_json =
  j_init :: "string \<Rightarrow> bytes"
  j_uninit :: "bytes \<Rightarrow> string option"
  j_hello :: "server_hello \<Rightarrow> bytes"
  j_unhello :: "bytes \<Rightarrow> server_hello option"

definition to_key32 :: "bytes \<Rightarrow> (session_error, bytes) res" where
  "to_key32 v = (if length v = 32 then Inr v else Inl (SCrypto (KeyDecode ''key/nonce wrong length'')))"

text \<open>What both ends hold: the connection, the database and the number of random draws made.\<close>

record world =
  w_conn :: conn
  w_db :: db
  w_seed :: nat

type_synonym ('z, 'a) net_act = "('z world_scheme, session_error, 'a) act"

definition on_conn :: "'a conn_act \<Rightarrow> ('z, 'a) net_act" where
  "on_conn m w = (case m (w_conn w) of (r, c) \<Rightarrow> (r, w\<lparr>w_conn := c\<rparr>))"

definition on_db :: "'a db_act \<Rightarrow> ('z, 'a) net_act" where
  "on_db m w = (case m (w_db w) of (r, d) \<Rightarrow> (map_err SDb r, w\<lparr>w_db := d\<rparr>))"

definition draw :: "('z, nat) net_act" where
  "draw w = (Inr (w_seed w), w\<lparr>w_seed := w_seed w + 1\<rparr>)"

definition session_handshake_server :: "ext \<Rightarrow> handshake_json \<Rightarrow> local_identity \<Rightarrow> ('z, bytes \<times> string) net_act" where
  "session_handshake_server x j identity =
     act_bind (on_conn read_plain) (\<lambda>msg.
     act_bind (act_lift (ok_or SJson (j_uninit j msg))) (\<lambda>device_id.
     act_bind (on_db get_trusted_peers) (\<lambda>peers.
     case List.find (\<lambda>p. tp_device_id p = device_id) peers of
       None \<Rightarrow> act_then (on_conn (write_plain (j_hello j Rejected))) (act_err NotTrusted)
     | Some peer \<Rightarrow>
         act_bind (act_lift (map_err SCrypto (from_b64 x (tp_pubkey_b64 peer)))) (\<lambda>raw.
         act_bind (act_lift (to_key32 raw)) (\<lambda>their_pub.
         act_bind draw (\<lambda>seed.
         let nonce = x_random x seed 32;
             shared = static_dh x (id_privkey_bytes identity) their_pub in
         act_bind (act_lift (map_err SCrypto (session_key x shared nonce))) (\<lambda>key.
         act_then (on_conn (write_plain (j_hello j (Hello (to_b64 x nonce)))))
           (act_ret (key, tp_device_id peer)))))))))"

definition session_handshake_client :: "ext \<Rightarrow> handshake_json \<Rightarrow> string \<Rightarrow> local_identity \<Rightarrow> string \<Rightarrow> ('z, bytes) net_act" where
  "session_handshake_client x j local_device_id identity peer_pubkey_b64 =
     act_then (on_conn (write_plain (j_init j local_device_id)))
     (act_bind (on_conn read_plain) (\<lambda>msg.
     act_bind (act_lift (ok_or SJson (j_unhello j msg))) (\<lambda>hello.
     case hello of
       Rejected \<Rightarrow> act_err NotTrusted
     | Hello nonce_b64 \<Rightarrow>
         act_bind (act_lift (map_err SCrypto (from_b64 x nonce_b64))) (\<lambda>raw.
         act_bind (act_lift (to_key32 raw)) (\<lambda>nonce.
         act_bind (act_lift (map_err SCrypto (from_b64 x peer_pubkey_b64))) (\<lambda>raw_pub.
         act_bind (act_lift (to_key32 raw_pub)) (\<lambda>their_pub.
         act_lift (map_err SCrypto (session_key x (static_dh x (id_privkey_bytes identity) their_pub) nonce))))))))) "

section \<open>Framing\<close>

definition frame_of :: "bytes \<Rightarrow> bytes" where
  "frame_of b = le32 (word_of_nat (length b)) @ b"

lemma write_frame_Inr: "write_frame b = Inr f \<longleftrightarrow> length b \<le> MAX_FRAME_BYTES \<and> f = frame_of b"
  by (auto simp: write_frame_def frame_of_def)

lemma write_plain_ok:
  assumes "c_faults c = []" "length b \<le> MAX_FRAME_BYTES"
  shows "write_plain b c = (Inr (), c\<lparr>c_out := c_out c @ frame_of b\<rparr>)"
  using assms by (simp add: write_plain_def flush_def write_all_def act_simps write_frame_def frame_of_def)

lemma write_plain_too_large:
  "MAX_FRAME_BYTES < length b \<Longrightarrow> write_plain b c = (Inl (SCrypto (FrameTooLarge (length b))), c)"
  by (simp add: write_plain_def act_simps write_frame_def)

lemma read_plain_frame:
  assumes "length b \<le> MAX_FRAME_BYTES" "c_in c = frame_of b @ r"
  shows "read_plain c = (Inr b, c\<lparr>c_in := r\<rparr>)"
proof -
  have "length b < 2 ^ 32" using assms(1) by (simp add: MAX_FRAME_BYTES_def)
  then have "read_frame_len (le32 (word_of_nat (length b))) = length b" by (rule read_frame_len_le32)
  with assms show ?thesis
    by (simp add: read_plain_def read_exact_def act_simps frame_of_def Let_def)
qed

lemma read_plain_bound: "read_plain c = (Inr b, c') \<Longrightarrow> length b \<le> MAX_FRAME_BYTES"
  by (auto simp: read_plain_def read_exact_def act_simps Let_def split: if_splits)

text \<open>The contract of a frame format: what is encoded is decoded, whatever follows it.\<close>

locale frame_codec =
  fixes enc :: "'m \<Rightarrow> 'b list option"
    and dec :: "'b list \<Rightarrow> ('m \<times> 'b list) option"
  assumes dec_enc: "enc m = Some f \<Longrightarrow> dec (f @ r) = Some (m, r)"
begin

fun enc_all :: "'m list \<Rightarrow> 'b list option" where
  "enc_all [] = Some []"
| "enc_all (m # ms) = (case enc m of None \<Rightarrow> None | Some f \<Rightarrow> map_option ((@) f) (enc_all ms))"

fun dec_all :: "nat \<Rightarrow> 'b list \<Rightarrow> ('m list \<times> 'b list) option" where
  "dec_all 0 b = Some ([], b)"
| "dec_all (Suc n) b = (case dec b of None \<Rightarrow> None
     | Some (m, r) \<Rightarrow> map_option (\<lambda>(ms, r'). (m # ms, r')) (dec_all n r))"

lemma dec_enc_all: "enc_all ms = Some b \<Longrightarrow> dec_all (length ms) (b @ r) = Some (ms, r)"
  by (induction ms arbitrary: b) (auto simp: dec_enc split: option.splits)

lemma enc_all_inj: "enc_all ms = Some b \<Longrightarrow> enc_all ns = Some b \<Longrightarrow> length ms = length ns \<Longrightarrow> ms = ns"
  using dec_enc_all [of ms b "[]"] dec_enc_all [of ns b "[]"] by simp

end

definition idle :: "bytes \<Rightarrow> conn" where
  "idle b = \<lparr> c_in = b, c_out = [], c_faults = [] \<rparr>"

definition sent :: "unit conn_act \<Rightarrow> bytes option" where
  "sent m = (case m (idle []) of (Inl _, _) \<Rightarrow> None | (Inr _, c) \<Rightarrow> Some (c_out c))"

definition received :: "bytes conn_act \<Rightarrow> bytes \<Rightarrow> (bytes \<times> bytes) option" where
  "received m b = (case m (idle b) of (Inl _, _) \<Rightarrow> None | (Inr p, c) \<Rightarrow> Some (p, c_in c))"

lemma sent_write_plain: "sent (write_plain b) = (if length b \<le> MAX_FRAME_BYTES then Some (frame_of b) else None)"
  by (auto simp: sent_def write_plain_ok write_plain_too_large idle_def)

interpretation plain: frame_codec "\<lambda>b. sent (write_plain b)" "received read_plain"
proof unfold_locales
  fix m f r :: bytes
  assume "sent (write_plain m) = Some f"
  then have "f = frame_of m" "length m \<le> MAX_FRAME_BYTES" by (auto simp: sent_write_plain split: if_splits)
  then show "received read_plain (f @ r) = Some (m, r)"
    by (simp add: received_def read_plain_frame idle_def)
qed

text \<open>Sending a list of messages and reading that many back.\<close>

fun send_all :: "bytes list \<Rightarrow> unit conn_act" where
  "send_all [] = act_ret ()"
| "send_all (m # ms) = act_then (write_plain m) (send_all ms)"

fun receive_all :: "nat \<Rightarrow> bytes list conn_act" where
  "receive_all 0 = act_ret []"
| "receive_all (Suc n) = act_bind read_plain (\<lambda>m. act_bind (receive_all n) (\<lambda>ms. act_ret (m # ms)))"

lemma send_all_ok:
  "c_faults c = [] \<Longrightarrow> list_all (\<lambda>m. length m \<le> MAX_FRAME_BYTES) ms \<Longrightarrow>
   send_all ms c = (Inr (), c\<lparr>c_out := c_out c @ concat (map frame_of ms)\<rparr>)"
  by (induction ms arbitrary: c) (simp_all add: act_simps write_plain_ok)

lemma receive_all_ok:
  "list_all (\<lambda>m. length m \<le> MAX_FRAME_BYTES) ms \<Longrightarrow> c_in c = concat (map frame_of ms) @ r \<Longrightarrow>
   receive_all (length ms) c = (Inr ms, c\<lparr>c_in := r\<rparr>)"
proof (induction ms arbitrary: c)
  case Nil
  then have "c = c\<lparr>c_in := r\<rparr>" by simp
  then show ?case by (simp add: act_ret_def)
next
  case (Cons m ms)
  then have "read_plain c = (Inr m, c\<lparr>c_in := concat (map frame_of ms) @ r\<rparr>)"
    by (intro read_plain_frame) simp_all
  with Cons show ?case by (simp add: act_simps)
qed

text \<open>
  Frames do not run together: messages of up to 64 MiB written one after another arrive as
  the same messages in the same order and leave the bytes behind them untouched.
\<close>

theorem frames_in_order:
  assumes "c_faults s = []" and "list_all (\<lambda>m. length m \<le> MAX_FRAME_BYTES) ms"
    and "send_all ms s = (r, s')" and "c_in t = drop (length (c_out s)) (c_out s') @ rest"
  shows "r = Inr () \<and> receive_all (length ms) t = (Inr ms, t\<lparr>c_in := rest\<rparr>)"
proof -
  have "r = Inr ()" "c_out s' = c_out s @ concat (map frame_of ms)"
    using assms(3) send_all_ok [OF assms(1,2)] by auto
  with receive_all_ok [OF assms(2), of t rest] assms(4) show ?thesis by simp
qed

lemma frames_in_order_witness:
  "receive_all 2 (idle [2, 0, 0, 0, 7, 8, 0, 0, 0, 0, 99]) = (Inr [[7, 8], []], idle [99])"
proof -
  let ?t = "idle [2, 0, 0, 0, 7, 8, 0, 0, 0, 0, 99]"
  have run: "send_all [[7, 8], []] (idle []) = (Inr (), \<lparr> c_in = [], c_out = [2, 0, 0, 0, 7, 8, 0, 0, 0, 0], c_faults = [] \<rparr>)"
    by (subst send_all_ok) (simp_all add: idle_def frame_of_def le32_def MAX_FRAME_BYTES_def)
  have "c_faults (idle []) = []" "list_all (\<lambda>m. length m \<le> MAX_FRAME_BYTES) [[7, 8], [] :: bytes]"
    "c_in ?t = drop (length (c_out (idle []))) (c_out \<lparr> c_in = [], c_out = [2, 0, 0, 0, 7, 8, 0, 0, 0, 0], c_faults = [] \<rparr>) @ [99]"
    by (simp_all add: idle_def MAX_FRAME_BYTES_def)
  from frames_in_order [OF this(1,2) run this(3)] show ?thesis
    by (simp add: idle_def numeral_2_eq_2 del: receive_all.simps)
qed

lemma take_take_drop: "xs = take a xs @ take n (drop a xs) @ drop (n + a) xs"
  by (metis append_take_drop_id drop_drop)

text \<open>
  C34.  A frame that announces more than 64 MiB is refused before its payload is read or a buffer
  for it is made, and a connection that ends inside a frame is an error, never a short message.
\<close>

theorem read_plain_guards:
  "case read_plain c of
     (Inr b, c') \<Rightarrow> length b = read_frame_len (take 4 (c_in c)) \<and> length b \<le> MAX_FRAME_BYTES
        \<and> c_in c = take 4 (c_in c) @ b @ c_in c' \<and> c_out c' = c_out c
   | (Inl e, c') \<Rightarrow> (e = SIo \<and> (length (c_in c) < 4 \<or> length (c_in c) < 4 + read_frame_len (take 4 (c_in c))))
        \<or> (e = SCrypto (FrameTooLarge (read_frame_len (take 4 (c_in c))))
             \<and> MAX_FRAME_BYTES < read_frame_len (take 4 (c_in c)) \<and> c_in c' = drop 4 (c_in c))"
  using take_take_drop [of "c_in c" 4 "read_frame_len (take 4 (c_in c))"]
  by (auto simp: read_plain_def read_exact_def act_simps Let_def not_less min_def add.commute)

lemma read_enc_write_enc:
  assumes "seal_ok x" "random_ok x" "encrypt x seed k p = Inr ct" "length ct \<le> MAX_FRAME_BYTES"
    "c_in c = frame_of ct @ r"
  shows "read_enc x k c = (Inr p, c\<lparr>c_in := r\<rparr>)"
  using assms by (simp add: read_enc_def act_simps read_plain_frame decrypt_encrypt)


section \<open>What the handshake guarantees\<close>

definition json_ok :: "handshake_json \<Rightarrow> bool" where
  "json_ok j \<longleftrightarrow> (\<forall>i. j_uninit j (j_init j i) = Some i) \<and> (\<forall>h. j_unhello j (j_hello j h) = Some h)"

definition pub_ok :: "ext \<Rightarrow> bool" where
  "pub_ok x \<longleftrightarrow> (\<forall>k. length k = 32 \<longrightarrow> length (x_pub x k) = 32)"

lemma on_conn_run [act_simps]: "on_conn m w = (case m (w_conn w) of (r, c) \<Rightarrow> (r, w\<lparr>w_conn := c\<rparr>))"
  by (simp add: on_conn_def)

lemma on_db_run [act_simps]: "on_db m w = (case m (w_db w) of (r, d) \<Rightarrow> (map_err SDb r, w\<lparr>w_db := d\<rparr>))"
  by (simp add: on_db_def)

lemma draw_run [act_simps]: "draw w = (Inr (w_seed w), w\<lparr>w_seed := w_seed w + 1\<rparr>)"
  by (simp add: draw_def)

lemma write_plain_out:
  "write_plain b c = (r, c') \<Longrightarrow> \<exists>n. c_out c' = c_out c @ take n (frame_of b) \<and> c_in c' = c_in c"
  by (auto simp: write_plain_def flush_def write_all_def act_simps write_frame_def frame_of_def
      split: if_splits list.splits option.splits intro: exI [where x = 0] exI [where x = "length (le32 (word_of_nat (length b)) @ b)"])

lemma write_enc_out:
  assumes "write_enc x seed key p c = (r, c')"
  shows "c_in c' = c_in c \<and> (\<exists>n ct. c_out c' = c_out c @ take n (frame_of ct) \<and> (encrypt x seed key p = Inr ct \<or> n = 0))"
proof (cases "encrypt x seed key p")
  case (Inl e)
  with assms show ?thesis by (auto simp: write_enc_def act_simps intro!: exI [where x = 0])
next
  case (Inr ct)
  with assms have "write_plain ct c = (r, c')" by (simp add: write_enc_def act_simps)
  from write_plain_out [OF this] Inr show ?thesis by blast
qed

lemma read_plain_out: "read_plain c = (r, c') \<Longrightarrow> c_out c' = c_out c \<and> c_faults c' = c_faults c"
  by (auto simp: read_plain_def read_exact_def act_simps Let_def split: if_splits)

lemma get_trusted_peers_Inr:
  "get_trusted_peers d = (Inr ps, d') \<Longrightarrow> set ps = set (trusted_peers d) \<and> trusted_peers d' = trusted_peers d"
  by (auto simp: get_trusted_peers_def sql_query_def act_get_def order_by_def dest!: db_exec_Inr)

lemma server_accepts:
  assumes "session_handshake_server x j ident w = (Inr (k, i), w')"
  shows "\<exists>p msg pub. p \<in> set (trusted_peers (w_db w)) \<and> tp_device_id p = i \<and> j_uninit j msg = Some i
     \<and> (\<exists>c. read_plain (w_conn w) = (Inr msg, c))
     \<and> x_unb64 x (tp_pubkey_b64 p) = Some pub \<and> length pub = 32
     \<and> x_hkdf x (x_random x (w_seed w) 32) (x_dh x (id_privkey_bytes ident) pub) (utf8 ''synapt-session-key'') 32 = Some k"
proof -
  from assms obtain msg c1 where m: "read_plain (w_conn w) = (Inr msg, c1)"
    by (auto simp: session_handshake_server_def act_simps split: prod.splits sum.splits)
  with assms obtain i' where i': "j_uninit j msg = Some i'"
    by (cases "j_uninit j msg") (auto simp: session_handshake_server_def act_simps)
  with assms m obtain ps d1 where ps: "get_trusted_peers (w_db w) = (Inr ps, d1)"
    by (auto simp: session_handshake_server_def act_simps split: prod.splits sum.splits)
  with assms m i' obtain p where p: "List.find (\<lambda>p. tp_device_id p = i') ps = Some p"
    by (cases "List.find (\<lambda>p. tp_device_id p = i') ps")
      (auto simp: session_handshake_server_def act_simps split: prod.splits sum.splits)
  with assms m i' ps obtain pub where pub: "x_unb64 x (tp_pubkey_b64 p) = Some pub" "length pub = 32"
    by (cases "x_unb64 x (tp_pubkey_b64 p)")
      (auto simp: session_handshake_server_def act_simps from_b64_def to_key32_def split: if_splits)
  from assms m i' ps p pub have k: "x_hkdf x (x_random x (w_seed w) 32) (x_dh x (id_privkey_bytes ident) pub) (utf8 ''synapt-session-key'') 32 = Some k"
    and "i = tp_device_id p"
    by (auto simp: session_handshake_server_def act_simps from_b64_def to_key32_def static_dh_def session_key_def Let_def
        ok_or_def split: prod.splits sum.splits option.splits)
  with p i' m pub k find_Some_mem [OF p] get_trusted_peers_Inr [OF ps] show ?thesis by auto
qed

lemma server_rejects:
  assumes "session_handshake_server x j ident w = (r, w')" "read_plain (w_conn w) = (Inr msg, c)" "j_uninit j msg = Some i"
    and "i \<notin> tp_device_id ` set (trusted_peers (w_db w))"
  shows "\<exists>e n. r = Inl e \<and> c_out (w_conn w') = c_out (w_conn w) @ take n (frame_of (j_hello j Rejected))"
proof -
  obtain rp d1 where g: "get_trusted_peers (w_db w) = (rp, d1)" by fastforce
  have out: "c_out c = c_out (w_conn w)" using read_plain_out [OF assms(2)] by simp
  show ?thesis
  proof (cases rp)
    case (Inl e)
    with assms g out show ?thesis
      by (auto simp: session_handshake_server_def act_simps intro: exI [where x = 0])
  next
    case (Inr ps)
    have "List.find (\<lambda>p. tp_device_id p = i) ps = None"
      using get_trusted_peers_Inr [of "w_db w" ps d1] g Inr assms(4) by (auto simp: find_None_all)
    moreover obtain rw cw where wr: "write_plain (j_hello j Rejected) c = (rw, cw)" by fastforce
    ultimately show ?thesis
      using assms g Inr write_plain_out [OF wr] out
      by (auto simp: session_handshake_server_def act_simps split: sum.splits)
  qed
qed

text \<open>
  C1.  Only trusted devices get a session: whatever bytes arrive and whichever calls fail, when
  the responder's handshake succeeds, the announced device is a row of the trusted peers and the
  session key is derived from that row's public key, the responder's private key and a nonce drawn
  in this handshake.
\<close>

theorem handshake_only_trusted:
  assumes "session_handshake_server x j ident w = (Inr (k, i), w')"
  shows "\<exists>p pub. p \<in> set (trusted_peers (w_db w)) \<and> tp_device_id p = i
     \<and> x_unb64 x (tp_pubkey_b64 p) = Some pub \<and> length pub = 32
     \<and> session_key x (static_dh x (id_privkey_bytes ident) pub) (x_random x (w_seed w) 32) = Inr k"
  using server_accepts [OF assms] by (auto simp: session_key_def static_dh_def)


lemma client_sends:
  assumes "c_faults (w_conn w) = []" "length (j_init j i) \<le> MAX_FRAME_BYTES" "session_handshake_client x j i ident peer w = (r, w')"
  shows "c_out (w_conn w') = c_out (w_conn w) @ frame_of (j_init j i)"
proof -
  have wr: "write_plain (j_init j i) (w_conn w) = (Inr (), (w_conn w)\<lparr>c_out := c_out (w_conn w) @ frame_of (j_init j i)\<rparr>)"
    using assms(1,2) by (simp add: write_plain_ok)
  obtain rr c where rd: "read_plain ((w_conn w)\<lparr>c_out := c_out (w_conn w) @ frame_of (j_init j i)\<rparr>) = (rr, c)" by fastforce
  have "w_conn w' = c"
    using assms(3) wr rd
    by (auto simp: session_handshake_client_def act_simps split: sum.splits server_hello.splits)
  with read_plain_out [OF rd] show ?thesis by simp
qed

text \<open>
  C11.  Key agreement: when two paired devices run the handshake over a connection that delivers
  each side's bytes to the other, both succeed with the same session key, and the responder knows
  the initiator by the device id it was paired under.
\<close>

theorem handshake_agreement:
  assumes ext: "dh_ok x" "b64_ok x" "random_ok x" "hkdf_ok x" "pub_ok x" "json_ok j"
    and sizes: "length (j_init j i) \<le> MAX_FRAME_BYTES"
      "length (j_hello j (Hello (to_b64 x (x_random x (w_seed wb) 32)))) \<le> MAX_FRAME_BYTES"
    and keys: "length (id_privkey_bytes alice) = 32" "length (id_privkey_bytes bob) = 32"
    and fresh: "c_faults (w_conn wa) = []" "c_faults (w_conn wb) = []" "c_out (w_conn wa) = []" "c_out (w_conn wb) = []"
      "faults (w_db wb) = []"
    and paired: "List.find (\<lambda>p. tp_device_id p = i) (order_by tp_device_name (trusted_peers (w_db wb))) = Some p"
      "tp_pubkey_b64 p = to_b64 x (x_pub x (id_privkey_bytes alice))"
    and runs: "session_handshake_client x j i alice (to_b64 x (x_pub x (id_privkey_bytes bob))) wa = (ra, wa')"
      "session_handshake_server x j bob wb = (rb, wb')"
    and network: "c_in (w_conn wb) = c_out (w_conn wa')" "c_in (w_conn wa) = c_out (w_conn wb')"
  shows "\<exists>k. ra = Inr k \<and> rb = Inr (k, i)"
proof -
  let ?nonce = "x_random x (w_seed wb) 32"
  let ?pa = "x_pub x (id_privkey_bytes alice)" and ?pb = "x_pub x (id_privkey_bytes bob)"
  have "(32::nat) \<le> 8160 \<longrightarrow> (\<exists>k. x_hkdf x ?nonce (x_dh x (id_privkey_bytes bob) ?pa) (utf8 ''synapt-session-key'') 32 = Some k \<and> length k = 32)"
    using ext(4) unfolding hkdf_ok_def by blast
  then obtain k where k: "x_hkdf x ?nonce (x_dh x (id_privkey_bytes bob) ?pa) (utf8 ''synapt-session-key'') 32 = Some k"
    by auto
  have len: "length ?pa = 32" "length ?pb = 32" "length ?nonce = 32"
    using ext(3,5) keys by (simp_all add: pub_ok_def random_ok_def)
  have j: "j_uninit j (j_init j i) = Some i" "\<And>h. j_unhello j (j_hello j h) = Some h"
    "length (j_init j i) \<le> MAX_FRAME_BYTES" "length (j_hello j (Hello (x_b64 x ?nonce))) \<le> MAX_FRAME_BYTES"
    using ext(6) sizes by (simp_all add: json_ok_def to_b64_def)
  have b64: "x_unb64 x (x_b64 x b) = Some b" for b using ext(2) by (simp add: b64_ok_def)
  have in_b: "c_in (w_conn wb) = frame_of (j_init j i)"
    using client_sends [OF fresh(1) sizes(1) runs(1)] fresh(3) network(1) by simp
  have rd_b: "read_plain (w_conn wb) = (Inr (j_init j i), (w_conn wb)\<lparr>c_in := []\<rparr>)"
    using read_plain_frame [OF j(3), of "w_conn wb" "[]"] in_b by simp
  have id: "tp_device_id p = i" using find_Some_mem [OF paired(1)] by simp
  let ?hello = "j_hello j (Hello (x_b64 x ?nonce))"
  have wr_b: "write_plain ?hello ((w_conn wb)\<lparr>c_in := []\<rparr>) = (Inr (), (w_conn wb)\<lparr>c_in := [], c_out := frame_of ?hello\<rparr>)"
    using fresh(2,4) j(4) by (simp add: write_plain_ok)
  have b: "rb = Inr (k, i)" "c_out (w_conn wb') = frame_of ?hello"
    using runs(2) rd_b j(1) fresh(5) paired k len b64 wr_b id
    by (auto simp: session_handshake_server_def act_simps get_trusted_peers_def query_no_faults from_b64_def to_b64_def
        to_key32_def static_dh_def session_key_def Let_def)
  have rd_a: "read_plain ((w_conn wa)\<lparr>c_out := frame_of (j_init j i)\<rparr>) = (Inr ?hello, (w_conn wa)\<lparr>c_out := frame_of (j_init j i), c_in := []\<rparr>)"
    using read_plain_frame [OF j(4), of "(w_conn wa)\<lparr>c_out := frame_of (j_init j i)\<rparr>" "[]"] network(2) b(2) by simp
  have dh: "x_dh x (id_privkey_bytes alice) ?pb = x_dh x (id_privkey_bytes bob) ?pa"
    using ext(1) by (simp add: dh_ok_def)
  have "ra = Inr k"
    using runs(1) rd_a j(2,3) fresh(1,3) k len b64 dh
    by (auto simp: session_handshake_client_def act_simps write_plain_ok from_b64_def to_b64_def to_key32_def
        static_dh_def session_key_def)
  with b(1) show ?thesis by blast
qed


text \<open>Concrete JSON codecs and devices, to see the theorems at work.\<close>

definition chars :: "string \<Rightarrow> bytes" where
  "chars s = map (\<lambda>c. word_of_nat (code c)) s"

definition unchars :: "bytes \<Rightarrow> string" where
  "unchars b = map (\<lambda>w. char_of (unat w)) b"

lemma unchars_chars [simp]: "unchars (chars s) = s"
  by (simp add: chars_def unchars_def comp_def unat_of_nat take_bit_eq_mod)

lemma length_chars [simp]: "length (chars s) = length s"
  by (simp add: chars_def)

definition toy_json :: handshake_json where
  "toy_json = \<lparr> j_init = chars, j_uninit = (\<lambda>b. Some (unchars b)),
     j_hello = (\<lambda>h. case h of Hello n \<Rightarrow> 1 # chars n | Rejected \<Rightarrow> [0]),
     j_unhello = (\<lambda>b. if b = [0] then Some Rejected else Some (Hello (unchars (tl b)))) \<rparr>"

lemma toy_json_ok: "json_ok toy_json"
  by (simp add: json_ok_def toy_json_def split: server_hello.split)

lemma toy_pub_ok: "pub_ok toy_ext"
  by (simp add: pub_ok_def toy_ext_def)

definition toy_identity :: "byte \<Rightarrow> local_identity" where
  "toy_identity k = \<lparr> id_device_id = ''dev'', id_device_name = ''dev'', id_pubkey_b64 = [], id_privkey_bytes = replicate 32 k \<rparr>"

definition toy_peer :: trusted_peer_row where
  "toy_peer = \<lparr> tp_device_id = ''alice'', tp_device_name = ''alice'',
     tp_pubkey_b64 = to_b64 toy_ext (x_pub toy_ext (replicate 32 1)), tp_fingerprint = [], tp_paired_at = 0, tp_last_seen = None \<rparr>"

definition toy_world :: "bytes \<Rightarrow> world" where
  "toy_world b = \<lparr> w_conn = idle b, w_db = db_empty\<lparr>trusted_peers := [toy_peer]\<rparr>, w_seed = 5 \<rparr>"


text \<open>The bytes of the exchange, as the two sides produce them.\<close>

definition toy_hello :: bytes where
  "toy_hello = frame_of (j_hello toy_json (Hello (to_b64 toy_ext (replicate 32 5))))"

lemma toy_server_run_on:
  assumes "w_conn w = idle (frame_of (chars ''alice'') @ rest)" "trusted_peers (w_db w) = [toy_peer]" "faults (w_db w) = []"
    "w_seed w = 5"
  shows "session_handshake_server toy_ext toy_json (toy_identity 2) w
     = (Inr (replicate 32 3, ''alice''), w\<lparr>w_conn := (idle rest)\<lparr>c_out := toy_hello\<rparr>, w_seed := 6\<rparr>)"
proof -
  have r: "read_plain (idle (frame_of (chars ''alice'') @ rest)) = (Inr (chars ''alice''), idle rest)"
    using read_plain_frame [of "chars ''alice''" "idle (frame_of (chars ''alice'') @ rest)" rest]
    by (simp add: MAX_FRAME_BYTES_def idle_def)
  have f: "List.find (\<lambda>p. tp_device_id p = ''alice'') (order_by tp_device_name [toy_peer]) = Some toy_peer"
    by (simp add: order_by_def toy_peer_def)
  have u: "x_unb64 toy_ext (tp_pubkey_b64 toy_peer) = Some (replicate 32 1)"
    using toy_ext_ok(3) by (simp add: toy_peer_def to_b64_def b64_ok_def) (simp add: toy_ext_def)
  have k: "x_hkdf toy_ext (replicate 32 5) (x_dh toy_ext (replicate 32 2) (replicate 32 1)) i 32 = Some (replicate 32 3)" for i
    by (simp add: toy_ext_def map2_map_map zip_replicate)
  have n: "x_random toy_ext 5 32 = replicate 32 5" by (simp add: toy_ext_def)
  have w: "write_plain (j_hello toy_json (Hello (to_b64 toy_ext (replicate 32 5)))) (idle rest) = (Inr (), (idle rest)\<lparr>c_out := toy_hello\<rparr>)"
    by (subst write_plain_ok) (simp_all add: idle_def toy_json_def toy_hello_def to_b64_def toy_ext_def MAX_FRAME_BYTES_def)
  have d: "w\<lparr>w_db := w_db w, w_conn := c\<rparr> = w\<lparr>w_conn := c\<rparr>" for c by simp
  show ?thesis
    by (simp add: session_handshake_server_def act_simps assms r toy_json_def [THEN arg_cong, of j_uninit]
        get_trusted_peers_def query_no_faults f from_b64_def u to_key32_def Let_def static_dh_def
        toy_identity_def session_key_def k n w d) (simp add: toy_peer_def)
qed

lemma toy_server_run:
  "\<exists>w'. session_handshake_server toy_ext toy_json (toy_identity 2) (toy_world (frame_of (chars ''alice'')))
     = (Inr (replicate 32 3, ''alice''), w') \<and> c_out (w_conn w') = toy_hello"
  by (subst toy_server_run_on [where rest = "[]"]) (simp_all add: toy_world_def db_empty_def)

lemma handshake_only_trusted_witness:
  "\<exists>p pub. p \<in> set (trusted_peers (w_db (toy_world (frame_of (chars ''alice''))))) \<and> tp_device_id p = ''alice''
     \<and> x_unb64 toy_ext (tp_pubkey_b64 p) = Some pub \<and> length pub = 32
     \<and> session_key toy_ext (static_dh toy_ext (id_privkey_bytes (toy_identity 2)) pub)
         (x_random toy_ext (w_seed (toy_world (frame_of (chars ''alice'')))) 32) = Inr (replicate 32 3)"
proof -
  obtain w' where "session_handshake_server toy_ext toy_json (toy_identity 2) (toy_world (frame_of (chars ''alice'')))
     = (Inr (replicate 32 3, ''alice''), w')" using toy_server_run by blast
  from handshake_only_trusted [OF this] show ?thesis .
qed


lemma handshake_agreement_witness:
  "\<exists>k. fst (session_handshake_client toy_ext toy_json ''alice'' (toy_identity 1) (to_b64 toy_ext (x_pub toy_ext (replicate 32 2)))
        (toy_world toy_hello)) = Inr k
     \<and> fst (session_handshake_server toy_ext toy_json (toy_identity 2) (toy_world (frame_of (chars ''alice'')))) = Inr (k, ''alice'')"
proof -
  let ?wa = "toy_world toy_hello" and ?wb = "toy_world (frame_of (chars ''alice''))"
  obtain ra wa' where ra: "session_handshake_client toy_ext toy_json ''alice'' (toy_identity 1)
      (to_b64 toy_ext (x_pub toy_ext (id_privkey_bytes (toy_identity 2)))) ?wa = (ra, wa')" by fastforce
  obtain rb wb' where rb: "session_handshake_server toy_ext toy_json (toy_identity 2) ?wb = (rb, wb')"
    and ob: "c_out (w_conn wb') = toy_hello" using toy_server_run by blast
  have sizes: "length (j_init toy_json ''alice'') \<le> MAX_FRAME_BYTES"
    "length (j_hello toy_json (Hello (to_b64 toy_ext (x_random toy_ext (w_seed ?wb) 32)))) \<le> MAX_FRAME_BYTES"
    by (simp_all add: toy_json_def MAX_FRAME_BYTES_def to_b64_def toy_ext_def)
  have clean: "c_faults (w_conn (toy_world b)) = []" "c_out (w_conn (toy_world b)) = []" "faults (w_db (toy_world b)) = []" for b
    by (simp_all add: toy_world_def idle_def db_empty_def)
  have oa: "c_out (w_conn wa') = frame_of (chars ''alice'')"
    using client_sends [OF clean(1) sizes(1) ra] by (simp add: clean toy_json_def)
  have p: "List.find (\<lambda>p. tp_device_id p = ''alice'') (order_by tp_device_name (trusted_peers (w_db ?wb))) = Some toy_peer"
    by (simp add: order_by_def toy_world_def toy_peer_def)
  have "\<exists>k. ra = Inr k \<and> rb = Inr (k, ''alice'')"
    by (rule handshake_agreement [OF toy_ext_ok(1,3,4,5) toy_pub_ok toy_json_ok sizes _ _ clean(1,1,2,2,3) p _ ra rb])
      (simp_all add: toy_identity_def toy_peer_def ob oa, simp_all add: toy_world_def idle_def)
  with ra rb show ?thesis by (simp add: toy_identity_def)
qed

end
