(* ===== verification/File_System.thy ===== *)
theory File_System
  imports Rust_Std
begin

text \<open>
  The file system the transfers see, and the gate that keeps remote requests inside the shared
  directories (\<^verbatim>\<open>is_path_allowed\<close> and \<^verbatim>\<open>classify_batch\<close> of \<^verbatim>\<open>network/transfer.rs\<close>).  The operating
  system resolves links: \<^verbatim>\<open>canonicalize\<close> is a function in the state, and any call may fail by a
  schedule.
\<close>

text \<open>A directory opens like a file but cannot be read; its length is the system's.\<close>

datatype node = FileNode bytes | DirNode nat

record fs =
  fs_nodes :: "path \<Rightarrow> node option"
  fs_canon :: "path \<Rightarrow> path option"
  fs_faults :: "bool list"

type_synonym 'a fs_act = "(fs, unit, 'a) act"

definition fs_call :: "'a fs_act \<Rightarrow> 'a fs_act" where
  "fs_call m s = (let s' = s\<lparr>fs_faults := tl (fs_faults s)\<rparr> in
     if fs_faults s \<noteq> [] \<and> hd (fs_faults s) then (Inl (), s') else m s')"

definition io_error :: "'a fs_act" where
  "io_error = act_err ()"

definition node_len :: "node \<Rightarrow> nat" where
  "node_len n = (case n of FileNode b \<Rightarrow> length b | DirNode k \<Rightarrow> k)"

definition file_open :: "path \<Rightarrow> unit fs_act" where
  "file_open p = fs_call (\<lambda>s. if fs_nodes s p = None then (Inl (), s) else (Inr (), s))"

definition file_metadata :: "path \<Rightarrow> node fs_act" where
  "file_metadata p = fs_call (\<lambda>s. case fs_nodes s p of None \<Rightarrow> (Inl (), s) | Some n \<Rightarrow> (Inr n, s))"

definition file_read :: "path \<Rightarrow> bytes fs_act" where
  "file_read p = fs_call (\<lambda>s. case fs_nodes s p of Some (FileNode b) \<Rightarrow> (Inr b, s) | _ \<Rightarrow> (Inl (), s))"

definition create_dir_all :: "path \<Rightarrow> unit fs_act" where
  "create_dir_all p = fs_call (\<lambda>s. case fs_nodes s p of
       Some (FileNode _) \<Rightarrow> (Inl (), s)
     | Some (DirNode _) \<Rightarrow> (Inr (), s)
     | None \<Rightarrow> (Inr (), s\<lparr>fs_nodes := (fs_nodes s)(p \<mapsto> DirNode 0)\<rparr>))"

text \<open>\<^verbatim>\<open>OpenOptions::new().create(true).write(true).truncate(t)\<close>; \<^verbatim>\<open>File::create\<close> truncates.\<close>

definition file_open_write :: "bool \<Rightarrow> path \<Rightarrow> unit fs_act" where
  "file_open_write trunc p = fs_call (\<lambda>s. case fs_nodes s p of
       Some (DirNode _) \<Rightarrow> (Inl (), s)
     | Some (FileNode b) \<Rightarrow> (Inr (), if trunc then s\<lparr>fs_nodes := (fs_nodes s)(p \<mapsto> FileNode [])\<rparr> else s)
     | None \<Rightarrow> (Inr (), s\<lparr>fs_nodes := (fs_nodes s)(p \<mapsto> FileNode [])\<rparr>))"

text \<open>\<^verbatim>\<open>OpenOptions::new().write(true).create_new(true)\<close>\<close>

definition file_create_new :: "path \<Rightarrow> unit fs_act" where
  "file_create_new p = fs_call (\<lambda>s. case fs_nodes s p of
       Some _ \<Rightarrow> (Inl (), s) | None \<Rightarrow> (Inr (), s\<lparr>fs_nodes := (fs_nodes s)(p \<mapsto> FileNode [])\<rparr>))"

definition write_at :: "nat \<Rightarrow> bytes \<Rightarrow> bytes \<Rightarrow> bytes" where
  "write_at pos chunk b = take pos b @ replicate (pos - length b) 0 @ chunk @ drop (pos + length chunk) b"

definition file_write :: "path \<Rightarrow> nat \<Rightarrow> bytes \<Rightarrow> unit fs_act" where
  "file_write p pos chunk = fs_call (\<lambda>s. case fs_nodes s p of
       Some (FileNode b) \<Rightarrow> (Inr (), s\<lparr>fs_nodes := (fs_nodes s)(p \<mapsto> FileNode (write_at pos chunk b))\<rparr>)
     | _ \<Rightarrow> (Inl (), s))"

definition remove_file :: "path \<Rightarrow> unit fs_act" where
  "remove_file p = fs_call (\<lambda>s. case fs_nodes s p of
       Some (FileNode _) \<Rightarrow> (Inr (), s\<lparr>fs_nodes := (fs_nodes s)(p := None)\<rparr>)
     | _ \<Rightarrow> (Inl (), s))"

lemma write_at_end: "length b = n \<Longrightarrow> write_at n chunk b = b @ chunk"
  by (simp add: write_at_def)

lemma write_at_prefix:
  "take n (write_at n chunk b) @ chunk = take (n + length chunk) (write_at n chunk b)" if "n \<le> length b"
  using that by (simp add: write_at_def)

section \<open>The gate\<close>

definition is_path_allowed :: "(path \<Rightarrow> path option) \<Rightarrow> path \<Rightarrow> path list \<Rightarrow> bool" where
  "is_path_allowed canonicalize requested shared_dirs = (case canonicalize requested of
       None \<Rightarrow> False
     | Some canonical \<Rightarrow> list_ex (\<lambda>dir. case canonicalize dir of None \<Rightarrow> False
         | Some canonical_dir \<Rightarrow> path_starts_with canonical canonical_dir) shared_dirs)"

definition classify_batch :: "(path \<Rightarrow> path option) \<Rightarrow> path list \<Rightarrow> path list \<Rightarrow> (path \<times> bool) list" where
  "classify_batch canonicalize paths shared_dirs = map (\<lambda>p. (p, is_path_allowed canonicalize p shared_dirs)) paths"

text \<open>
  The contract of an access gate, with its clients' facts: what is let through lies under a
  permitted root, nothing is let through without one, and permitting more never shuts a path out.
\<close>

locale access_gate =
  fixes allowed :: "'p \<Rightarrow> 'p list \<Rightarrow> bool"
    and target :: "'p \<Rightarrow> 'q option"
    and under :: "'q \<Rightarrow> 'q \<Rightarrow> bool"
  assumes allowed_iff: "allowed p roots \<longleftrightarrow>
      (\<exists>t. target p = Some t \<and> (\<exists>r \<in> set roots. \<exists>q. target r = Some q \<and> under t q))"
    and under_refl: "under t t"
    and under_trans: "under a b \<Longrightarrow> under b c \<Longrightarrow> under a c"
begin

lemma none_allowed: "\<not> allowed p []"
  by (simp add: allowed_iff)

lemma mono: "allowed p roots \<Longrightarrow> set roots \<subseteq> set roots' \<Longrightarrow> allowed p roots'"
  unfolding allowed_iff by blast

lemma append: "allowed p (roots @ roots') \<longleftrightarrow> allowed p roots \<or> allowed p roots'"
  unfolding allowed_iff by auto

lemma root_allowed: "target r = Some q \<Longrightarrow> r \<in> set roots \<Longrightarrow> allowed r roots"
  unfolding allowed_iff using under_refl by blast

lemma below_allowed:
  assumes "allowed p roots" "target p = Some t" "target p' = Some t'" "under t' t"
  shows "allowed p' roots"
  using assms under_trans unfolding allowed_iff by (metis option.inject)

lemma same_target: "target p = target p' \<Longrightarrow> allowed p roots = allowed p' roots"
  unfolding allowed_iff by simp

end

interpretation gate: access_gate "is_path_allowed canonicalize" canonicalize path_starts_with
  for canonicalize
proof unfold_locales
  fix p :: path and roots
  show "is_path_allowed canonicalize p roots \<longleftrightarrow>
      (\<exists>t. canonicalize p = Some t \<and> (\<exists>r \<in> set roots. \<exists>q. canonicalize r = Some q \<and> path_starts_with t q))"
    by (auto simp: is_path_allowed_def list_ex_iff split: option.splits)
qed (auto intro: path_starts_with_trans)


lemma gate_set: "set ds = set ds' \<Longrightarrow> is_path_allowed canonicalize p ds = is_path_allowed canonicalize p ds'"
  using gate.mono by blast

lemma gate_sample:
  "is_path_allowed Some ''/srv/share/a.txt'' [''/srv/share'']"
  "\<not> is_path_allowed Some ''/srv/shared-not/a.txt'' [''/srv/share'']"
  "\<not> is_path_allowed (\<lambda>p. if p = ''/srv/share/link'' then Some ''/etc/passwd'' else Some p) ''/srv/share/link'' [''/srv/share'']"
  by code_simp+

end
