(* ===== verification/Transfer_Queue.thy ===== *)
theory Transfer_Queue
  imports Prelude
begin

text \<open>
  The in-memory transfer queue of \<^verbatim>\<open>network/queue.rs\<close>: most recent entry first, one entry per
  transfer id, bounded history.  The contract the transfer code relies on (what a lookup by id
  returns after a push or an update) is the locale \<open>progress_log\<close>.
\<close>

section \<open>The code\<close>

datatype queue_status = Queued | InProgress | Complete | Failed (reason: string) | Partial

record queue_entry =
  qe_transfer_id :: string
  qe_filename :: string
  qe_remote_path :: string
  qe_peer_name :: string
  qe_status :: queue_status
  qe_bytes_received :: "64 word"
  qe_total :: "64 word"
  qe_started_at :: int

record transfer_queue =
  entries :: "queue_entry list"
  max_history :: nat

definition queue_new :: "nat \<Rightarrow> transfer_queue" where
  "queue_new n = \<lparr> entries = [], max_history = n \<rparr>"

text \<open>\<^verbatim>\<open>while len > max { pop_back }\<close>\<close>

function pop_back_while :: "nat \<Rightarrow> 'a list \<Rightarrow> 'a list" where
  "pop_back_while n es = (if n < length es then pop_back_while n (butlast es) else es)"
  by auto
termination
  by (relation "measure (\<lambda>(_, es). length es)") auto

declare pop_back_while.simps [simp del]

definition queue_push :: "queue_entry \<Rightarrow> transfer_queue \<Rightarrow> transfer_queue" where
  "queue_push e q = (if List.find (\<lambda>x. qe_transfer_id x = qe_transfer_id e) (entries q) \<noteq> None
     then q\<lparr>entries := update_first (\<lambda>x. qe_transfer_id x = qe_transfer_id e) (\<lambda>_. e) (entries q)\<rparr>
     else q\<lparr>entries := pop_back_while (max_history q) (e # entries q)\<rparr>)"

definition queue_update :: "string \<Rightarrow> queue_status \<Rightarrow> 64 word \<Rightarrow> transfer_queue \<Rightarrow> transfer_queue" where
  "queue_update tid st n q = q\<lparr>entries :=
     update_first (\<lambda>x. qe_transfer_id x = tid) (\<lambda>x. x\<lparr>qe_status := st, qe_bytes_received := n\<rparr>) (entries q)\<rparr>"

definition queue_list :: "transfer_queue \<Rightarrow> queue_entry list" where
  "queue_list q = entries q"

section \<open>Invariant\<close>

definition queue_ids :: "transfer_queue \<Rightarrow> string list" where
  "queue_ids q = map qe_transfer_id (entries q)"

definition queue_ok :: "transfer_queue \<Rightarrow> bool" where
  "queue_ok q \<longleftrightarrow> distinct (queue_ids q) \<and> length (entries q) \<le> max_history q"

lemma pop_back_while_take: "pop_back_while n es = take n es"
proof (induction n es rule: pop_back_while.induct)
  case (1 n es)
  then show ?case
    by (subst pop_back_while.simps) (auto simp: butlast_conv_take min_def)
qed

lemma ids_update [simp]: "queue_ids (queue_update t st n q) = queue_ids q"
  by (simp add: queue_ids_def queue_update_def map_update_first)

lemma ids_push:
  "queue_ids (queue_push e q) = (if qe_transfer_id e \<in> set (queue_ids q) then queue_ids q
     else take (max_history q) (qe_transfer_id e # queue_ids q))"
  by (auto simp: queue_ids_def queue_push_def find_None_all pop_back_while_take map_update_first
      take_map [symmetric] image_iff)

lemma max_history_ops [simp]:
  "max_history (queue_push e q) = max_history q" "max_history (queue_update t st n q) = max_history q"
  by (simp_all add: queue_push_def queue_update_def)

lemma length_entries_ids: "length (entries q) = length (queue_ids q)"
  by (simp add: queue_ids_def)

lemma queue_ok_new [invar_intros]: "queue_ok (queue_new n)"
  by (simp add: queue_ok_def queue_new_def queue_ids_def)

lemma queue_ok_push [invar_intros]: "queue_ok q \<Longrightarrow> queue_ok (queue_push e q)"
  by (auto simp: queue_ok_def length_entries_ids ids_push intro: distinct_take)

lemma queue_ok_update [invar_intros]: "queue_ok q \<Longrightarrow> queue_ok (queue_update t st n q)"
  by (simp add: queue_ok_def length_entries_ids)

section \<open>The contract: a log of progress by transfer id\<close>

definition queue_find :: "transfer_queue \<Rightarrow> string \<Rightarrow> queue_entry option" where
  "queue_find q t = List.find (\<lambda>x. qe_transfer_id x = t) (entries q)"

locale progress_log =
  fixes lookup_id :: "'q \<Rightarrow> 'i \<Rightarrow> 'e option"
    and add :: "'e \<Rightarrow> 'q \<Rightarrow> 'q"
    and step :: "'i \<Rightarrow> 's \<Rightarrow> 'q \<Rightarrow> 'q"
    and key :: "'e \<Rightarrow> 'i"
    and mark :: "'s \<Rightarrow> 'e \<Rightarrow> 'e"
    and good :: "'q \<Rightarrow> bool"
    and room :: "'q \<Rightarrow> bool"
  assumes add_good: "good q \<Longrightarrow> good (add e q)"
    and step_good: "good q \<Longrightarrow> good (step i s q)"
    and find_add: "good q \<Longrightarrow> room q \<Longrightarrow> lookup_id (add e q) (key e) = Some e"
    and find_step: "lookup_id (step i s q) j = (if j = i then map_option (mark s) (lookup_id q i) else lookup_id q j)"
    and mark_mark: "mark s (mark t e) = mark s e"
begin

text \<open>A transfer reports by a sequence of steps on its own id.\<close>

definition steps :: "'i \<Rightarrow> 's list \<Rightarrow> 'q \<Rightarrow> 'q" where
  "steps i ss q = foldl (\<lambda>q s. step i s q) q ss"

lemma steps_good: "good q \<Longrightarrow> good (steps i ss q)"
  unfolding steps_def by (induction ss arbitrary: q) (auto intro: step_good)

lemma find_steps_other: "j \<noteq> i \<Longrightarrow> lookup_id (steps i ss q) j = lookup_id q j"
  unfolding steps_def by (induction ss arbitrary: q) (simp_all add: find_step)

lemma find_steps_last:
  "lookup_id (steps i (ss @ [s]) q) i = map_option (mark s) (lookup_id q i)"
proof (induction ss arbitrary: q)
  case Nil
  then show ?case by (simp add: steps_def find_step)
next
  case (Cons t ss)
  then show ?case
    by (cases "lookup_id q i") (simp_all add: steps_def find_step mark_mark)
qed

lemma report:
  assumes "good q" "room q"
  shows "lookup_id (steps (key e) (ss @ [s]) (add e q)) (key e) = Some (mark s e)"
  using assms by (simp add: find_steps_last find_add)

end

definition mark_entry :: "queue_status \<times> 64 word \<Rightarrow> queue_entry \<Rightarrow> queue_entry" where
  "mark_entry s e = e\<lparr>qe_status := fst s, qe_bytes_received := snd s\<rparr>"

lemma queue_find_update:
  "queue_find (queue_update i st n q) j
     = (if j = i then map_option (mark_entry (st, n)) (queue_find q i) else queue_find q j)"
proof -
  have "(\<lambda>x. x\<lparr>qe_status := st, qe_bytes_received := n\<rparr>) = mark_entry (st, n)"
    by (intro ext) (simp add: mark_entry_def)
  then show ?thesis
    unfolding queue_find_def queue_update_def
    by (simp add: find_key_update_first [where k = qe_transfer_id] mark_entry_def)
qed

lemma find_update_first_const:
  "List.find p xs \<noteq> None \<Longrightarrow> p y \<Longrightarrow> List.find p (update_first p (\<lambda>_. y) xs) = Some y"
  by (induction xs) auto

lemma queue_find_push:
  assumes "0 < max_history q"
  shows "queue_find (queue_push e q) (qe_transfer_id e) = Some e"
proof (cases "queue_find q (qe_transfer_id e) = None")
  case True
  with assms show ?thesis
    by (cases "max_history q") (auto simp: queue_find_def queue_push_def pop_back_while_take)
next
  case False
  then show ?thesis
    by (auto simp: queue_find_def queue_push_def find_update_first_const)
qed

interpretation tq: progress_log queue_find queue_push "\<lambda>i s. queue_update i (fst s) (snd s)"
  qe_transfer_id mark_entry queue_ok "\<lambda>q. 0 < max_history q"
  by unfold_locales
    (auto simp: queue_find_update queue_find_push mark_entry_def intro: invar_intros)

section \<open>Runs\<close>

datatype queue_op = Push queue_entry | Update string queue_status "64 word"

fun queue_do :: "transfer_queue \<Rightarrow> queue_op \<Rightarrow> transfer_queue" where
  "queue_do q (Push e) = queue_push e q"
| "queue_do q (Update t st n) = queue_update t st n q"

definition queue_run :: "nat \<Rightarrow> queue_op list \<Rightarrow> transfer_queue" where
  "queue_run n ops = foldl queue_do (queue_new n) ops"

lemma queue_do_ok: "queue_ok q \<Longrightarrow> queue_ok (queue_do q x)" "max_history (queue_do q x) = max_history q"
  by (cases x; simp add: queue_ok_push queue_ok_update)+

lemma queue_fold_ok:
  "queue_ok q \<Longrightarrow> queue_ok (foldl queue_do q xs)" "max_history (foldl queue_do q xs) = max_history q"
  by (induction xs arbitrary: q) (simp_all add: queue_do_ok)

lemma queue_run_ok: "queue_ok (queue_run n xs) \<and> max_history (queue_run n xs) = n"
  by (simp add: queue_run_def queue_fold_ok queue_ok_new) (simp add: queue_new_def)

text \<open>
  In every state the queue can reach, transfer queue_ids are unique and the history bound holds; a
  push of a new id puts it in front and drops only the oldest queue_ids beyond the bound, a push of a
  known id and an update leave the order of the queue_ids alone.
\<close>

theorem queue_reachable:
  fixes n ops
  shows "distinct (queue_ids (queue_run n ops)) \<and> length (queue_list (queue_run n ops)) \<le> n
    \<and> queue_ids (queue_do (queue_run n ops) (Push e))
        = (if List.member (queue_ids (queue_run n ops)) (qe_transfer_id e) then queue_ids (queue_run n ops)
           else take n (qe_transfer_id e # queue_ids (queue_run n ops)))
    \<and> queue_ids (queue_do (queue_run n ops) (Update t st b)) = queue_ids (queue_run n ops)"
  using queue_run_ok [of n ops] by (simp add: queue_ok_def queue_list_def ids_push)

text \<open>
  What a transfer reports is what the list shows: after a push and any sequence of updates of
  that transfer in a reachable queue, its entry carries the last status and byte count reported
  and every other field of the push, and no other transfer's entry has changed since the push.
\<close>

theorem queue_reports_last:
  assumes "0 < n"
  shows "queue_find (foldl (\<lambda>q (st, b). queue_update (qe_transfer_id e) st b q)
             (queue_push e (queue_run n ops)) (us @ [(st, b)])) (qe_transfer_id e)
           = Some (e\<lparr>qe_status := st, qe_bytes_received := b\<rparr>)
       \<and> (t \<noteq> qe_transfer_id e \<longrightarrow>
            queue_find (foldl (\<lambda>q (st, b). queue_update (qe_transfer_id e) st b q)
               (queue_push e (queue_run n ops)) us) t
              = queue_find (queue_push e (queue_run n ops)) t)"
proof -
  have "tq.steps (qe_transfer_id e) us q = foldl (\<lambda>q (st, b). queue_update (qe_transfer_id e) st b q) q us" for us q
    by (simp add: tq.steps_def case_prod_beta')
  then show ?thesis
    using tq.report [of "queue_run n ops" e us "(st, b)"] tq.find_steps_other [of t "qe_transfer_id e" us]
      queue_run_ok [of n ops] assms
    by (simp add: mark_entry_def del: foldl_append)
qed

definition sample_entry :: queue_entry where
  "sample_entry = \<lparr> qe_transfer_id = ''a'', qe_filename = ''f'', qe_remote_path = ''/f'', qe_peer_name = ''p'',
     qe_status = Queued, qe_bytes_received = 0, qe_total = 9, qe_started_at = 0 \<rparr>"

lemma queue_reports_last_witness:
  "map_option qe_status (queue_find (foldl (\<lambda>q (st, b). queue_update ''a'' st b q)
     (queue_push sample_entry (queue_run 2 [Push (sample_entry\<lparr>qe_transfer_id := ''b''\<rparr>)]))
     ([(InProgress, 4)] @ [(Complete, 9)])) ''a'') = Some Complete"
  using queue_reports_last [of 2 sample_entry "[Push (sample_entry\<lparr>qe_transfer_id := ''b''\<rparr>)]" "[(InProgress, 4)]" Complete 9]
  by (simp add: sample_entry_def)

end
