(* ===== verification/Transfer_Base.thy ===== *)
theory Transfer_Base
  imports Session File_System Transfer_Queue
begin

text \<open>
  What both ends of a file transfer share (\<^verbatim>\<open>network/transfer.rs\<close>, \<^verbatim>\<open>notify.rs\<close>,
  \<^verbatim>\<open>ipc/webhook.rs\<close>): messages, errors, the state (connection, database, files, queue, clock, the
  events shown to the user), encrypted messages over the session, and the loop that receives a
  file's chunks.
\<close>

section \<open>Messages and errors\<close>

definition CHUNK_SIZE :: nat where "CHUNK_SIZE = 65536"

definition RETRY_DELAYS_SECS :: "nat list" where "RETRY_DELAYS_SECS = [1, 2, 4, 8, 16, 30]"

datatype transfer_msg =
    TransferRequest path "64 word"
  | BatchTransferRequest "path list"
  | TransferStart string "64 word" "64 word"
  | TransferComplete string
  | FileSkipped path string
  | BatchComplete "64 word" "64 word"
  | PushStart string "64 word" string
  | PushAccept
  | ErrorMsg string

datatype transfer_error = XIo | XJson | AccessDenied | InvalidOffset | Checksum | XNotTrusted
  | XDb db_error | XSession session_error | Protocol string

datatype app_event =
    EvProgress string string "64 word" "64 word" string
  | EvComplete string string path string
  | EvFailed string string string
  | EvRetry string nat nat string
  | EvBatch nat nat string
  | Notified string string
  | ClipDelivered string string bytes

text \<open>JSON of the messages, their \<^verbatim>\<open>Debug\<close> text and the \<^verbatim>\<open>Display\<close> text of errors.\<close>

record transfer_json = handshake_json +
  j_msg :: "transfer_msg \<Rightarrow> bytes"
  j_unmsg :: "bytes \<Rightarrow> transfer_msg option"
  j_debug :: "transfer_msg \<Rightarrow> string"
  j_errtext :: "transfer_error \<Rightarrow> string"

definition handshake_part :: "transfer_json \<Rightarrow> handshake_json" where
  "handshake_part j = handshake_json.truncate j"

section \<open>State\<close>

text \<open>\<open>x_hist\<close> is the \<^verbatim>\<open>&mut Option<i64>\<close> a transfer shares with its retries, \<open>x_dials\<close> the outcomes of
  the connections to come, \<open>x_sleeps\<close> the pauses made, \<open>x_downloads\<close> the platform's download
  directory.\<close>

record xfer = world +
  x_fs :: fs
  x_queue :: transfer_queue
  x_events :: "app_event list"
  x_clock :: int
  x_dials :: "conn option list"
  x_sleeps :: "nat list"
  x_downloads :: "path option"
  x_hist :: "int option"

type_synonym 'a x_act = "(xfer, transfer_error, 'a) act"

definition on_session :: "(unit xfer_ext, 'a) net_act \<Rightarrow> 'a x_act" where
  "on_session m = act_map_err XSession m"

definition x_db :: "'a db_act \<Rightarrow> 'a x_act" where
  "x_db m w = (case m (w_db w) of (r, d) \<Rightarrow> (map_err XDb r, w\<lparr>w_db := d\<rparr>))"

definition on_fs :: "'a fs_act \<Rightarrow> 'a x_act" where
  "on_fs m w = (case m (x_fs w) of (r, s) \<Rightarrow> (map_err (\<lambda>_. XIo) r, w\<lparr>x_fs := s\<rparr>))"

definition on_queue :: "(transfer_queue \<Rightarrow> transfer_queue) \<Rightarrow> unit x_act" where
  "on_queue f = act_mod (\<lambda>w. w\<lparr>x_queue := f (x_queue w)\<rparr>)"

definition emit :: "app_event \<Rightarrow> unit x_act" where
  "emit e = act_mod (\<lambda>w. w\<lparr>x_events := x_events w @ [e]\<rparr>)"

definition x_draw :: "nat x_act" where
  "x_draw w = (Inr (w_seed w), w\<lparr>w_seed := w_seed w + 1\<rparr>)"

text \<open>\<^verbatim>\<open>TcpStream::connect\<close>: the outcomes are scheduled; the new connection is the current one.\<close>

definition connect :: "unit x_act" where
  "connect w = (case x_dials w of
      Some c # ds \<Rightarrow> (Inr (), w\<lparr>w_conn := c, x_dials := ds\<rparr>)
    | None # ds \<Rightarrow> (Inl XIo, w\<lparr>x_dials := ds\<rparr>)
    | [] \<Rightarrow> (Inl XIo, w))"

section \<open>Notifications and the clip webhook\<close>

text \<open>\<^verbatim>\<open>notify::enabled\<close> swallows a database error.\<close>

definition notify_enabled :: "bool x_act" where
  "notify_enabled w = (case x_db (get_setting ''notifications_enabled'') w of
     (r, w') \<Rightarrow> (Inr ((case r of Inr (Some v) \<Rightarrow> v \<noteq> ''false'' | _ \<Rightarrow> True)), w'))"

definition notify_transfer_complete :: "string \<Rightarrow> string \<Rightarrow> unit x_act" where
  "notify_transfer_complete filename peer = emit (Notified ''Transfer complete'' (filename @ '' received from '' @ peer))"

definition is_synaptclip_clip :: "ext \<Rightarrow> path \<Rightarrow> bool" where
  "is_synaptclip_clip x p = (let stem = (case file_stem p of Some s \<Rightarrow> s | None \<Rightarrow> []) in
     path_extension p = Some ''txt'' \<and> x_uuid_parse x stem \<noteq> None)"

section \<open>Encrypted messages\<close>

definition send_bytes :: "ext \<Rightarrow> bytes \<Rightarrow> bytes \<Rightarrow> unit x_act" where
  "send_bytes x key b = act_bind x_draw (\<lambda>seed. on_session (on_conn (write_enc x seed key b)))"

definition send_msg :: "ext \<Rightarrow> transfer_json \<Rightarrow> bytes \<Rightarrow> transfer_msg \<Rightarrow> unit x_act" where
  "send_msg x j key m = send_bytes x key (j_msg j m)"

definition recv_bytes :: "ext \<Rightarrow> bytes \<Rightarrow> bytes x_act" where
  "recv_bytes x key = on_session (on_conn (read_enc x key))"

definition recv_msg :: "ext \<Rightarrow> transfer_json \<Rightarrow> bytes \<Rightarrow> transfer_msg x_act" where
  "recv_msg x j key = act_bind (recv_bytes x key) (\<lambda>b. act_lift (ok_or XJson (j_unmsg j b)))"

text \<open>\<^verbatim>\<open>sha256_of_file\<close>: the chunks fed to the hasher are the file.\<close>

definition sha256_of_file :: "ext \<Rightarrow> path \<Rightarrow> string x_act" where
  "sha256_of_file x p = act_then (on_fs (file_open p))
     (act_bind (on_fs (file_read p)) (\<lambda>b. act_ret (to_hex (x_sha256 x b))))"

definition file_name_or :: "string \<Rightarrow> path \<Rightarrow> string" where
  "file_name_or d p = (case file_name p of Some n \<Rightarrow> n | None \<Rightarrow> d)"

definition x_now :: "int x_act" where
  "x_now = act_get x_clock"

section \<open>Receiving chunks\<close>

text \<open>
  One turn of \<^verbatim>\<open>while bytes_received < size\<close>: a chunk is read, written at the file position, and
  recorded in the history row, the queue and the events.  \<open>None\<close> is the empty chunk that ends the
  loop.  The file position is \<open>start\<close> plus the bytes written.
\<close>

record recv_target =
  rt_hist :: int
  rt_tid :: string
  rt_path :: path
  rt_name :: string
  rt_peer :: string
  rt_size :: "64 word"

definition recv_chunk :: "ext \<Rightarrow> bytes \<Rightarrow> recv_target \<Rightarrow> nat \<Rightarrow> 64 word \<Rightarrow> (nat \<times> 64 word) option x_act" where
  "recv_chunk x key rt pos n =
     act_bind (recv_bytes x key) (\<lambda>chunk.
     if chunk = [] then act_ret None
     else act_then (on_fs (file_write (rt_path rt) pos chunk))
       (let n' = n + word_of_nat (length chunk) in
        act_then (x_db (update_transfer_status (rt_hist rt) n' ''in_progress'' None))
       (act_then (on_queue (queue_update (rt_tid rt) InProgress n'))
       (act_then (emit (EvProgress (rt_tid rt) (rt_name rt) n' (rt_size rt) (rt_peer rt)))
         (act_ret (Some (pos + length chunk, n')))))))"

abbreviation pending :: "('z world_scheme) \<Rightarrow> nat" where
  "pending w \<equiv> length (c_in (w_conn w))"

lemma read_plain_consumes: "read_plain c = (Inr b, c') \<Longrightarrow> length (c_in c') < length (c_in c)"
  by (auto simp: read_plain_def read_exact_def act_simps Let_def split: if_splits)

lemma on_session_run [act_simps]: "on_session m w = (case m w of (r, t) \<Rightarrow> (map_err XSession r, t))"
  by (simp add: on_session_def act_simps)

lemma x_db_run [act_simps]: "x_db m w = (case m (w_db w) of (r, d) \<Rightarrow> (map_err XDb r, w\<lparr>w_db := d\<rparr>))"
  by (simp add: x_db_def)

lemma on_fs_run [act_simps]: "on_fs m w = (case m (x_fs w) of (r, s) \<Rightarrow> (map_err (\<lambda>_. XIo) r, w\<lparr>x_fs := s\<rparr>))"
  by (simp add: on_fs_def)

lemma on_queue_run [act_simps]: "on_queue f w = (Inr (), w\<lparr>x_queue := f (x_queue w)\<rparr>)"
  by (simp add: on_queue_def act_simps)

lemma emit_run [act_simps]: "emit e w = (Inr (), w\<lparr>x_events := x_events w @ [e]\<rparr>)"
  by (simp add: emit_def act_simps)

lemma x_draw_run [act_simps]: "x_draw w = (Inr (w_seed w), w\<lparr>w_seed := w_seed w + 1\<rparr>)"
  by (simp add: x_draw_def)

lemma x_now_run [act_simps]: "x_now w = (Inr (x_clock w), w)"
  by (simp add: x_now_def act_simps)

lemma recv_bytes_consumes: "recv_bytes x key w = (Inr b, w') \<Longrightarrow> pending w' < pending w"
  by (auto simp: recv_bytes_def read_enc_def act_simps dest!: read_plain_consumes split: prod.splits sum.splits)

lemma recv_chunk_consumes:
  assumes "recv_chunk x key rt pos n w = (Inr (Some r), w')"
  shows "pending w' < pending w"
proof -
  from assms obtain chunk v where v: "recv_bytes x key w = (Inr chunk, v)" and c: "chunk \<noteq> []"
    by (auto simp: recv_chunk_def act_ret_def elim!: act_bind_Inr split: if_splits)
  from assms v c have "w_conn w' = w_conn v"
    by (auto simp: recv_chunk_def act_simps Let_def split: prod.splits sum.splits)
  with recv_bytes_consumes [OF v] show ?thesis by simp
qed

function recv_loop :: "ext \<Rightarrow> bytes \<Rightarrow> recv_target \<Rightarrow> nat \<Rightarrow> 64 word \<Rightarrow> (64 word) x_act" where
  "recv_loop x key rt pos n w = (if n < rt_size rt
     then case recv_chunk x key rt pos n w of
         (Inl e, w') \<Rightarrow> (Inl e, w')
       | (Inr None, w') \<Rightarrow> (Inr n, w')
       | (Inr (Some (pos', n')), w') \<Rightarrow> recv_loop x key rt pos' n' w'
     else (Inr n, w))"
  by auto
termination
  by (relation "measure (\<lambda>(x, key, rt, pos, n, w). pending w)") (auto dest: recv_chunk_consumes [OF sym])

declare recv_loop.simps [simp del]

end
