(* ===== verification/Transfer_Server.thy ===== *)
theory Transfer_Server
  imports Transfer_Base
begin

text \<open>
  The serving side of \<^verbatim>\<open>network/transfer.rs\<close>: one file, a batch of files, and a pushed file, on a
  connection whose handshake is done, and the dispatch after the handshake.
\<close>

section \<open>Serving files\<close>

text \<open>The read loop of \<^verbatim>\<open>serve_one_file\<close> and \<^verbatim>\<open>send_push_payload\<close> reads \<open>CHUNK_SIZE\<close> bytes at a time.\<close>

fun send_chunks :: "ext \<Rightarrow> bytes \<Rightarrow> bytes list \<Rightarrow> unit x_act" where
  "send_chunks x key [] = act_ret ()"
| "send_chunks x key (c # cs) = act_then (send_bytes x key c) (send_chunks x key cs)"

definition access_denied :: "ext \<Rightarrow> transfer_json \<Rightarrow> bytes \<Rightarrow> unit x_act" where
  "access_denied x j key = send_msg x j key (ErrorMsg ''access_denied'')"

definition serve_one_file :: "ext \<Rightarrow> transfer_json \<Rightarrow> bytes \<Rightarrow> path \<Rightarrow> 64 word \<Rightarrow> unit x_act" where
  "serve_one_file x j key p resume_offset =
     act_bind (x_db get_shared_dirs) (\<lambda>shared_dirs.
     act_bind (act_get (\<lambda>w. is_path_allowed (fs_canon (x_fs w)) p shared_dirs)) (\<lambda>allowed.
     if \<not> allowed then access_denied x j key
     else act_bind (act_try (on_fs (file_open p))) (\<lambda>opened.
     if \<not> is_ok opened then access_denied x j key
     else act_bind (on_fs (file_metadata p)) (\<lambda>meta.
     let sz = word_of_nat (node_len meta) in
     if sz < resume_offset then send_msg x j key (ErrorMsg ''invalid_offset'')
     else act_bind (sha256_of_file x p) (\<lambda>checksum.
     act_then (send_msg x j key (TransferStart (file_name_or ''file'' p) sz resume_offset))
     (act_bind (on_fs (file_read p)) (\<lambda>content.
     act_then (send_chunks x key (chunks_of CHUNK_SIZE (drop (unat resume_offset) content)))
       (send_msg x j key (TransferComplete checksum)))))))))"

fun serve_each :: "ext \<Rightarrow> transfer_json \<Rightarrow> bytes \<Rightarrow> (path \<times> bool) list \<Rightarrow> 64 word \<Rightarrow> (64 word) x_act" where
  "serve_each x j key [] skipped = act_ret skipped"
| "serve_each x j key ((p, allowed) # ps) skipped =
     (if \<not> allowed then act_then (send_msg x j key (FileSkipped p ''access_denied'')) (serve_each x j key ps (skipped + 1))
      else act_then (serve_one_file x j key p 0) (serve_each x j key ps skipped))"

definition serve_batch :: "ext \<Rightarrow> transfer_json \<Rightarrow> bytes \<Rightarrow> path list \<Rightarrow> unit x_act" where
  "serve_batch x j key paths =
     act_bind (x_db get_shared_dirs) (\<lambda>shared_dirs.
     act_bind (act_get (\<lambda>w. classify_batch (fs_canon (x_fs w)) paths shared_dirs)) (\<lambda>classified.
     act_bind (serve_each x j key classified 0) (\<lambda>skipped.
       send_msg x j key (BatchComplete (word_of_nat (length paths)) skipped))))"

section \<open>Receiving a pushed file\<close>

text \<open>\<^verbatim>\<open>Path::new(&filename).file_name()\<close>\<close>

definition safe_name :: "string \<Rightarrow> string" where
  "safe_name filename = file_name_or ''file'' filename"

definition push_dir :: "path option \<Rightarrow> string option \<Rightarrow> path" where
  "push_dir downloads setting = (case setting of
       Some d \<Rightarrow> if d \<noteq> [] then d
         else path_join (case downloads of None \<Rightarrow> ''.'' | Some p \<Rightarrow> p) ''Synapt''
     | None \<Rightarrow> path_join (case downloads of None \<Rightarrow> ''.'' | Some p \<Rightarrow> p) ''Synapt'')"

definition peer_name_of :: "trusted_peer_row list \<Rightarrow> string \<Rightarrow> string" where
  "peer_name_of peers i = (case List.find (\<lambda>p. tp_device_id p = i) peers of None \<Rightarrow> i | Some p \<Rightarrow> tp_device_name p)"

text \<open>The end of a push and of a request: verified, or removed and marked failed.\<close>

definition finish_failed :: "recv_target \<Rightarrow> int \<Rightarrow> 'a x_act" where
  "finish_failed rt now =
     act_then (act_try (on_fs (remove_file (rt_path rt))))
    (act_then (x_db (update_transfer_status (rt_hist rt) 0 ''failed'' (Some now)))
    (act_then (on_queue (queue_update (rt_tid rt) (Failed ''checksum_mismatch'') 0))
    (act_then (emit (EvFailed (rt_tid rt) (rt_name rt) ''checksum_mismatch''))
      (act_err Checksum))))"

definition finish_complete :: "recv_target \<Rightarrow> 64 word \<Rightarrow> int \<Rightarrow> unit x_act" where
  "finish_complete rt n now =
     act_then (x_db (update_transfer_status (rt_hist rt) n ''complete'' (Some now)))
    (act_then (on_queue (queue_update (rt_tid rt) Complete n))
    (act_then (emit (EvComplete (rt_tid rt) (rt_name rt) (rt_path rt) (rt_peer rt)))
    (act_bind notify_enabled (\<lambda>on.
      if on then notify_transfer_complete (rt_name rt) (rt_peer rt) else act_ret ()))))"

text \<open>The clip is delivered by a spawned task whose outcome is ignored; \<^verbatim>\<open>read_to_string\<close> fails on
  bytes that are not UTF-8, which the library decides (\<open>valid_utf8\<close>).\<close>

definition forward_clip :: "ext \<Rightarrow> (bytes \<Rightarrow> bool) \<Rightarrow> string \<Rightarrow> recv_target \<Rightarrow> unit x_act" where
  "forward_clip x valid_utf8 peer_id rt = (if is_synaptclip_clip x (rt_path rt)
     then act_bind (act_try (on_fs (file_read (rt_path rt)))) (\<lambda>r. case r of
         Inr content \<Rightarrow> if valid_utf8 content then emit (ClipDelivered peer_id (rt_peer rt) content) else act_ret ()
       | Inl _ \<Rightarrow> act_ret ())
     else act_ret ())"

text \<open>The body of \<^verbatim>\<open>recv_pushed_file\<close> from the directory on.\<close>

definition store_push :: "ext \<Rightarrow> transfer_json \<Rightarrow> (bytes \<Rightarrow> bool) \<Rightarrow> bytes \<Rightarrow> string \<Rightarrow> string \<Rightarrow> 64 word \<Rightarrow> string
    \<Rightarrow> string \<Rightarrow> path \<Rightarrow> unit x_act" where
  "store_push x j valid_utf8 key peer_id filename sz checksum peer_name dir =
     (let local_path = path_join dir (safe_name filename) in
     act_then (on_fs (create_dir_all dir))
     (act_bind x_draw (\<lambda>seed.
     act_bind x_now (\<lambda>started_at.
     let transfer_id = x_uuid_new x seed in
     act_bind (x_db (insert_transfer \<lparr> th_peer_device_id = peer_id, th_filename = safe_name filename,
         th_remote_path = filename, th_local_path = local_path, th_size = Some (sint sz), th_bytes_received = 0,
         th_status = ''in_progress'', th_started_at = started_at, th_completed_at = None,
         th_transfer_id = Some transfer_id \<rparr>)) (\<lambda>hist_id.
     let rt = \<lparr> rt_hist = hist_id, rt_tid = transfer_id, rt_path = local_path, rt_name = safe_name filename,
         rt_peer = peer_name, rt_size = sz \<rparr> in
     act_then (on_queue (queue_push \<lparr> qe_transfer_id = transfer_id, qe_filename = safe_name filename,
         qe_remote_path = filename, qe_peer_name = peer_name, qe_status = InProgress, qe_bytes_received = 0,
         qe_total = sz, qe_started_at = started_at \<rparr>))
     (act_then (send_msg x j key PushAccept)
     (act_then (on_fs (file_open_write True local_path))
     (act_bind (recv_loop x key rt 0 0) (\<lambda>bytes_received.
     act_bind (sha256_of_file x local_path) (\<lambda>actual.
     act_bind x_now (\<lambda>now.
     if actual = checksum
     then act_then (finish_complete rt bytes_received now) (forward_clip x valid_utf8 peer_id rt)
     else finish_failed rt now)))))))))))"

definition recv_pushed_file :: "ext \<Rightarrow> transfer_json \<Rightarrow> (bytes \<Rightarrow> bool) \<Rightarrow> bytes \<Rightarrow> string \<Rightarrow> string \<Rightarrow> 64 word \<Rightarrow> string \<Rightarrow> unit x_act" where
  "recv_pushed_file x j valid_utf8 key peer_id filename sz checksum =
     act_bind (x_db (get_setting ''download_dir'')) (\<lambda>setting.
     act_bind (act_get x_downloads) (\<lambda>downloads.
     act_bind (x_db get_trusted_peers) (\<lambda>peers.
     let peer_name = peer_name_of peers peer_id in
     store_push x j valid_utf8 key peer_id filename sz checksum peer_name
       (path_join (push_dir downloads setting) peer_name))))"

section \<open>Dispatch\<close>

definition handle_server_conn :: "ext \<Rightarrow> transfer_json \<Rightarrow> (bytes \<Rightarrow> bool) \<Rightarrow> local_identity \<Rightarrow> unit x_act" where
  "handle_server_conn x j valid_utf8 identity =
     act_bind (on_session (session_handshake_server x (handshake_part j) identity)) (\<lambda>(key, peer_device_id).
     act_bind (recv_msg x j key) (\<lambda>m. case m of
         TransferRequest p resume_offset \<Rightarrow> serve_one_file x j key p resume_offset
       | BatchTransferRequest paths \<Rightarrow> serve_batch x j key paths
       | PushStart filename sz checksum \<Rightarrow> recv_pushed_file x j valid_utf8 key peer_device_id filename sz checksum
       | other \<Rightarrow> act_err (Protocol (''unexpected '' @ j_debug j other))))"

end
