(* ===== verification/Transfer_Client.thy ===== *)
theory Transfer_Client
  imports Transfer_Server
begin

text \<open>
  The requesting side of \<^verbatim>\<open>network/transfer.rs\<close>: one request, the retry loop with its backoff, the
  batch, and pushing files to a peer.
\<close>

section \<open>Requesting a file\<close>

definition peer_key :: "string \<Rightarrow> string x_act" where
  "peer_key peer_id = act_bind (x_db get_trusted_peers) (\<lambda>peers.
     act_lift (map_err (\<lambda>_. XNotTrusted) (ok_or () (map_option tp_pubkey_b64
       (List.find (\<lambda>p. tp_device_id p = peer_id) peers)))))"

definition start_reply :: "transfer_json \<Rightarrow> transfer_msg \<Rightarrow> (transfer_error, string \<times> 64 word \<times> 64 word) res" where
  "start_reply j m = (case m of
       TransferStart filename sz resume_offset \<Rightarrow> Inr (filename, sz, resume_offset)
     | ErrorMsg ec \<Rightarrow> Inl (if ec = ''access_denied'' then AccessDenied
         else if ec = ''invalid_offset'' then InvalidOffset else Protocol ec)
     | other \<Rightarrow> Inl (Protocol (''unexpected '' @ j_debug j other)))"

definition complete_reply :: "transfer_json \<Rightarrow> transfer_msg \<Rightarrow> (transfer_error, string) res" where
  "complete_reply j m = (case m of TransferComplete c \<Rightarrow> Inr c
     | other \<Rightarrow> Inl (Protocol (''unexpected '' @ j_debug j other)))"

text \<open>The history row: reused on a retry, otherwise inserted and handed back through \<open>x_hist\<close>.\<close>

definition history_row :: "string \<Rightarrow> string \<Rightarrow> string \<Rightarrow> string \<Rightarrow> path \<Rightarrow> 64 word \<Rightarrow> 64 word \<Rightarrow> int x_act" where
  "history_row tid peer_id filename remote_path local_path sz offset =
     act_bind (act_get x_hist) (\<lambda>h. case h of
       Some i \<Rightarrow> act_then (x_db (set_transfer_status i ''in_progress'')) (act_ret i)
     | None \<Rightarrow> act_bind x_now (\<lambda>now.
         act_bind (x_db (insert_transfer \<lparr> th_peer_device_id = peer_id, th_filename = filename,
           th_remote_path = remote_path, th_local_path = local_path, th_size = Some (sint sz),
           th_bytes_received = sint offset, th_status = ''in_progress'', th_started_at = now,
           th_completed_at = None, th_transfer_id = Some tid \<rparr>)) (\<lambda>i.
         act_then (act_mod (\<lambda>w. w\<lparr>x_hist := Some i\<rparr>)) (act_ret i))))"

text \<open>From the reply \<^verbatim>\<open>TransferStart\<close> on.\<close>

definition receive_file :: "ext \<Rightarrow> transfer_json \<Rightarrow> bytes \<Rightarrow> string \<Rightarrow> string \<Rightarrow> string \<Rightarrow> path \<Rightarrow> string
    \<Rightarrow> int \<Rightarrow> string \<times> 64 word \<times> 64 word \<Rightarrow> path x_act" where
  "receive_file x j key tid peer_id remote_path download_dir peer_name started_at reply =
     (case reply of (filename, sz, server_offset) \<Rightarrow>
     let dir = path_join download_dir peer_name; local_path = path_join dir filename in
     act_then (on_fs (create_dir_all dir))
     (act_then (on_fs (file_open_write (server_offset = 0) local_path))
     (act_bind (history_row tid peer_id filename remote_path local_path sz server_offset) (\<lambda>i.
     let rt = \<lparr> rt_hist = i, rt_tid = tid, rt_path = local_path, rt_name = filename, rt_peer = peer_name, rt_size = sz \<rparr> in
     act_then (on_queue (queue_push \<lparr> qe_transfer_id = tid, qe_filename = filename, qe_remote_path = remote_path,
         qe_peer_name = peer_name, qe_status = InProgress, qe_bytes_received = server_offset, qe_total = sz,
         qe_started_at = started_at \<rparr>))
     (act_bind (recv_loop x key rt (unat server_offset) server_offset) (\<lambda>bytes_received.
     act_bind (recv_msg x j key) (\<lambda>m.
     act_bind (act_lift (complete_reply j m)) (\<lambda>checksum.
     act_bind (sha256_of_file x local_path) (\<lambda>actual.
     act_bind x_now (\<lambda>now.
     if actual = checksum then act_then (finish_complete rt bytes_received now) (act_ret local_path)
     else finish_failed rt now))))))))))"

text \<open>From the request on: the server's reply and the file.\<close>

definition await_file :: "ext \<Rightarrow> transfer_json \<Rightarrow> bytes \<Rightarrow> string \<Rightarrow> string \<Rightarrow> string \<Rightarrow> path \<Rightarrow> string
    \<Rightarrow> int \<Rightarrow> path x_act" where
  "await_file x j key tid peer_id remote_path download_dir peer_name started_at =
     act_bind (recv_msg x j key) (\<lambda>m.
     act_bind (act_lift (start_reply j m)) (\<lambda>reply.
       receive_file x j key tid peer_id remote_path download_dir peer_name started_at reply))"

definition request_transfer :: "ext \<Rightarrow> transfer_json \<Rightarrow> local_identity \<Rightarrow> string \<Rightarrow> string \<Rightarrow> string \<Rightarrow> 64 word
    \<Rightarrow> path \<Rightarrow> string \<Rightarrow> path x_act" where
  "request_transfer x j identity tid peer_id remote_path resume_offset download_dir peer_name =
     act_bind x_now (\<lambda>started_at.
     act_then (on_queue (queue_push \<lparr> qe_transfer_id = tid, qe_filename = file_name_or ''file'' remote_path,
         qe_remote_path = remote_path, qe_peer_name = peer_name, qe_status = Queued,
         qe_bytes_received = resume_offset, qe_total = 0, qe_started_at = started_at \<rparr>))
     (act_then connect
     (act_bind (peer_key peer_id) (\<lambda>peer_pubkey.
     act_bind (on_session (session_handshake_client x (handshake_part j) (id_device_id identity) identity peer_pubkey)) (\<lambda>key.
     act_then (send_msg x j key (TransferRequest remote_path resume_offset))
       (await_file x j key tid peer_id remote_path download_dir peer_name started_at))))))"

section \<open>Retrying\<close>

text \<open>\<^verbatim>\<open>bytes.max(0) as u64\<close>\<close>

definition i64_to_u64 :: "int \<Rightarrow> 64 word" where
  "i64_to_u64 i = word_of_int (max i 0)"

definition sleep :: "nat \<Rightarrow> unit x_act" where
  "sleep n = act_mod (\<lambda>w. w\<lparr>x_sleeps := x_sleeps w @ [n]\<rparr>)"

definition bytes_of_row :: "int option \<Rightarrow> (64 word) option x_act" where
  "bytes_of_row h = (case h of None \<Rightarrow> act_ret None
     | Some i \<Rightarrow> act_bind (act_try (x_db (get_transfer_bytes i))) (\<lambda>r. act_ret
         (case r of Inr (Some b) \<Rightarrow> Some (i64_to_u64 b) | _ \<Rightarrow> None)))"

text \<open>After a failed attempt that is not the last: mark the row partial, pause, reread the progress.\<close>

definition back_off :: "transfer_json \<Rightarrow> string \<Rightarrow> 64 word \<Rightarrow> nat \<Rightarrow> nat \<Rightarrow> transfer_error \<Rightarrow> (64 word) x_act" where
  "back_off j tid resume_offset attempt delay e =
     act_bind (act_get x_hist) (\<lambda>h.
     act_then (case h of None \<Rightarrow> act_ret () | Some i \<Rightarrow> act_ignore (x_db (set_transfer_status i ''partial'')))
     (act_then (on_queue (queue_update tid Partial resume_offset))
     (act_then (emit (EvRetry tid (attempt + 1) delay (j_errtext j e)))
     (act_then (sleep delay)
     (act_bind (bytes_of_row h) (\<lambda>b. act_ret (case b of None \<Rightarrow> resume_offset | Some n \<Rightarrow> n)))))))"

text \<open>After the last attempt.\<close>

definition give_up :: "transfer_json \<Rightarrow> string \<Rightarrow> transfer_error \<Rightarrow> path x_act" where
  "give_up j tid e =
     act_bind (act_get x_hist) (\<lambda>h.
     act_bind (case h of None \<Rightarrow> act_ret 0
       | Some i \<Rightarrow> act_bind (bytes_of_row h) (\<lambda>b. let n = (case b of None \<Rightarrow> 0 | Some n \<Rightarrow> n) in
           act_bind x_now (\<lambda>now.
           act_then (act_ignore (x_db (update_transfer_status i n ''failed'' (Some now)))) (act_ret n)))) (\<lambda>n.
     act_then (on_queue (queue_update tid (Failed (j_errtext j e)) n)) (act_err e)))"

text \<open>The loop: \<open>delays\<close> are the entries of \<open>RETRY_DELAYS_SECS\<close> from \<open>attempt\<close> on; \<open>try_once\<close> is the
  request with its resume offset.\<close>

fun retry_loop :: "transfer_json \<Rightarrow> string \<Rightarrow> (64 word \<Rightarrow> path x_act) \<Rightarrow> nat list \<Rightarrow> nat \<Rightarrow> 64 word \<Rightarrow> path x_act" where
  "retry_loop j tid try_once [] attempt resume_offset w = (case try_once resume_offset w of
       (Inr p, w') \<Rightarrow> (Inr p, w')
     | (Inl e, w') \<Rightarrow> give_up j tid e w')"
| "retry_loop j tid try_once (delay # delays) attempt resume_offset w = (case try_once resume_offset w of
       (Inr p, w') \<Rightarrow> (Inr p, w')
     | (Inl e, w') \<Rightarrow> (case back_off j tid resume_offset attempt delay e w' of
           (Inl e', w'') \<Rightarrow> (Inl e', w'')
         | (Inr offset', w'') \<Rightarrow> retry_loop j tid try_once delays (attempt + 1) offset' w''))"

definition request_transfer_with_retry :: "ext \<Rightarrow> transfer_json \<Rightarrow> local_identity \<Rightarrow> string \<Rightarrow> string \<Rightarrow> path \<Rightarrow> string \<Rightarrow> path x_act" where
  "request_transfer_with_retry x j identity peer_id remote_path download_dir peer_name =
     act_bind (x_db (find_partial_transfer peer_id remote_path)) (\<lambda>found.
     act_bind x_draw (\<lambda>seed.
     case (case found of
         Some (i, t, b) \<Rightarrow> (case t of Some s \<Rightarrow> s | None \<Rightarrow> x_uuid_new x seed, Some i, i64_to_u64 b)
       | None \<Rightarrow> (x_uuid_new x seed, None, 0)) of (tid, h, offset) \<Rightarrow>
     act_then (act_mod (\<lambda>w. w\<lparr>x_hist := h\<rparr>))
       (retry_loop j tid (\<lambda>off. request_transfer x j identity tid peer_id remote_path off download_dir peer_name)
          RETRY_DELAYS_SECS 0 offset)))"

fun request_each :: "ext \<Rightarrow> transfer_json \<Rightarrow> local_identity \<Rightarrow> string \<Rightarrow> path \<Rightarrow> string \<Rightarrow> path list
    \<Rightarrow> nat \<Rightarrow> path list \<Rightarrow> (nat \<times> path list) x_act" where
  "request_each x j identity peer_id download_dir peer_name [] skipped got = act_ret (skipped, got)"
| "request_each x j identity peer_id download_dir peer_name (p # ps) skipped got =
     act_bind (act_try (request_transfer_with_retry x j identity peer_id p download_dir peer_name)) (\<lambda>r. case r of
       Inr q \<Rightarrow> request_each x j identity peer_id download_dir peer_name ps skipped (got @ [q])
     | Inl _ \<Rightarrow> request_each x j identity peer_id download_dir peer_name ps (skipped + 1) got)"

definition request_batch_transfer_with_retry :: "ext \<Rightarrow> transfer_json \<Rightarrow> local_identity \<Rightarrow> string \<Rightarrow> path list
    \<Rightarrow> path \<Rightarrow> string \<Rightarrow> path list x_act" where
  "request_batch_transfer_with_retry x j identity peer_id remote_paths download_dir peer_name =
     act_bind (request_each x j identity peer_id download_dir peer_name remote_paths 0 []) (\<lambda>(skipped, paths).
     act_then (emit (EvBatch (length remote_paths) skipped peer_name)) (act_ret paths))"

section \<open>Pushing files\<close>

fun push_chunks :: "ext \<Rightarrow> bytes \<Rightarrow> (64 word \<Rightarrow> unit x_act) \<Rightarrow> bytes list \<Rightarrow> 64 word \<Rightarrow> (64 word) x_act" where
  "push_chunks x key progress [] n = act_ret n"
| "push_chunks x key progress (c # cs) n = act_then (send_bytes x key c)
     (let n' = n + word_of_nat (length c) in act_then (progress n') (push_chunks x key progress cs n'))"

definition send_push_payload :: "ext \<Rightarrow> transfer_json \<Rightarrow> bytes \<Rightarrow> path \<Rightarrow> string \<Rightarrow> 64 word \<Rightarrow> string
    \<Rightarrow> (64 word \<Rightarrow> unit x_act) \<Rightarrow> (64 word) x_act" where
  "send_push_payload x j key p filename sz checksum progress =
     act_then (on_fs (file_open p))
     (act_then (send_msg x j key (PushStart filename sz checksum))
     (act_bind (recv_msg x j key) (\<lambda>m. case m of
         PushAccept \<Rightarrow> act_bind (on_fs (file_read p)) (\<lambda>content.
           push_chunks x key progress (chunks_of CHUNK_SIZE content) 0)
       | ErrorMsg ec \<Rightarrow> act_err (Protocol ec)
       | other \<Rightarrow> act_err (Protocol (''unexpected '' @ j_debug j other)))))"

definition push_one_file :: "ext \<Rightarrow> transfer_json \<Rightarrow> local_identity \<Rightarrow> string \<Rightarrow> path \<Rightarrow> string \<Rightarrow> string \<Rightarrow> unit x_act" where
  "push_one_file x j identity tid local_path peer_pubkey peer_name =
     act_bind (on_fs (file_metadata local_path)) (\<lambda>meta. case meta of
       DirNode _ \<Rightarrow> act_err (Protocol ''not a file'')
     | FileNode b \<Rightarrow>
       let sz = word_of_nat (length b); filename = file_name_or ''file'' local_path in
       act_bind (sha256_of_file x local_path) (\<lambda>checksum.
       act_bind x_now (\<lambda>started_at.
       act_then (on_queue (queue_push \<lparr> qe_transfer_id = tid, qe_filename = filename, qe_remote_path = local_path,
           qe_peer_name = peer_name, qe_status = InProgress, qe_bytes_received = 0, qe_total = sz,
           qe_started_at = started_at \<rparr>))
       (act_then connect
       (act_bind (on_session (session_handshake_client x (handshake_part j) (id_device_id identity) identity peer_pubkey)) (\<lambda>key.
       act_bind (send_push_payload x j key local_path filename sz checksum (\<lambda>n.
           act_then (on_queue (queue_update tid InProgress n)) (emit (EvProgress tid filename n sz peer_name)))) (\<lambda>sent.
       act_then (on_queue (queue_update tid Complete sent))
         (emit (EvComplete tid filename local_path peer_name)))))))))"

fun push_each :: "ext \<Rightarrow> transfer_json \<Rightarrow> local_identity \<Rightarrow> string \<Rightarrow> string \<Rightarrow> path list \<Rightarrow> unit x_act" where
  "push_each x j identity peer_pubkey peer_name [] = act_ret ()"
| "push_each x j identity peer_pubkey peer_name (p # ps) = act_bind x_draw (\<lambda>seed.
     act_then (act_ignore (push_one_file x j identity (x_uuid_new x seed) p peer_pubkey peer_name))
       (push_each x j identity peer_pubkey peer_name ps))"

definition push_files :: "ext \<Rightarrow> transfer_json \<Rightarrow> local_identity \<Rightarrow> string \<Rightarrow> path list \<Rightarrow> string \<Rightarrow> unit x_act" where
  "push_files x j identity peer_id local_paths peer_name =
     act_bind (peer_key peer_id) (\<lambda>peer_pubkey. push_each x j identity peer_pubkey peer_name local_paths)"

text \<open>The transfer is dropped at the deadline of 60 seconds: \<open>timed_out\<close> tells, and \<open>expire\<close> is what of
  it has happened by then.\<close>

definition push_clip_file :: "ext \<Rightarrow> transfer_json \<Rightarrow> local_identity \<Rightarrow> bool \<Rightarrow> (xfer \<Rightarrow> xfer) \<Rightarrow> string \<Rightarrow> string \<Rightarrow> path \<Rightarrow> string \<Rightarrow> unit x_act" where
  "push_clip_file x j identity timed_out expire tid peer_id local_path peer_name =
     act_bind (if timed_out then act_then (act_mod expire) (act_ret (Inl XIo))
       else act_try (act_bind (peer_key peer_id) (\<lambda>k. push_one_file x j identity tid local_path k peer_name))) (\<lambda>result.
     case result of
       Inr u \<Rightarrow> act_ret u
     | Inl e \<Rightarrow> act_bind (act_get (\<lambda>w. case queue_find (x_queue w) tid of None \<Rightarrow> 0 | Some q \<Rightarrow> qe_bytes_received q)) (\<lambda>sent.
         act_then (on_queue (queue_update tid (Failed (j_errtext j e)) sent))
        (act_then (emit (EvFailed tid [] (j_errtext j e))) (act_err e))))"

end
