(* ===== verification/Action_Rules.thy ===== *)
theory Action_Rules
  imports Prelude
begin

text \<open>
  Rules for reasoning about composed actions without unfolding them.  \<open>keeps P m\<close>: running \<open>m\<close> from
  a state with \<open>P\<close> ends, with a value or an error, in a state with \<open>P\<close>.  \<open>commutes P h m\<close>: on states
  with \<open>P\<close>, which \<open>m\<close> keeps, changing the state by \<open>h\<close> first changes neither the outcome of \<open>m\<close> nor
  its effect.  One rule per combinator; a component adds the rules of its own primitives.
\<close>

named_theorems keeps_intros \<open>invariants of composed actions\<close>
named_theorems commutes_intros \<open>actions that do not look at a part of the state\<close>

section \<open>Invariants\<close>

definition keeps :: "('s \<Rightarrow> bool) \<Rightarrow> ('s, 'e, 'a) act \<Rightarrow> bool" where
  "keeps P m \<longleftrightarrow> (\<forall>s. P s \<longrightarrow> P (snd (m s)))"

lemma keepsD: "keeps P m \<Longrightarrow> P s \<Longrightarrow> P (snd (m s))"
  by (simp add: keeps_def)

lemma keepsE: "keeps P m \<Longrightarrow> m s = (r, t) \<Longrightarrow> P s \<Longrightarrow> P t"
  by (metis keepsD snd_conv)

lemma keeps_bind [keeps_intros]:
  assumes "keeps P m" "\<And>a. keeps P (f a)"
  shows "keeps P (act_bind m f)"
  using assms by (auto simp: keeps_def act_bind_run split: prod.splits sum.splits)

lemma keeps_then [keeps_intros]: "keeps P m \<Longrightarrow> keeps P n \<Longrightarrow> keeps P (act_then m n)"
  unfolding act_then_def by (rule keeps_bind)

lemma keeps_simple [keeps_intros]:
  "keeps P (act_ret a)" "keeps P (act_err e)" "keeps P (act_get g)" "keeps P (act_lift r)"
  by (simp_all add: keeps_def act_simps)

lemma keeps_mod: "(\<And>s. P s \<Longrightarrow> P (g s)) \<Longrightarrow> keeps P (act_mod g)"
  by (simp add: keeps_def act_simps)

lemma keeps_outcome [keeps_intros]:
  "keeps P m \<Longrightarrow> keeps P (act_try m)"
  "keeps P m \<Longrightarrow> keeps P (act_ignore m)"
  "keeps P m \<Longrightarrow> keeps P (act_map_err g m)"
  by (auto simp: keeps_def act_simps split: prod.splits)

lemma keeps_if [keeps_intros]:
  "(b \<Longrightarrow> keeps P m) \<Longrightarrow> (\<not> b \<Longrightarrow> keeps P n) \<Longrightarrow> keeps P (if b then m else n)"
  by simp

lemma keeps_case [keeps_intros]:
  "keeps P m \<Longrightarrow> (\<And>a. keeps P (f a)) \<Longrightarrow> keeps P (case v of None \<Rightarrow> m | Some a \<Rightarrow> f a)"
  "(\<And>a. keeps P (g a)) \<Longrightarrow> (\<And>b. keeps P (h b)) \<Longrightarrow> keeps P (case u of Inl a \<Rightarrow> g a | Inr b \<Rightarrow> h b)"
  "(\<And>a b. keeps P (k a b)) \<Longrightarrow> keeps P (case q of (a, b) \<Rightarrow> k a b)"
  by (simp_all split: option.split sum.split prod.split)

section \<open>Independence\<close>

definition commutes :: "('s \<Rightarrow> bool) \<Rightarrow> ('s \<Rightarrow> 's) \<Rightarrow> ('s, 'e, 'a) act \<Rightarrow> bool" where
  "commutes P h m \<longleftrightarrow> (\<forall>s. P s \<longrightarrow> m (h s) = (fst (m s), h (snd (m s))) \<and> P (snd (m s)))"

lemma commutesD: "commutes P h m \<Longrightarrow> P s \<Longrightarrow> m s = (r, t) \<Longrightarrow> m (h s) = (r, h t) \<and> P t"
  by (metis commutes_def fst_conv snd_conv)

lemma commutesI:
  "(\<And>s r t. P s \<Longrightarrow> m s = (r, t) \<Longrightarrow> m (h s) = (r, h t) \<and> P t) \<Longrightarrow> commutes P h m"
  unfolding commutes_def by (metis prod.collapse)

text \<open>The continuation is only run on values the first action returns.\<close>

lemma commutes_bind_values:
  assumes "commutes P h m" "\<And>s a t. P s \<Longrightarrow> m s = (Inr a, t) \<Longrightarrow> commutes P h (f a)"
  shows "commutes P h (act_bind m f)"
proof (rule commutesI)
  fix s r t assume P: "P s" and run: "act_bind m f s = (r, t)"
  obtain q u where m: "m s = (q, u)" by fastforce
  note M = commutesD [OF assms(1) P m]
  show "act_bind m f (h s) = (r, h t) \<and> P t"
  proof (cases q)
    case (Inl e)
    with run m M show ?thesis by (auto simp: act_bind_run)
  next
    case (Inr a)
    with run m have "f a u = (r, t)" by (simp add: act_bind_run)
    from commutesD [OF assms(2) conjunct2 [OF M] this] P m Inr M show ?thesis by (simp add: act_bind_run)
  qed
qed

lemma commutes_bind [commutes_intros]:
  "commutes P h m \<Longrightarrow> (\<And>a. commutes P h (f a)) \<Longrightarrow> commutes P h (act_bind m f)"
  by (rule commutes_bind_values)

lemma commutes_then [commutes_intros]: "commutes P h m \<Longrightarrow> commutes P h n \<Longrightarrow> commutes P h (act_then m n)"
  unfolding act_then_def by (rule commutes_bind)

lemma commutes_simple [commutes_intros]:
  "commutes P h (act_ret a)" "commutes P h (act_err e)" "commutes P h (act_lift r)"
  by (simp_all add: commutes_def act_simps)

lemma commutes_try [commutes_intros]: "commutes P h m \<Longrightarrow> commutes P h (act_try m)"
  by (auto simp: commutes_def act_simps split: prod.splits)

lemma commutes_get: "(\<And>s. P s \<Longrightarrow> g (h s) = g s) \<Longrightarrow> commutes P h (act_get g)"
  by (simp add: commutes_def act_simps)

lemma commutes_if [commutes_intros]:
  "(b \<Longrightarrow> commutes P h m) \<Longrightarrow> (\<not> b \<Longrightarrow> commutes P h n) \<Longrightarrow> commutes P h (if b then m else n)"
  by simp

end
