(* ===== verification/Transfer_Safety.thy ===== *)
theory Transfer_Safety
  imports Transfer_Client Action_Rules
begin

text \<open>
  What a connection can see and change.  Serving is independent of every file the gate does not let
  through; a refused path is answered by the refusal alone; a pushed file lands in the peer's
  directory under its last name, wherever its sender asked to put it.
\<close>

section \<open>Noninterference of the serving side\<close>

definition with_nodes :: "(path \<Rightarrow> node option) \<Rightarrow> xfer \<Rightarrow> xfer" where
  "with_nodes f w = w\<lparr>x_fs := (x_fs w)\<lparr>fs_nodes := f\<rparr>\<rparr>"

text \<open>The states of a run: the same resolution of links, and the same files as \<open>f\<close> where the gate
  lets through.\<close>

definition agrees :: "(path \<Rightarrow> path option) \<Rightarrow> string list \<Rightarrow> (path \<Rightarrow> node option) \<Rightarrow> xfer \<Rightarrow> bool" where
  "agrees canonicalize dirs f w \<longleftrightarrow> fs_canon (x_fs w) = canonicalize \<and> order_by (\<lambda>p. p) (shared_dirs (w_db w)) = dirs
     \<and> (\<forall>p. is_path_allowed canonicalize p dirs \<longrightarrow> fs_nodes (x_fs w) p = f p)"

lemma gate_order: "is_path_allowed canonicalize p (order_by key dirs) = is_path_allowed canonicalize p dirs"
  by (auto simp: order_by_def gate.allowed_iff)

lemma with_nodes_simps [simp]:
  "w_conn (with_nodes f w) = w_conn w" "w_db (with_nodes f w) = w_db w" "w_seed (with_nodes f w) = w_seed w"
  "fs_canon (x_fs (with_nodes f w)) = fs_canon (x_fs w)" "fs_nodes (x_fs (with_nodes f w)) = f"
  "fs_faults (x_fs (with_nodes f w)) = fs_faults (x_fs w)"
  by (simp_all add: with_nodes_def)

lemma with_nodes_upd [simp]:
  "(with_nodes f w)\<lparr>w_conn := c\<rparr> = with_nodes f (w\<lparr>w_conn := c\<rparr>)"
  "(with_nodes f w)\<lparr>w_db := d\<rparr> = with_nodes f (w\<lparr>w_db := d\<rparr>)"
  "(with_nodes f w)\<lparr>w_seed := n\<rparr> = with_nodes f (w\<lparr>w_seed := n\<rparr>)"
  by (simp_all add: with_nodes_def)

lemma agrees_upd [simp]:
  "agrees c ds f (w\<lparr>w_conn := k\<rparr>) = agrees c ds f w"
  "agrees c ds f (w\<lparr>w_seed := n\<rparr>) = agrees c ds f w"
  by (simp_all add: agrees_def)

lemma send_bytes_commutes [commutes_intros]: "commutes (agrees c ds f) (with_nodes f) (send_bytes x key b)"
  by (auto simp: commutes_def send_bytes_def act_simps split: prod.splits)

lemma send_msg_commutes [commutes_intros]: "commutes (agrees c ds f) (with_nodes f) (send_msg x j key m)"
  unfolding send_msg_def by (rule send_bytes_commutes)

lemma access_denied_commutes [commutes_intros]: "commutes (agrees c ds f) (with_nodes f) (access_denied x j key)"
  unfolding access_denied_def by (rule send_msg_commutes)

lemma send_chunks_commutes [commutes_intros]: "commutes (agrees c ds f) (with_nodes f) (send_chunks x key cs)"
  by (induction cs) (auto intro!: commutes_intros)

lemma fs_read_commutes [commutes_intros]:
  assumes "is_path_allowed c p ds"
  shows "commutes (agrees c ds f) (with_nodes f) (on_fs (file_open p))"
    "commutes (agrees c ds f) (with_nodes f) (on_fs (file_metadata p))"
    "commutes (agrees c ds f) (with_nodes f) (on_fs (file_read p))"
  using assms
  by (auto simp: commutes_def agrees_def with_nodes_def act_simps file_open_def file_metadata_def file_read_def
      fs_call_def Let_def split: option.splits node.splits)

lemma sha256_commutes [commutes_intros]:
  "is_path_allowed c p ds \<Longrightarrow> commutes (agrees c ds f) (with_nodes f) (sha256_of_file x p)"
  unfolding sha256_of_file_def by (auto intro!: commutes_intros)

lemma shared_dirs_commutes: "commutes (agrees c ds f) (with_nodes f) (x_db get_shared_dirs)"
  by (auto simp: commutes_def agrees_def act_simps get_shared_dirs_def sql_query_def db_exec_def Let_def
      split: prod.splits)

lemma shared_dirs_value: "agrees c ds f w \<Longrightarrow> x_db get_shared_dirs w = (Inr a, t) \<Longrightarrow> a = ds"
  by (auto simp: agrees_def act_simps get_shared_dirs_def sql_query_def db_exec_def Let_def split: if_splits)

lemma serve_one_file_commutes [commutes_intros]:
  "commutes (agrees c ds f) (with_nodes f) (serve_one_file x j key p off)"
  unfolding serve_one_file_def
proof (rule commutes_bind_values [OF shared_dirs_commutes], drule (1) shared_dirs_value, simp only:)
  show "commutes (agrees c ds f) (with_nodes f) (act_bind (act_get (\<lambda>w. is_path_allowed (fs_canon (x_fs w)) p ds)) (\<lambda>allowed.
      if \<not> allowed then access_denied x j key
      else act_bind (act_try (on_fs (file_open p))) (\<lambda>opened.
      if \<not> is_ok opened then access_denied x j key
      else act_bind (on_fs (file_metadata p)) (\<lambda>meta.
      let sz = word_of_nat (node_len meta) in
      if sz < off then send_msg x j key (ErrorMsg ''invalid_offset'')
      else act_bind (sha256_of_file x p) (\<lambda>checksum.
      act_then (send_msg x j key (TransferStart (file_name_or ''file'' p) sz off))
      (act_bind (on_fs (file_read p)) (\<lambda>content.
      act_then (send_chunks x key (chunks_of CHUNK_SIZE (drop (unat off) content)))
        (send_msg x j key (TransferComplete checksum)))))))))"
    by (rule commutes_bind_values)
      (auto simp: agrees_def act_simps Let_def intro!: commutes_get commutes_intros)
qed

lemma serve_each_commutes: "commutes (agrees c ds f) (with_nodes f) (serve_each x j key cl n)"
  by (induction cl arbitrary: n) (auto intro!: commutes_intros)

lemma serve_batch_commutes: "commutes (agrees c ds f) (with_nodes f) (serve_batch x j key paths)"
  unfolding serve_batch_def
  by (rule commutes_bind_values [OF shared_dirs_commutes], drule (1) shared_dirs_value, simp only:)
    (intro commutes_bind commutes_get serve_each_commutes send_msg_commutes, simp add: agrees_def)

text \<open>
  C3.  Serving never leaks: two machines whose files agree wherever the gate lets through, and may
  differ in content, size and existence everywhere else, answer a request for a file and a batch
  request with the same result and the same bytes on the wire, whatever failures occur.
\<close>

theorem serving_noninterference:
  assumes "\<And>p. is_path_allowed (fs_canon (x_fs w)) p (shared_dirs (w_db w)) \<Longrightarrow> fs_nodes (x_fs w) p = f p"
  shows "fst (serve_one_file x j key p off (with_nodes f w)) = fst (serve_one_file x j key p off w)
    \<and> w_conn (snd (serve_one_file x j key p off (with_nodes f w))) = w_conn (snd (serve_one_file x j key p off w))
    \<and> fst (serve_batch x j key ps (with_nodes f w)) = fst (serve_batch x j key ps w)
    \<and> w_conn (snd (serve_batch x j key ps (with_nodes f w))) = w_conn (snd (serve_batch x j key ps w))"
proof -
  let ?P = "agrees (fs_canon (x_fs w)) (order_by (\<lambda>p. p) (shared_dirs (w_db w))) f"
  have P: "?P w" using assms by (simp add: agrees_def gate_order)
  note one = commutesD [OF serve_one_file_commutes P, of x j key p off, OF prod.collapse [symmetric]]
    and batch = commutesD [OF serve_batch_commutes P, of x j key ps, OF prod.collapse [symmetric]]
  from one batch show ?thesis by simp
qed

text \<open>A small machine: one shared directory with a file, and a private file.\<close>

definition toy_transfer_json :: transfer_json where
  "toy_transfer_json = \<lparr> j_init = chars, j_uninit = (\<lambda>b. Some (unchars b)),
     j_hello = j_hello toy_json, j_unhello = j_unhello toy_json,
     j_msg = (\<lambda>m. case m of TransferStart n sz off \<Rightarrow> 1 # replicate (unat sz) 1 @ 0 # replicate (unat off) 1 @ 0 # chars n
        | TransferComplete c \<Rightarrow> 2 # chars c | PushAccept \<Rightarrow> [3] | ErrorMsg c \<Rightarrow> 4 # chars c | _ \<Rightarrow> []),
     j_unmsg = (\<lambda>b. case b of [] \<Rightarrow> None
        | t # r \<Rightarrow> if t = 1 then (let a = takeWhile (\<lambda>x. x = 1) r; s = drop (length a + 1) r; b = takeWhile (\<lambda>x. x = 1) s
                 in Some (TransferStart (unchars (drop (length b + 1) s)) (word_of_nat (length a)) (word_of_nat (length b))))
            else if t = 2 then Some (TransferComplete (unchars r)) else if t = 3 then Some PushAccept
            else Some (ErrorMsg (unchars r))),
     j_debug = (\<lambda>_. []), j_errtext = (\<lambda>_. []) \<rparr>"

definition toy_nodes :: "bytes \<Rightarrow> path \<Rightarrow> node option" where
  "toy_nodes secret = [''/pub'' \<mapsto> DirNode 0, ''/pub/a'' \<mapsto> FileNode [7, 8, 9], ''/key'' \<mapsto> FileNode secret]"

definition toy_xfer :: "bytes \<Rightarrow> (path \<Rightarrow> node option) \<Rightarrow> xfer" where
  "toy_xfer b f = \<lparr> w_conn = idle b, w_db = db_empty\<lparr>trusted_peers := [toy_peer], shared_dirs := [''/pub'']\<rparr>, w_seed = 5,
     x_fs = \<lparr> fs_nodes = f, fs_canon = Some, fs_faults = [] \<rparr>, x_queue = queue_new 10, x_events = [], x_clock = 0,
     x_dials = [], x_sleeps = [], x_downloads = Some ''/dl'', x_hist = None \<rparr>"

lemma serving_noninterference_witness:
  "fst (serve_one_file toy_ext toy_transfer_json (replicate 32 1) ''/key'' 0 (toy_xfer [] (toy_nodes [1])))
     = fst (serve_one_file toy_ext toy_transfer_json (replicate 32 1) ''/key'' 0 (toy_xfer [] (toy_nodes [2, 3])))"
proof -
  let ?w = "toy_xfer [] (toy_nodes [2, 3])"
  have same: "fs_nodes (x_fs ?w) p = toy_nodes [1] p"
    if "is_path_allowed (fs_canon (x_fs ?w)) p (shared_dirs (w_db ?w))" for p
  proof (cases "p = ''/key''")
    case True
    have "\<not> is_path_allowed Some ''/key'' [''/pub'']" by code_simp
    with that True show ?thesis by (simp add: toy_xfer_def)
  qed (simp add: toy_xfer_def toy_nodes_def)
  have "with_nodes (toy_nodes [1]) ?w = toy_xfer [] (toy_nodes [1])"
    by (simp add: with_nodes_def toy_xfer_def)
  with serving_noninterference [of ?w "toy_nodes [1]", OF same] show ?thesis by metis
qed

section \<open>Refusals\<close>

lemma send_bytes_out:
  assumes "send_bytes x key p w = (r, w')"
  shows "\<exists>c. w' = w\<lparr>w_seed := w_seed w + 1, w_conn := c\<rparr> \<and> c_in c = c_in (w_conn w)
    \<and> (\<exists>n ct. c_out c = c_out (w_conn w) @ take n (frame_of ct) \<and> (encrypt x (w_seed w) key p = Inr ct \<or> n = 0))"
  using assms write_enc_out [of x "w_seed w" key p "w_conn w"]
  by (auto simp: send_bytes_def act_simps split: prod.splits)




section \<open>Pushed files stay in their directory\<close>

definition outside :: "path set \<Rightarrow> (path \<Rightarrow> node option) \<Rightarrow> xfer \<Rightarrow> bool" where
  "outside S f w \<longleftrightarrow> (\<forall>q. q \<notin> S \<longrightarrow> fs_nodes (x_fs w) q = f q)"

lemma outside_upd [simp]:
  "outside S f (w\<lparr>w_conn := c\<rparr>) = outside S f w" "outside S f (w\<lparr>w_db := d\<rparr>) = outside S f w"
  "outside S f (w\<lparr>w_seed := n\<rparr>) = outside S f w" "outside S f (w\<lparr>x_queue := t\<rparr>) = outside S f w"
  "outside S f (w\<lparr>x_events := es\<rparr>) = outside S f w"
  by (simp_all add: outside_def)

lemma outside_primitives [keeps_intros]:
  "keeps (outside S f) (x_db m)" "keeps (outside S f) (on_queue g)" "keeps (outside S f) (emit e)"
  "keeps (outside S f) x_draw" "keeps (outside S f) x_now" "keeps (outside S f) (on_session (on_conn k))"
  "keeps (outside S f) notify_enabled"
  by (auto simp: keeps_def act_simps notify_enabled_def split: prod.splits)

lemma outside_files [keeps_intros]:
  "keeps (outside S f) (on_fs (file_open p))" "keeps (outside S f) (on_fs (file_read p))"
  "p \<in> S \<Longrightarrow> keeps (outside S f) (on_fs (create_dir_all p))"
  "p \<in> S \<Longrightarrow> keeps (outside S f) (on_fs (file_open_write b p))"
  "p \<in> S \<Longrightarrow> keeps (outside S f) (on_fs (file_write p n ch))"
  "p \<in> S \<Longrightarrow> keeps (outside S f) (on_fs (remove_file p))"
  by (auto simp: keeps_def outside_def act_simps file_open_def file_read_def create_dir_all_def file_open_write_def
      file_write_def remove_file_def fs_call_def Let_def split: option.splits node.splits)

lemma outside_wire [keeps_intros]:
  "keeps (outside S f) (send_bytes x key b)" "keeps (outside S f) (recv_bytes x key)"
  "keeps (outside S f) (send_msg x j key m)" "keeps (outside S f) (recv_msg x j key)"
  "keeps (outside S f) (sha256_of_file x p)"
  unfolding send_bytes_def recv_bytes_def send_msg_def recv_msg_def sha256_of_file_def
  by (auto intro!: keeps_intros)

lemma outside_recv_chunk:
  "rt_path rt \<in> S \<Longrightarrow> keeps (outside S f) (recv_chunk x key rt pos n)"
  unfolding recv_chunk_def Let_def by (auto intro!: keeps_intros)

lemma recv_loop_keeps:
  "(\<And>pos n. keeps P (recv_chunk x key rt pos n)) \<Longrightarrow> P w \<Longrightarrow> P (snd (recv_loop x key rt pos n w))"
proof (induction x key rt pos n w rule: recv_loop.induct)
  case (1 x key rt pos n w)
  obtain q w1 where c: "recv_chunk x key rt pos n w = (q, w1)" by fastforce
  have P: "P w1" using keepsE [OF 1(2) c 1(3)] .
  show ?case
  proof (cases "n < rt_size rt")
    case True
    show ?thesis
    proof (cases q)
      case (Inl e)
      with c P True show ?thesis by (simp add: recv_loop.simps [of x key rt pos n w])
    next
      case (Inr v)
      show ?thesis
      proof (cases v)
        case None
        with Inr c P True show ?thesis by (simp add: recv_loop.simps [of x key rt pos n w])
      next
        case (Some pn)
        obtain pos' n' where pn: "pn = (pos', n')" by fastforce
        from 1(1) [OF True c [symmetric] Inr Some pn [symmetric] 1(2) P] Some Inr c True pn show ?thesis
          by (simp add: recv_loop.simps [of x key rt pos n w])
      qed
    qed
  qed (simp add: recv_loop.simps [of x key rt pos n w] 1(3))
qed

lemma keeps_recv_loop: "(\<And>pos n. keeps P (recv_chunk x key rt pos n)) \<Longrightarrow> keeps P (recv_loop x key rt pos n)"
  by (subst keeps_def) (blast intro: recv_loop_keeps)

lemma outside_recv_loop [keeps_intros]:
  "rt_path rt \<in> S \<Longrightarrow> keeps (outside S f) (recv_loop x key rt pos n)"
  by (intro keeps_recv_loop outside_recv_chunk)

lemma outside_finish [keeps_intros]:
  "keeps (outside S f) (finish_complete rt n now)"
  "rt_path rt \<in> S \<Longrightarrow> keeps (outside S f) (finish_failed rt now :: 'a x_act)"
  "keeps (outside S f) (forward_clip x vu peer rt)"
  unfolding finish_complete_def finish_failed_def forward_clip_def notify_transfer_complete_def
  by (auto intro!: keeps_intros)

lemma safe_name_plain: "plain_name (safe_name filename)"
  by (auto simp: safe_name_def file_name_or_def plain_name_def dest: file_name_plain [unfolded plain_name_def] split: option.split)


lemma outside_store_push:
  "keeps (outside {dir, path_join dir (safe_name filename)} f) (store_push x j vu key peer filename sz ck name dir)"
  unfolding store_push_def Let_def by (intro keeps_intros) simp_all

lemma query_reads: "x_db (sql_query g) w = (q, v) \<Longrightarrow> v = w\<lparr>w_db := (w_db w)\<lparr>faults := tl (faults (w_db w))\<rparr>\<rparr>
    \<and> (\<forall>a. q = Inr a \<longrightarrow> a = g (w_db v))"
  by (auto simp: act_simps sql_query_def db_exec_def Let_def split: if_splits)




section \<open>Where a requested file goes\<close>

lemma path_join_absolute: "is_absolute p \<Longrightarrow> path_join d p = p"
  by (simp add: path_join_def)

text \<open>The name of a requested file is the server's and is joined as it is: an absolute name replaces
  the download directory, and the file of that name is truncated.\<close>

lemma requested_name_escapes:
  "fs_nodes (x_fs (snd (receive_file toy_ext toy_transfer_json [1] ''t'' ''alice'' ''/pub/a'' ''/dl'' ''alice'' 0
      (''/key'', 0, 0) (toy_xfer [] (toy_nodes [2]))))) ''/key'' = Some (FileNode [])"
  by (simp add: receive_file_def act_simps Let_def path_join_def is_absolute_def create_dir_all_def file_open_write_def
      fs_call_def toy_xfer_def toy_nodes_def history_row_def insert_transfer_def db_exec_def db_empty_def
      recv_loop.simps recv_msg_def recv_bytes_def read_enc_def read_plain_def read_exact_def idle_def)

end
