(* ===== verification/Transfer_Delivery.thy ===== *)
theory Transfer_Delivery
  imports Transfer_Safety
begin

text \<open>
  From one machine's disk to the other's: what a serving run without failures puts on the wire, what
  the receiving loop makes of it, and their composition, resumed transfers included.
\<close>

section \<open>Sequences of encrypted messages\<close>

text \<open>Sealing succeeds below the frame bound and adds less than 64 bytes.\<close>

definition seal_total :: "ext \<Rightarrow> bool" where
  "seal_total x \<longleftrightarrow> (\<forall>k n p. length k = 32 \<and> length n = 12 \<and> length p \<le> MAX_FRAME_BYTES
     \<longrightarrow> (\<exists>ct. x_seal x k n p = Some ct \<and> length ct \<le> length p + 64))"

text \<open>The two replies of a served file survive their JSON encoding.\<close>

definition reply_json_ok :: "transfer_json \<Rightarrow> bool" where
  "reply_json_ok j \<longleftrightarrow> (\<forall>n sz off. j_unmsg j (j_msg j (TransferStart n sz off)) = Some (TransferStart n sz off))
     \<and> (\<forall>c. j_unmsg j (j_msg j (TransferComplete c)) = Some (TransferComplete c))"

text \<open>\<open>wire x key ps b\<close>: the bytes \<open>b\<close> are the messages \<open>ps\<close>, sealed and framed in order.\<close>

inductive wire :: "ext \<Rightarrow> bytes \<Rightarrow> bytes list \<Rightarrow> bytes \<Rightarrow> bool" for x key where
  wire_Nil: "wire x key [] []"
| wire_Cons: "encrypt x seed key p = Inr ct \<Longrightarrow> length ct \<le> MAX_FRAME_BYTES \<Longrightarrow> wire x key ps b
     \<Longrightarrow> wire x key (p # ps) (frame_of ct @ b)"

inductive_cases wire_NilE: "wire x key [] b"
inductive_cases wire_ConsE: "wire x key (p # ps) b"

lemma wire_append: "wire x key ps b \<Longrightarrow> wire x key qs c \<Longrightarrow> wire x key (ps @ qs) (b @ c)"
  by (induction rule: wire.induct) (auto intro: wire.intros)

lemma wire_single: "encrypt x seed key p = Inr ct \<Longrightarrow> length ct \<le> MAX_FRAME_BYTES \<Longrightarrow> wire x key [p] (frame_of ct)"
  using wire_Cons [OF _ _ wire_Nil] by fastforce

lemma wire_appendE:
  assumes "wire x key (ps @ qs) b"
  obtains b1 b2 where "wire x key ps b1" "wire x key qs b2" "b = b1 @ b2"
proof -
  have "\<exists>b1 b2. wire x key ps b1 \<and> wire x key qs b2 \<and> b = b1 @ b2"
    using assms
  proof (induction ps arbitrary: b)
    case (Cons p ps)
    from Cons.prems show ?case
      by (auto elim!: wire_ConsE dest!: Cons.IH) (metis append.assoc wire_Cons)
  qed (auto intro: wire_Nil)
  then show thesis using that by blast
qed

section \<open>Sending\<close>

definition sends :: "ext \<Rightarrow> bytes \<Rightarrow> bytes list \<Rightarrow> xfer \<Rightarrow> xfer \<Rightarrow> bool" where
  "sends x key ps w w' \<longleftrightarrow> (\<exists>b n. wire x key ps b
     \<and> w' = w\<lparr>w_seed := n, w_conn := (w_conn w)\<lparr>c_out := c_out (w_conn w) @ b\<rparr>\<rparr>)"

lemma sends_refl: "sends x key [] w w"
  by (auto simp: sends_def wire_Nil intro!: exI [where x = "[]"] exI [where x = "w_seed w"])

lemma sends_trans:
  assumes "sends x key ps u v" "sends x key qs v w"
  shows "sends x key (ps @ qs) u w"
proof -
  from assms obtain b n c m where b: "wire x key ps b" and v: "v = u\<lparr>w_seed := n, w_conn := (w_conn u)\<lparr>c_out := c_out (w_conn u) @ b\<rparr>\<rparr>"
    and c: "wire x key qs c" and w: "w = v\<lparr>w_seed := m, w_conn := (w_conn v)\<lparr>c_out := c_out (w_conn v) @ c\<rparr>\<rparr>"
    unfolding sends_def by blast
  have "w = u\<lparr>w_seed := m, w_conn := (w_conn u)\<lparr>c_out := c_out (w_conn u) @ b @ c\<rparr>\<rparr>"
    unfolding w unfolding v by simp
  with wire_append [OF b c] show ?thesis
    unfolding sends_def by blast
qed

lemma sends_same:
  "sends x key ps w w' \<Longrightarrow> w_db w' = w_db w \<and> x_fs w' = x_fs w \<and> c_faults (w_conn w') = c_faults (w_conn w)"
  unfolding sends_def by (elim exE conjE) simp

lemma encrypt_total:
  assumes "seal_total x" "random_ok x" "length key = 32" "length p \<le> MAX_FRAME_BYTES - 76"
  shows "\<exists>ct. encrypt x seed key p = Inr ct \<and> length ct \<le> MAX_FRAME_BYTES"
proof -
  have n: "length (x_random x seed 12) = 12" using assms(2) by (simp add: random_ok_def)
  moreover have "length p \<le> MAX_FRAME_BYTES" using assms(4) by simp
  ultimately obtain ct where "x_seal x key (x_random x seed 12) p = Some ct" "length ct \<le> length p + 64"
    using assms(1) [unfolded seal_total_def, rule_format, of key "x_random x seed 12" p] assms(3) by blast
  with n assms(4) show ?thesis by (simp add: encrypt_def Let_def MAX_FRAME_BYTES_def)
qed

lemma send_bytes_ok:
  assumes "seal_total x" "random_ok x" "length key = 32" "length p \<le> MAX_FRAME_BYTES - 76" "c_faults (w_conn w) = []"
  shows "\<exists>w'. send_bytes x key p w = (Inr (), w') \<and> sends x key [p] w w'"
proof -
  obtain ct where ct: "encrypt x (w_seed w) key p = Inr ct" "length ct \<le> MAX_FRAME_BYTES"
    using encrypt_total [OF assms(1-4)] by blast
  have "write_enc x (w_seed w) key p (w_conn w) = (Inr (), (w_conn w)\<lparr>c_out := c_out (w_conn w) @ frame_of ct\<rparr>)"
    using ct assms(5) by (simp add: write_enc_def act_simps write_plain_ok)
  with ct show ?thesis
    by (auto simp: send_bytes_def act_simps sends_def intro!: exI [where x = "frame_of ct"] wire_single)
qed

lemma send_chunks_ok:
  assumes "seal_total x" "random_ok x" "length key = 32"
  shows "list_all (\<lambda>c. length c \<le> MAX_FRAME_BYTES - 76) cs \<Longrightarrow> c_faults (w_conn w) = [] \<Longrightarrow>
    \<exists>w'. send_chunks x key cs w = (Inr (), w') \<and> sends x key cs w w'"
proof (induction cs arbitrary: w)
  case (Cons c cs)
  from Cons.prems obtain v where v: "send_bytes x key c w = (Inr (), v)" "sends x key [c] w v"
    using send_bytes_ok [OF assms] by force
  then have "c_faults (w_conn v) = []" using sends_same Cons.prems(2) by metis
  then obtain w' where "send_chunks x key cs v = (Inr (), w')" "sends x key cs v w'"
    using Cons by auto
  with v show ?case using sends_trans [OF v(2)] by (auto simp: act_simps)
qed (auto simp: act_simps sends_refl)

section \<open>Serving a file\<close>

lemma fs_no_faults: "fs_faults s = [] \<Longrightarrow> fs_call m s = m s"
proof -
  assume f: "fs_faults s = []"
  then have "s\<lparr>fs_faults := tl (fs_faults s)\<rparr> = s" by simp
  with f show ?thesis by (simp only: fs_call_def Let_def) simp
qed

lemma fs_content:
  assumes "fs_faults s = []" "fs_nodes s p = Some (FileNode b)"
  shows "file_open p s = (Inr (), s)" "file_metadata p s = (Inr (FileNode b), s)" "file_read p s = (Inr b, s)"
  using assms by (simp_all add: file_open_def file_metadata_def file_read_def fs_no_faults)

lemma on_fs_content:
  assumes "fs_faults (x_fs w) = []" "fs_nodes (x_fs w) p = Some (FileNode b)"
  shows "on_fs (file_open p) w = (Inr (), w)" "on_fs (file_metadata p) w = (Inr (FileNode b), w)"
    "on_fs (file_read p) w = (Inr b, w)"
  using fs_content [OF assms] by (simp_all add: on_fs_def)

lemma sha256_content:
  "fs_faults (x_fs w) = [] \<Longrightarrow> fs_nodes (x_fs w) p = Some (FileNode b) \<Longrightarrow>
   sha256_of_file x p w = (Inr (to_hex (x_sha256 x b)), w)"
  by (simp add: sha256_of_file_def act_simps fs_content)

text \<open>The messages of one served file.\<close>

definition served :: "ext \<Rightarrow> transfer_json \<Rightarrow> path \<Rightarrow> bytes \<Rightarrow> 64 word \<Rightarrow> bytes list" where
  "served x j p content off =
     j_msg j (TransferStart (file_name_or ''file'' p) (word_of_nat (length content)) off)
     # chunks_of CHUNK_SIZE (drop (unat off) content)
     @ [j_msg j (TransferComplete (to_hex (x_sha256 x content)))]"

definition can_serve :: "ext \<Rightarrow> transfer_json \<Rightarrow> bytes \<Rightarrow> path \<Rightarrow> bytes \<Rightarrow> 64 word \<Rightarrow> xfer \<Rightarrow> bool" where
  "can_serve x j key p content off w \<longleftrightarrow> length key = 32
     \<and> is_path_allowed (fs_canon (x_fs w)) p (shared_dirs (w_db w)) \<and> fs_nodes (x_fs w) p = Some (FileNode content)
     \<and> unat off \<le> length content \<and> length content < 2 ^ 63
     \<and> list_all (\<lambda>m. length (j_msg j m) \<le> 1048576)
         [TransferStart (file_name_or ''file'' p) (word_of_nat (length content)) off, TransferComplete (to_hex (x_sha256 x content))]
     \<and> c_faults (w_conn w) = [] \<and> faults (w_db w) = [] \<and> fs_faults (x_fs w) = []"

lemma serve_one_file_ok:
  assumes laws: "seal_total x" "random_ok x" and can: "can_serve x j key p content off w"
  shows "\<exists>w'. serve_one_file x j key p off w = (Inr (), w') \<and> sends x key (served x j p content off) w w'"
proof -
  note c = can [unfolded can_serve_def]
  let ?sz = "word_of_nat (length content) :: 64 word"
  let ?start = "j_msg j (TransferStart (file_name_or ''file'' p) ?sz off)"
  let ?cs = "chunks_of CHUNK_SIZE (drop (unat off) content)"
  let ?done = "j_msg j (TransferComplete (to_hex (x_sha256 x content)))"
  have key: "length key = 32" using c by simp
  have sizes: "length ?start \<le> MAX_FRAME_BYTES - 76" "length ?done \<le> MAX_FRAME_BYTES - 76"
    using c by (simp_all add: MAX_FRAME_BYTES_def)
  have chunks: "list_all (\<lambda>c. length c \<le> MAX_FRAME_BYTES - 76) ?cs"
    by (rule list.pred_mono_strong [OF chunks_of_length]) (simp add: CHUNK_SIZE_def MAX_FRAME_BYTES_def)
  obtain w1 where 1: "send_bytes x key ?start w = (Inr (), w1)" "sends x key [?start] w w1"
    using send_bytes_ok [OF laws key sizes(1)] c by blast
  have f1: "c_faults (w_conn w1) = []" "x_fs w1 = x_fs w" using sends_same [OF 1(2)] c by simp_all
  obtain w2 where 2: "send_chunks x key ?cs w1 = (Inr (), w2)" "sends x key ?cs w1 w2"
    using send_chunks_ok [OF laws key chunks f1(1)] by blast
  have f2: "c_faults (w_conn w2) = []" using sends_same [OF 2(2)] f1 by simp
  obtain w3 where 3: "send_bytes x key ?done w2 = (Inr (), w3)" "sends x key [?done] w2 w3"
    using send_bytes_ok [OF laws key sizes(2) f2] by blast
  have "unat ?sz = length content" using c by (simp add: unat_of_nat)
  then have off: "\<not> ?sz < off" using c by (simp add: word_less_nat_alt)
  have "serve_one_file x j key p off w = (Inr (), w3)"
    using c 1(1) 2(1) 3(1) f1(2) off
    by (simp add: serve_one_file_def act_simps get_shared_dirs_def query_no_faults gate_order on_fs_content sha256_content
        node_len_def Let_def send_msg_def del: on_fs_run)
  moreover have "sends x key (served x j p content off) w w3"
    using sends_trans [OF sends_trans [OF 1(2) 2(2)] 3(2)] by (simp add: served_def)
  ultimately show ?thesis by blast
qed


section \<open>Receiving\<close>

lemma recv_bytes_wire:
  assumes "seal_ok x" "random_ok x" "wire x key (p # ps) b" "c_in (w_conn w) = b @ r"
  shows "\<exists>b'. wire x key ps b' \<and> recv_bytes x key w = (Inr p, w\<lparr>w_conn := (w_conn w)\<lparr>c_in := b' @ r\<rparr>\<rparr>)"
proof -
  from assms(3) obtain seed ct b' where e: "encrypt x seed key p = Inr ct" "length ct \<le> MAX_FRAME_BYTES"
    and b: "b = frame_of ct @ b'" and w: "wire x key ps b'" by (auto elim: wire_ConsE)
  have "read_enc x key (w_conn w) = (Inr p, (w_conn w)\<lparr>c_in := b' @ r\<rparr>)"
    using read_enc_write_enc [OF assms(1,2) e] assms(4) b by simp
  with w show ?thesis by (auto simp: recv_bytes_def act_simps)
qed

lemma recv_msg_wire:
  assumes "seal_ok x" "random_ok x" "j_unmsg j (j_msg j m) = Some m" "wire x key (j_msg j m # ps) b" "c_in (w_conn w) = b @ r"
  shows "\<exists>b'. wire x key ps b' \<and> recv_msg x j key w = (Inr m, w\<lparr>w_conn := (w_conn w)\<lparr>c_in := b' @ r\<rparr>\<rparr>)"
  using recv_bytes_wire [OF assms(1,2,4,5)] assms(3) by (auto simp: recv_msg_def act_simps)

text \<open>The file so far: its first \<open>pos\<close> bytes are right, and it is not longer than the whole.\<close>

definition ready :: "path \<Rightarrow> bytes \<Rightarrow> nat \<Rightarrow> xfer \<Rightarrow> bool" where
  "ready p content pos w \<longleftrightarrow> faults (w_db w) = [] \<and> fs_faults (x_fs w) = []
     \<and> (\<exists>b. fs_nodes (x_fs w) p = Some (FileNode b) \<and> pos \<le> length b \<and> length b \<le> length content
          \<and> take pos b = take pos content)"

lemma ready_upd [simp]:
  "ready p content pos (w\<lparr>w_conn := c\<rparr>) = ready p content pos w" "ready p content pos (w\<lparr>x_queue := q\<rparr>) = ready p content pos w"
  "ready p content pos (w\<lparr>x_events := es\<rparr>) = ready p content pos w" "ready p content pos (w\<lparr>x_hist := h\<rparr>) = ready p content pos w"
  by (simp_all add: ready_def)

lemma ready_db: "ready p content pos w \<Longrightarrow> faults d = [] \<Longrightarrow> ready p content pos (w\<lparr>w_db := d\<rparr>)"
  by (simp add: ready_def)

lemma write_at_chunk:
  assumes "pos \<le> length b" "length b \<le> length content" "take pos b = take pos content" "prefix c (drop pos content)"
  shows "take (pos + length c) (write_at pos c b) = take (pos + length c) content"
    and "pos + length c \<le> length (write_at pos c b)" "length (write_at pos c b) \<le> length content"
proof -
  from assms(4) obtain z where z: "drop pos content = c @ z" by (auto simp: prefix_def)
  have l: "length content = pos + length c + length z"
    using arg_cong [OF z, of length] assms(1,2) by simp
  have "take (pos + length c) content = take pos content @ c"
    using z by (simp add: take_add)
  with assms(1-3) show "take (pos + length c) (write_at pos c b) = take (pos + length c) content"
    by (simp add: write_at_def)
  show "pos + length c \<le> length (write_at pos c b)" using assms(1) by (simp add: write_at_def)
  show "length (write_at pos c b) \<le> length content" using assms(1,2) l by (simp add: write_at_def)
qed

lemma on_fs_write:
  assumes "ready p content pos w" "prefix c (drop pos content)"
  shows "\<exists>w'. on_fs (file_write p pos c) w = (Inr (), w') \<and> ready p content (pos + length c) w' \<and> w_conn w' = w_conn w"
proof -
  from assms(1) obtain b where b: "fs_nodes (x_fs w) p = Some (FileNode b)" "pos \<le> length b" "length b \<le> length content"
    "take pos b = take pos content" and f: "faults (w_db w) = []" "fs_faults (x_fs w) = []" by (auto simp: ready_def)
  from write_at_chunk [OF b(2-4) assms(2)] b(1) f show ?thesis
    by (simp add: on_fs_def file_write_def fs_no_faults ready_def)
qed

lemma x_db_execute: "faults (w_db w) = [] \<Longrightarrow> x_db (sql_execute g) w = (Inr (), w\<lparr>w_db := g (w_db w)\<rparr>)"
  by (simp add: act_simps execute_no_faults)

lemma change_transfer_faults [simp]: "faults (change_transfer i f d) = faults d"
  by (simp add: change_transfer_def)

lemma recv_chunk_ok:
  assumes "seal_ok x" "random_ok x" "wire x key (c # ps) b" "c_in (w_conn w) = b @ r" "c \<noteq> []"
    "ready (rt_path rt) content pos w" "prefix c (drop pos content)"
  shows "\<exists>w' b'. recv_chunk x key rt pos n w = (Inr (Some (pos + length c, n + word_of_nat (length c))), w')
    \<and> ready (rt_path rt) content (pos + length c) w' \<and> wire x key ps b' \<and> c_in (w_conn w') = b' @ r"
proof -
  obtain b' where b': "wire x key ps b'" "recv_bytes x key w = (Inr c, w\<lparr>w_conn := (w_conn w)\<lparr>c_in := b' @ r\<rparr>\<rparr>)"
    using recv_bytes_wire [OF assms(1-4)] by blast
  let ?w1 = "w\<lparr>w_conn := (w_conn w)\<lparr>c_in := b' @ r\<rparr>\<rparr>"
  have "ready (rt_path rt) content pos ?w1" using assms(6) by simp
  from on_fs_write [OF this assms(7)] obtain w2 where w2: "on_fs (file_write (rt_path rt) pos c) ?w1 = (Inr (), w2)"
    "ready (rt_path rt) content (pos + length c) w2" "w_conn w2 = w_conn ?w1" by blast
  from w2(2) have f: "faults (w_db w2) = []" by (simp add: ready_def)
  show ?thesis
    using b' w2 f assms(5)
    by (auto simp: recv_chunk_def act_bind_run Let_def update_transfer_status_def x_db_execute on_queue_run emit_run
        act_ret_def ready_db)
qed

lemma recv_loop_ok:
  assumes "seal_ok x" "random_ok x" and size: "rt_size rt = word_of_nat (length content)" "length content < 2 ^ 63"
  shows "wire x key (cs @ ps) b \<Longrightarrow> c_in (w_conn w) = b @ r \<Longrightarrow> [] \<notin> set cs \<Longrightarrow> concat cs = drop pos content \<Longrightarrow>
     ready (rt_path rt) content pos w \<Longrightarrow>
     \<exists>w' b'. recv_loop x key rt pos (word_of_nat pos) w = (Inr (rt_size rt), w')
        \<and> ready (rt_path rt) content (length content) w' \<and> wire x key ps b' \<and> c_in (w_conn w') = b' @ r"
proof (induction cs arbitrary: b pos w)
  case Nil
  then have "pos = length content" by (auto simp: ready_def)
  with Nil size show ?case by (subst recv_loop.simps) auto
next
  case (Cons c cs)
  have c: "c \<noteq> []" "prefix c (drop pos content)" using Cons.prems(3,4) by (auto simp: prefix_def) (metis)
  have "wire x key (c # cs @ ps) b" using Cons.prems(1) by simp
  from recv_chunk_ok [OF assms(1,2) this Cons.prems(2) c(1) Cons.prems(5) c(2), where n = "word_of_nat pos"]
  obtain w1 b1 where 1: "recv_chunk x key rt pos (word_of_nat pos) w
      = (Inr (Some (pos + length c, word_of_nat (pos + length c))), w1)"
    "ready (rt_path rt) content (pos + length c) w1" "wire x key (cs @ ps) b1" "c_in (w_conn w1) = b1 @ r"
    by auto
  have "concat cs = drop (pos + length c) content"
    using Cons.prems(4) by (metis append_eq_conv_conj concat.simps(2) drop_drop add.commute)
  with Cons.IH [OF 1(3,4) _ _ 1(2)] Cons.prems(3) obtain w' b' where
    2: "recv_loop x key rt (pos + length c) (word_of_nat (pos + length c)) w1 = (Inr (rt_size rt), w')"
    "ready (rt_path rt) content (length content) w'" "wire x key ps b'" "c_in (w_conn w') = b' @ r" by auto
  have "pos < length content" using c by (cases "pos < length content") auto
  then have "(word_of_nat pos :: 64 word) < rt_size rt"
    using size by (simp add: word_less_nat_alt unat_of_nat)
  with 1(1) 2 show ?case by (subst recv_loop.simps) auto
qed


text \<open>Before the first chunk: the directory can be made, and the local file is absent or stale when the
  transfer starts from the beginning, or a part that agrees up to the offset when it resumes.\<close>

definition can_receive :: "path \<Rightarrow> path \<Rightarrow> bytes \<Rightarrow> 64 word \<Rightarrow> xfer \<Rightarrow> bool" where
  "can_receive dir p content off w \<longleftrightarrow> faults (w_db w) = [] \<and> fs_faults (x_fs w) = [] \<and> dir \<noteq> p
     \<and> (case fs_nodes (x_fs w) dir of Some (FileNode _) \<Rightarrow> False | _ \<Rightarrow> True)
     \<and> (case fs_nodes (x_fs w) p of Some (DirNode _) \<Rightarrow> False
        | Some (FileNode b) \<Rightarrow> off = 0 \<or> unat off \<le> length b \<and> length b \<le> length content \<and> take (unat off) b = take (unat off) content
        | None \<Rightarrow> off = 0)"

lemma open_ok:
  assumes "can_receive dir p content off w"
  shows "\<exists>w1 w2. on_fs (create_dir_all dir) w = (Inr (), w1) \<and> on_fs (file_open_write (off = 0) p) w1 = (Inr (), w2)
    \<and> ready p content (unat off) w2 \<and> w_conn w2 = w_conn w"
proof -
  define s1 where "s1 = (x_fs w)\<lparr>fs_nodes := (case fs_nodes (x_fs w) dir of None \<Rightarrow> (fs_nodes (x_fs w))(dir \<mapsto> DirNode 0)
      | Some _ \<Rightarrow> fs_nodes (x_fs w))\<rparr>"
  have f: "faults (w_db w) = []" "fs_faults (x_fs w) = []" "fs_faults s1 = []"
    using assms by (simp_all add: can_receive_def s1_def)
  have 1: "create_dir_all dir (x_fs w) = (Inr (), s1)"
    using assms by (auto simp: can_receive_def create_dir_all_def fs_no_faults s1_def split: option.splits node.splits)
  have p: "fs_nodes s1 p = fs_nodes (x_fs w) p"
    using assms by (auto simp: can_receive_def s1_def split: option.splits)
  have "\<exists>s2. file_open_write (off = 0) p s1 = (Inr (), s2) \<and> fs_faults s2 = []
      \<and> (\<exists>b. fs_nodes s2 p = Some (FileNode b) \<and> unat off \<le> length b \<and> length b \<le> length content
          \<and> take (unat off) b = take (unat off) content)"
    using assms p f(3) by (auto simp: can_receive_def file_open_write_def fs_no_faults split: option.splits node.splits)
  with 1 f(1) show ?thesis by (auto simp: on_fs_def ready_def)
qed

lemma history_row_ok:
  assumes "ready p content pos w"
  shows "\<exists>i w'. history_row tid peer f rp lp sz off w = (Inr i, w') \<and> ready p content pos w' \<and> w_conn w' = w_conn w"
proof -
  have f: "faults (w_db w) = []" using assms by (simp add: ready_def)
  show ?thesis
    using assms f
    by (cases "x_hist w")
      (simp_all add: history_row_def act_bind_run act_get_def act_ret_def act_mod_def x_now_run set_transfer_status_def
        execute_no_faults x_db_def insert_transfer_def db_exec_no_faults ready_db)
qed

lemma finish_complete_ok:
  assumes "faults (w_db w) = []"
  shows "\<exists>w'. finish_complete rt n now w = (Inr (), w') \<and> x_fs w' = x_fs w
    \<and> EvComplete (rt_tid rt) (rt_name rt) (rt_path rt) (rt_peer rt) \<in> set (x_events w')"
  using assms
  by (auto simp: finish_complete_def act_bind_run update_transfer_status_def execute_no_faults on_queue_run emit_run
      notify_enabled_def get_setting_def x_db_def query_no_faults notify_transfer_complete_def act_ret_def)

lemma ready_complete:
  "ready p content (length content) w \<Longrightarrow> fs_nodes (x_fs w) p = Some (FileNode content) \<and> fs_faults (x_fs w) = [] \<and> faults (w_db w) = []"
  by (auto simp: ready_def)

lemma await_file_ok:
  fixes x j key p content off dl name
  defines "dir \<equiv> path_join dl name" and "lp \<equiv> path_join (path_join dl name) (file_name_or ''file'' p)"
  assumes laws: "seal_ok x" "random_ok x" "reply_json_ok j" and size: "length content < 2 ^ 63"
    and w: "wire x key (served x j p content off) b" "c_in (w_conn w) = b @ r" and can: "can_receive dir lp content off w"
  shows "\<exists>w'. await_file x j key tid peer rp dl name t w = (Inr lp, w') \<and> fs_nodes (x_fs w') lp = Some (FileNode content)
    \<and> EvComplete tid (file_name_or ''file'' p) lp name \<in> set (x_events w')"
proof -
  let ?n = "file_name_or ''file'' p" and ?sz = "word_of_nat (length content) :: 64 word"
  let ?done = "TransferComplete (to_hex (x_sha256 x content))"
  have start: "j_unmsg j (j_msg j (TransferStart ?n ?sz off)) = Some (TransferStart ?n ?sz off)"
    and fin: "j_unmsg j (j_msg j ?done) = Some ?done" using laws(3) by (simp_all add: reply_json_ok_def)
  obtain b1 where 1: "recv_msg x j key w = (Inr (TransferStart ?n ?sz off), w\<lparr>w_conn := (w_conn w)\<lparr>c_in := b1 @ r\<rparr>\<rparr>)"
    "wire x key (chunks_of CHUNK_SIZE (drop (unat off) content) @ [j_msg j ?done]) b1"
    using recv_msg_wire [OF laws(1,2) start w(1) [unfolded served_def] w(2)] by blast
  define w1 where "w1 = w\<lparr>w_conn := (w_conn w)\<lparr>c_in := b1 @ r\<rparr>\<rparr>"
  have "can_receive dir lp content off w1" using can by (simp add: w1_def can_receive_def)
  from open_ok [OF this] obtain w2 w3 where 2: "on_fs (create_dir_all dir) w1 = (Inr (), w2)"
    "on_fs (file_open_write (off = 0) lp) w2 = (Inr (), w3)" "ready lp content (unat off) w3" "w_conn w3 = w_conn w1" by blast
  obtain i w4 where 4: "history_row tid peer ?n rp lp ?sz off w3 = (Inr i, w4)" "ready lp content (unat off) w4"
    "w_conn w4 = w_conn w3" using history_row_ok [OF 2(3)] by blast
  define rt where "rt = \<lparr> rt_hist = i, rt_tid = tid, rt_path = lp, rt_name = ?n, rt_peer = name, rt_size = ?sz \<rparr>"
  define w5 where "w5 = w4\<lparr>x_queue := queue_push \<lparr> qe_transfer_id = tid, qe_filename = ?n, qe_remote_path = rp,
         qe_peer_name = name, qe_status = InProgress, qe_bytes_received = off, qe_total = ?sz, qe_started_at = t \<rparr> (x_queue w4)\<rparr>"
  have in5: "c_in (w_conn w5) = b1 @ r" and r5: "ready (rt_path rt) content (unat off) w5"
    using 2 4 by (simp_all add: w5_def w1_def rt_def)
  have "0 < CHUNK_SIZE" by (simp add: CHUNK_SIZE_def)
  from recv_loop_ok [OF laws(1,2) _ size 1(2) in5 chunks_of_ne concat_chunks_of [OF this] r5] obtain w6 b6 where
    6: "recv_loop x key rt (unat off) off w5 = (Inr ?sz, w6)" "ready lp content (length content) w6"
    "wire x key [j_msg j ?done] b6" "c_in (w_conn w6) = b6 @ r" by (auto simp: rt_def)
  obtain b7 where 7: "recv_msg x j key w6 = (Inr ?done, w6\<lparr>w_conn := (w_conn w6)\<lparr>c_in := b7 @ r\<rparr>\<rparr>)"
    using recv_msg_wire [OF laws(1,2) fin 6(3,4)] by blast
  define w7 where "w7 = w6\<lparr>w_conn := (w_conn w6)\<lparr>c_in := b7 @ r\<rparr>\<rparr>"
  have r7: "fs_nodes (x_fs w7) lp = Some (FileNode content)" "fs_faults (x_fs w7) = []" "faults (w_db w7) = []"
    using ready_complete [OF 6(2)] by (simp_all add: w7_def)
  obtain w8 where 8: "finish_complete rt ?sz (x_clock w7) w7 = (Inr (), w8)" "x_fs w8 = x_fs w7"
    "EvComplete tid ?n lp name \<in> set (x_events w8)"
    using finish_complete_ok [OF r7(3), of rt ?sz "x_clock w7"] by (auto simp: rt_def)
  have lp: "path_join dir ?n = lp" by (simp add: lp_def dir_def)
  have "await_file x j key tid peer rp dl name t w = (Inr lp, w8)"
    using 1(1) 2(1,2) 4(1) 6(1) 7 8(1) sha256_content [OF r7(2,1)]
    by (simp add: await_file_def receive_file_def start_reply_def complete_reply_def act_bind_run act_lift_def Let_def
        dir_def [symmetric] lp on_queue_run x_now_run act_ret_def w1_def [symmetric] w5_def [symmetric]
        rt_def [symmetric] w7_def [symmetric] del: on_fs_run)
  with 8 r7 show ?thesis by auto
qed

text \<open>
  C4.  A transfer delivers the file, from the beginning or resumed: when the serving machine may
  serve the file and nothing fails, and its output reaches the requesting machine, whose local part
  agrees with the file up to the offset, then the server finishes, the request returns the local path,
  the file there is byte for byte the served one, and its completion is announced.
\<close>

theorem transfer_delivers:
  assumes "seal_ok x" "random_ok x" "seal_total x" "reply_json_ok j"
    and "can_serve x j key p content off s" and "serve_one_file x j key p off s = (rs, s')"
    and "c_in (w_conn w) = drop (length (c_out (w_conn s))) (c_out (w_conn s')) @ rest"
    and "can_receive (path_join dl name) (path_join (path_join dl name) (file_name_or ''file'' p)) content off w"
    and "await_file x j key tid peer rp dl name t w = (rc, w')"
  shows "rs = Inr () \<and> rc = Inr (path_join (path_join dl name) (file_name_or ''file'' p))
    \<and> fs_nodes (x_fs w') (path_join (path_join dl name) (file_name_or ''file'' p)) = Some (FileNode content)
    \<and> EvComplete tid (file_name_or ''file'' p) (path_join (path_join dl name) (file_name_or ''file'' p)) name \<in> set (x_events w')"
proof -
  from serve_one_file_ok [OF assms(3,2,5)] assms(6) obtain b where rs: "rs = Inr ()"
    and b: "wire x key (served x j p content off) b" and out: "c_out (w_conn s') = c_out (w_conn s) @ b"
    by (auto simp: sends_def)
  have "length content < 2 ^ 63" "c_in (w_conn w) = b @ rest"
    using assms(5,7) out by (simp_all add: can_serve_def)
  from await_file_ok [OF assms(1,2,4) this(1) b this(2) assms(8), of tid peer rp t] rs assms(9)
  show ?thesis by auto
qed


section \<open>Integrity\<close>

lemma finish_complete_frame:
  "finish_complete rt n now w = (r, w') \<Longrightarrow> x_fs w' = x_fs w \<and> w_conn w' = w_conn w"
  by (auto simp: finish_complete_def act_simps notify_enabled_def notify_transfer_complete_def split: prod.splits sum.splits if_splits)

lemma sha256_Inr:
  assumes "sha256_of_file x p w = (Inr h, w')"
  shows "\<exists>b. fs_nodes (x_fs w') p = Some (FileNode b) \<and> h = to_hex (x_sha256 x b) \<and> w_conn w' = w_conn w"
  using assms
  by (auto simp: sha256_of_file_def act_simps file_open_def file_read_def fs_call_def Let_def
      split: prod.splits sum.splits if_splits option.splits node.splits)

text \<open>What is left to read is a suffix of what there was.\<close>

definition unread :: "bytes \<Rightarrow> xfer \<Rightarrow> bool" where
  "unread z w \<longleftrightarrow> suffix (c_in (w_conn w)) z"

lemma read_plain_suffix: "suffix (c_in (snd (read_plain c))) (c_in c)"
  by (auto simp: read_plain_def read_exact_def act_simps Let_def suffix_drop intro: suffix_order.trans)

lemma unread_steps [keeps_intros]:
  "keeps (unread z) (x_db m)" "keeps (unread z) (on_queue g)" "keeps (unread z) (emit e)" "keeps (unread z) (on_fs k)"
  "keeps (unread z) x_now" "keeps (unread z) (act_mod (\<lambda>w. w\<lparr>x_hist := h\<rparr>))"
  by (auto simp: keeps_def unread_def act_simps split: prod.splits)

lemma unread_recv [keeps_intros]: "keeps (unread z) (recv_bytes x key)"
proof -
  have "suffix (c_in (snd (read_enc x key c))) (c_in c)" for c
    using read_plain_suffix [of c] by (auto simp: read_enc_def act_simps split: prod.splits sum.splits)
  then show ?thesis
    by (auto simp: keeps_def unread_def recv_bytes_def act_simps split: prod.splits) (metis snd_conv suffix_order.trans)
qed

lemma unread_recv_loop [keeps_intros]: "keeps (unread z) (recv_loop x key rt pos n)"
  by (intro keeps_recv_loop) (auto simp: recv_chunk_def Let_def intro!: keeps_intros)

lemma unread_history_row [keeps_intros]: "keeps (unread z) (history_row tid peer f rp lp sz off)"
  unfolding history_row_def by (auto intro!: keeps_intros)

lemma complete_reply_Inr: "complete_reply j m = Inr c \<Longrightarrow> m = TransferComplete c"
  by (cases m) (simp_all add: complete_reply_def)

text \<open>
  C12.  No request succeeds with wrong content: whatever the peer sends and whatever fails, when a
  request returns a path, the last message taken from what arrived was the peer's completion
  message, and the file at that path, as it is then on disk, has the checksum this message announced.
\<close>

theorem request_verified:
  assumes "receive_file x j key tid peer rp dl name t reply w = (Inr p, w')"
  shows "\<exists>b v u. fs_nodes (x_fs w') p = Some (FileNode b)
    \<and> recv_msg x j key v = (Inr (TransferComplete (to_hex (x_sha256 x b))), u) \<and> w_conn u = w_conn w'
    \<and> suffix (c_in (w_conn v)) (c_in (w_conn w)) \<and> p = path_join (path_join dl name) (fst reply)"
proof -
  obtain n sz off where reply: "reply = (n, sz, off)" by (cases reply)
  let ?lp = "path_join (path_join dl name) n"
  from assms obtain a1 a2 a3 a4 w1 w2 w3 w4 q rt m v u u2 h v1 v2 got c now
    where runs: "on_fs (create_dir_all (path_join dl name)) w = (Inr a1, w1)" "on_fs (file_open_write (off = 0) ?lp) w1 = (Inr a2, w2)"
      "history_row tid peer n rp ?lp sz off w2 = (Inr a3, w3)" "on_queue q w3 = (Inr a4, w4)"
      "recv_loop x key rt (unat off) off w4 = (Inr got, v)"
    and m: "recv_msg x j key v = (Inr m, u)"
    and c0: "act_lift (complete_reply j m) u = (Inr c, u2)" and h0: "sha256_of_file x ?lp u2 = (Inr h, v1)"
    and now: "x_now v1 = (Inr now, v2)"
    and fin0: "(if h = c then act_then (finish_complete rt got now) (act_ret ?lp) else finish_failed rt now) v2 = (Inr p, w')"
    unfolding receive_file_def reply Let_def prod.case
    by (elim act_bind_Inr act_then_Inr) (rule that)
  have "unread (c_in (w_conn w)) w" by (simp add: unread_def)
  from keepsE [OF unread_steps(4) runs(1) this] have "unread (c_in (w_conn w)) w1" .
  from keepsE [OF unread_steps(4) runs(2) this] have "unread (c_in (w_conn w)) w2" .
  from keepsE [OF unread_history_row runs(3) this] have "unread (c_in (w_conn w)) w3" .
  from keepsE [OF unread_steps(2) runs(4) this] have "unread (c_in (w_conn w)) w4" .
  from keepsE [OF unread_recv_loop runs(5) this] have uv: "unread (c_in (w_conn w)) v" .
  have c: "complete_reply j m = Inr c" and h: "sha256_of_file x ?lp u = (Inr h, v1)"
    and fin: "(if h = c then act_then (finish_complete rt got now) (act_ret ?lp) else finish_failed rt now) v1 = (Inr p, w')"
    using c0 h0 now fin0 by (simp_all add: act_lift_def x_now_run)
  have "h = c" using fin by (rule contrapos_pp) (auto simp: finish_failed_def act_simps split: prod.splits sum.splits)
  with fin obtain q where "finish_complete rt got now v1 = (q, w')" "p = ?lp"
    by (auto simp: act_simps split: prod.splits sum.splits)
  with finish_complete_frame [OF this(1)] sha256_Inr [OF h] complete_reply_Inr [OF c] m \<open>h = c\<close>
  show ?thesis using uv by (fastforce simp: reply unread_def)
qed

lemma takeWhile_ones: "takeWhile (\<lambda>x. x = 1) (replicate n 1 @ 0 # r) = replicate n (1 :: byte)"
  by (induction n) simp_all

lemma toy_transfer_ok: "seal_total toy_ext" "reply_json_ok toy_transfer_json"
  by (auto simp: seal_total_def toy_ext_def reply_json_ok_def toy_transfer_json_def takeWhile_ones Let_def)

lemma transfer_delivers_witness:
  "\<exists>s'. serve_one_file toy_ext toy_transfer_json (replicate 32 1) ''/pub/a'' 1 (toy_xfer [] (toy_nodes [2])) = (Inr (), s')
     \<and> fs_nodes (x_fs (snd (await_file toy_ext toy_transfer_json (replicate 32 1) ''t'' ''alice'' ''/pub/a'' ''/dl'' ''bob'' 0
           (toy_xfer (c_out (w_conn s')) [''/dl/bob/a'' \<mapsto> FileNode [7]])))) ''/dl/bob/a'' = Some (FileNode [7, 8, 9])"
proof -
  let ?s = "toy_xfer [] (toy_nodes [2])" and ?k = "replicate 32 1"
  obtain rs s' where run: "serve_one_file toy_ext toy_transfer_json ?k ''/pub/a'' 1 ?s = (rs, s')" by fastforce
  let ?w = "toy_xfer (c_out (w_conn s')) [''/dl/bob/a'' \<mapsto> FileNode [7]]"
  have paths: "path_join ''/dl'' ''bob'' = ''/dl/bob''" "file_name_or ''file'' ''/pub/a'' = ''a''"
    "path_join ''/dl/bob'' ''a'' = ''/dl/bob/a''" "is_path_allowed Some ''/pub/a'' [''/pub'']" by code_simp+
  have serve: "can_serve toy_ext toy_transfer_json ?k ''/pub/a'' [7, 8, 9] 1 ?s"
    using paths by (simp add: can_serve_def toy_xfer_def toy_nodes_def idle_def db_empty_def toy_transfer_json_def toy_ext_def length_to_hex)
  have receive: "can_receive (path_join ''/dl'' ''bob'') (path_join (path_join ''/dl'' ''bob'') (file_name_or ''file'' ''/pub/a''))
      [7, 8, 9] 1 ?w"
    unfolding paths by (simp add: can_receive_def toy_xfer_def db_empty_def)
  have cin: "c_in (w_conn ?w) = drop (length (c_out (w_conn ?s))) (c_out (w_conn s')) @ []"
    by (simp add: toy_xfer_def idle_def)
  from transfer_delivers [OF toy_ext_ok(2,4) toy_transfer_ok serve run cin receive prod.collapse [symmetric], of "''t''" "''alice''" "''/pub/a''" 0]
    run
  show ?thesis unfolding paths by auto
qed


lemma recv_loop_stop: "\<not> n < rt_size rt \<Longrightarrow> recv_loop x key rt pos n w = (Inr n, w)"
  by (simp add: recv_loop.simps)

lemma request_verified_witness:
  "\<exists>b v u w'. receive_file toy_ext toy_transfer_json [1] ''t'' ''alice'' ''/pub/a'' ''/dl'' ''bob'' 0 (''a'', 0, 0)
       (toy_xfer (frame_of (replicate 12 0 @ [1, 2])) Map.empty) = (Inr ''/dl/bob/a'', w')
     \<and> fs_nodes (x_fs w') ''/dl/bob/a'' = Some (FileNode b)
     \<and> recv_msg toy_ext toy_transfer_json [1] v = (Inr (TransferComplete (to_hex (x_sha256 toy_ext b))), u)"
proof -
  let ?b = "frame_of (replicate 12 0 @ [1, 2])"
  have r: "read_plain (idle ?b) = (Inr (replicate 12 0 @ [1, 2]), idle [])"
    using read_plain_frame [of "replicate 12 0 @ [1, 2]" "idle ?b" "[]"] by (simp add: idle_def MAX_FRAME_BYTES_def)
  have d: "decrypt toy_ext [1] (replicate 12 0 @ [1, 2]) = Inr [2]" by (simp add: decrypt_def toy_ext_def)
  have h: "to_hex (x_sha256 toy_ext []) = []" by (simp add: toy_ext_def to_hex_def)
  have paths: "path_join ''/dl'' ''bob'' = ''/dl/bob''" "path_join ''/dl/bob'' ''a'' = ''/dl/bob/a''" by code_simp+
  have "\<exists>w'. receive_file toy_ext toy_transfer_json [1] ''t'' ''alice'' ''/pub/a'' ''/dl'' ''bob'' 0 (''a'', 0, 0)
      (toy_xfer ?b Map.empty) = (Inr ''/dl/bob/a'', w')"
    by (simp add: receive_file_def act_simps Let_def paths create_dir_all_def file_open_write_def fs_call_def toy_xfer_def
        history_row_def insert_transfer_def db_exec_def db_empty_def recv_loop_stop recv_msg_def recv_bytes_def read_enc_def
        r d h unchars_def toy_transfer_json_def complete_reply_def sha256_of_file_def file_open_def file_read_def finish_complete_def
        update_transfer_status_def sql_execute_def change_transfer_def notify_enabled_def get_setting_def sql_query_def
        notify_transfer_complete_def)
  then obtain w' where run: "receive_file toy_ext toy_transfer_json [1] ''t'' ''alice'' ''/pub/a'' ''/dl'' ''bob'' 0 (''a'', 0, 0)
      (toy_xfer ?b Map.empty) = (Inr ''/dl/bob/a'', w')" by blast
  from request_verified [OF run] run show ?thesis by blast
qed

end
