(* ===== verification/Transfer_Retry.thy ===== *)
theory Transfer_Retry
  imports Transfer_Safety
begin

text \<open>
  The retry loop is bounded: at most seven attempts, one connection each, with the pauses of the
  backoff table between them; and a batch accounts for every file.
\<close>

section \<open>What a request leaves alone\<close>

definition quiet :: "nat list \<Rightarrow> conn option list \<Rightarrow> xfer \<Rightarrow> bool" where
  "quiet s d w \<longleftrightarrow> x_sleeps w = s \<and> x_dials w = d"

lemma quiet_upd [simp]:
  "quiet s d (w\<lparr>w_conn := c\<rparr>) = quiet s d w" "quiet s d (w\<lparr>w_db := b\<rparr>) = quiet s d w"
  "quiet s d (w\<lparr>w_seed := n\<rparr>) = quiet s d w" "quiet s d (w\<lparr>x_queue := t\<rparr>) = quiet s d w"
  "quiet s d (w\<lparr>x_events := es\<rparr>) = quiet s d w" "quiet s d (w\<lparr>x_fs := f\<rparr>) = quiet s d w"
  "quiet s d (w\<lparr>x_hist := h\<rparr>) = quiet s d w"
  by (simp_all add: quiet_def)

lemma quiet_primitives [keeps_intros]:
  "keeps (quiet s d) (x_db m)" "keeps (quiet s d) (on_queue g)" "keeps (quiet s d) (emit e)" "keeps (quiet s d) (on_fs k)"
  "keeps (quiet s d) x_draw" "keeps (quiet s d) x_now" "keeps (quiet s d) notify_enabled"
  "keeps (quiet s d) (act_mod (\<lambda>w. w\<lparr>x_hist := h\<rparr>))"
  by (auto simp: keeps_def act_simps notify_enabled_def split: prod.splits)

lemma quiet_session [keeps_intros]: "keeps (quiet s d) m \<Longrightarrow> keeps (quiet s d) (on_session m)"
  unfolding on_session_def by (rule keeps_outcome)

lemma quiet_conn [keeps_intros]: "keeps (quiet s d) (on_conn m)"
  by (auto simp: keeps_def on_conn_def split: prod.splits)

lemma quiet_wire [keeps_intros]:
  "keeps (quiet s d) (send_msg x j key m)" "keeps (quiet s d) (recv_msg x j key)" "keeps (quiet s d) (recv_bytes x key)"
  "keeps (quiet s d) (sha256_of_file x p)" "keeps (quiet s d) (peer_key peer)"
  unfolding send_msg_def send_bytes_def recv_msg_def recv_bytes_def sha256_of_file_def peer_key_def
  by (auto intro!: keeps_intros)

lemma quiet_handshake [keeps_intros]: "keeps (quiet s d) (session_handshake_client x j i ident k)"
  unfolding session_handshake_client_def by (auto intro!: keeps_intros split: server_hello.split)

lemma quiet_recv_loop [keeps_intros]: "keeps (quiet s d) (recv_loop x key rt pos n)"
  by (intro keeps_recv_loop) (auto simp: recv_chunk_def Let_def intro!: keeps_intros)

lemma quiet_finish [keeps_intros]:
  "keeps (quiet s d) (finish_complete rt n now)" "keeps (quiet s d) (finish_failed rt now :: 'a x_act)"
  "keeps (quiet s d) (history_row tid peer f rp lp sz off)"
  unfolding finish_complete_def finish_failed_def notify_transfer_complete_def history_row_def
  by (auto intro!: keeps_intros)

lemma quiet_receive_file [keeps_intros]: "keeps (quiet s d) (receive_file x j key tid peer rp dl name t reply)"
  unfolding receive_file_def Let_def by (auto intro!: keeps_intros split: prod.split)

lemma quiet_await_file [keeps_intros]: "keeps (quiet s d) (await_file x j key tid peer rp dl name t)"
  unfolding await_file_def by (auto intro!: keeps_intros)

section \<open>Attempts\<close>

text \<open>One attempt is one connection, made or refused.\<close>

lemma request_transfer_dials:
  assumes "request_transfer x j ident tid peer rp off dl name w = (r, w')"
  shows "quiet (x_sleeps w) (tl (x_dials w)) w'"
proof -
  let ?q = "quiet (x_sleeps w) (tl (x_dials w))"
  define w1 where "w1 = w\<lparr>x_queue := queue_push \<lparr> qe_transfer_id = tid, qe_filename = file_name_or ''file'' rp,
         qe_remote_path = rp, qe_peer_name = name, qe_status = Queued,
         qe_bytes_received = off, qe_total = 0, qe_started_at = x_clock w \<rparr> (x_queue w)\<rparr>"
  have dials: "?q (snd (connect w1))"
    by (auto simp: connect_def w1_def quiet_def split: list.splits option.splits)
  have rest: "keeps ?q (act_bind (peer_key peer) (\<lambda>peer_pubkey.
     act_bind (on_session (session_handshake_client x (handshake_part j) (id_device_id ident) ident peer_pubkey)) (\<lambda>key.
     act_then (send_msg x j key (TransferRequest rp off))
       (await_file x j key tid peer rp dl name (x_clock w)))))" (is "keeps _ ?m")
    by (auto intro!: keeps_intros)
  obtain q w2 where c: "connect w1 = (q, w2)" by fastforce
  have "(r, w') = (case q of Inl e \<Rightarrow> (Inl e, w2) | Inr _ \<Rightarrow> ?m w2)"
    using assms c by (simp add: request_transfer_def act_bind_run(1,2) x_now_run on_queue_run w1_def [symmetric] split: sum.splits)
  with dials keepsD [OF rest, of w2] c show ?thesis by (cases q) (auto, metis snd_conv)
qed

lemma quiet_bytes_of_row [keeps_intros]: "keeps (quiet s d) (bytes_of_row h)"
  unfolding bytes_of_row_def by (auto intro!: keeps_intros)

lemma bytes_of_row_Inr: "\<exists>v u. bytes_of_row h w = (Inr v, u)"
  by (auto simp: bytes_of_row_def act_simps split: option.split prod.split)

lemma back_off_run:
  "back_off j tid off attempt delay e w = (q, w') \<Longrightarrow>
   (\<exists>n. q = Inr n) \<and> quiet (x_sleeps w @ [delay]) (x_dials w) w'"
proof -
  assume a: "back_off j tid off attempt delay e w = (q, w')"
  define m :: "unit x_act" where "m = act_then (case x_hist w of None \<Rightarrow> act_ret ()
      | Some i \<Rightarrow> act_ignore (x_db (set_transfer_status i ''partial'')))
     (act_then (on_queue (queue_update tid Partial off)) (emit (EvRetry tid (attempt + 1) delay (j_errtext j e))))"
  define w1 where "w1 = snd (m w)"
  have "keeps (quiet (x_sleeps w) (x_dials w)) m"
    unfolding m_def by (auto intro!: keeps_intros)
  from keepsD [OF this, of w] have "quiet (x_sleeps w) (x_dials w) w1"
    by (simp add: w1_def quiet_def)
  then have q: "quiet (x_sleeps w @ [delay]) (x_dials w) (w1\<lparr>x_sleeps := x_sleeps w1 @ [delay]\<rparr>)"
    by (simp add: quiet_def)
  obtain v u where b: "bytes_of_row (x_hist w) (w1\<lparr>x_sleeps := x_sleeps w1 @ [delay]\<rparr>) = (Inr v, u)"
    using bytes_of_row_Inr by blast
  from keepsE [OF quiet_bytes_of_row b q] a b show ?thesis
    by (cases "x_hist w") (auto simp: back_off_def act_simps w1_def m_def sleep_def)
qed

lemma give_up_run: "give_up j tid e w = (q, w') \<Longrightarrow> q = Inl e \<and> quiet (x_sleeps w) (x_dials w) w'"
proof -
  assume a: "give_up j tid e w = (q, w')"
  have "keeps (quiet (x_sleeps w) (x_dials w)) (give_up j tid e)"
    unfolding give_up_def Let_def by (auto intro!: keeps_intros split: option.split)
  from keepsE [OF this a] have "quiet (x_sleeps w) (x_dials w) w'" by (simp add: quiet_def)
  moreover have "q = Inl e"
    using a bytes_of_row_Inr
    by (auto simp: give_up_def act_simps Let_def split: option.splits prod.splits sum.splits) (metis Inl_Inr_False fst_conv)+
  ultimately show ?thesis by simp
qed

lemma retry_loop_run:
  assumes once: "\<And>off w r w'. try_once off w = (r, w') \<Longrightarrow> quiet (x_sleeps w) (tl (x_dials w)) w'"
  shows "retry_loop j tid try_once ds attempt off w = (r, w') \<Longrightarrow>
    \<exists>k \<le> length ds. x_sleeps w' = x_sleeps w @ take k ds \<and> x_dials w' = drop (Suc k) (x_dials w)
       \<and> (is_ok r \<or> k = length ds)"
proof (induction ds arbitrary: attempt off w)
  case Nil
  obtain q w1 where t: "try_once off w = (q, w1)" by fastforce
  note o = once [OF t]
  show ?case
  proof (cases q)
    case (Inl e)
    with Nil t have "give_up j tid e w1 = (r, w')" by simp
    from give_up_run [OF this] o show ?thesis by (auto simp: quiet_def drop_Suc)
  next
    case (Inr p)
    with Nil t o show ?thesis by (auto simp: quiet_def drop_Suc)
  qed
next
  case (Cons delay ds)
  obtain q w1 where t: "try_once off w = (q, w1)" by fastforce
  note o = once [OF t]
  show ?case
  proof (cases q)
    case (Inl e)
    obtain b w2 where b: "back_off j tid off attempt delay e w1 = (b, w2)" by fastforce
    from back_off_run [OF b] obtain n where n: "b = Inr n" "quiet (x_sleeps w1 @ [delay]) (x_dials w1) w2" by blast
    with Cons.prems t Inl b have "retry_loop j tid try_once ds (attempt + 1) n w2 = (r, w')" by simp
    from Cons.IH [OF this] obtain k where "k \<le> length ds" "x_sleeps w' = x_sleeps w2 @ take k ds"
      "x_dials w' = drop (Suc k) (x_dials w2)" "is_ok r \<or> k = length ds" by blast
    with n o show ?thesis by (intro exI [where x = "Suc k"]) (auto simp: quiet_def drop_Suc drop_tl)
  next
    case (Inr p)
    with Cons.prems t o show ?thesis by (intro exI [where x = 0]) (auto simp: quiet_def drop_Suc)
  qed
qed


text \<open>
  C27.  A request with retries always ends, within seven attempts: when the lookup of an earlier
  partial transfer fails nothing is tried; otherwise there are \<open>k + 1\<close> attempts for some \<open>k\<close> up to six,
  each opening one connection, with the first \<open>k\<close> pauses 1, 2, 4, 8, 16, 30 seconds between them,
  and an error is reported only after the seventh.
\<close>

theorem retry_bounded:
  "case request_transfer_with_retry x j ident peer rp dl name w of (r, w') \<Rightarrow>
     (case find_partial_transfer peer rp (w_db w) of
        (Inl e, _) \<Rightarrow> r = Inl (XDb e) \<and> x_sleeps w' = x_sleeps w \<and> x_dials w' = x_dials w
      | (Inr _, _) \<Rightarrow> \<exists>k. k \<le> 6 \<and> x_sleeps w' = x_sleeps w @ take k [1, 2, 4, 8, 16, 30]
          \<and> x_dials w' = drop (k + 1) (x_dials w) \<and> (is_ok r \<or> k = 6))"
proof -
  obtain q d where f: "find_partial_transfer peer rp (w_db w) = (q, d)" by fastforce
  obtain r w' where run: "request_transfer_with_retry x j ident peer rp dl name w = (r, w')" by fastforce
  show ?thesis
  proof (cases q)
    case (Inl e)
    with run f show ?thesis by (auto simp: request_transfer_with_retry_def act_simps)
  next
    case (Inr found)
    from run f Inr obtain tid h off v where
      l: "retry_loop j tid (\<lambda>off. request_transfer x j ident tid peer rp off dl name) RETRY_DELAYS_SECS 0 off v = (r, w')"
      and v: "x_sleeps v = x_sleeps w" "x_dials v = x_dials w"
      by (auto simp: request_transfer_with_retry_def act_simps split: prod.splits option.splits)
    have "\<exists>k \<le> length RETRY_DELAYS_SECS. x_sleeps w' = x_sleeps v @ take k RETRY_DELAYS_SECS
        \<and> x_dials w' = drop (Suc k) (x_dials v) \<and> (is_ok r \<or> k = length RETRY_DELAYS_SECS)"
      by (rule retry_loop_run [OF _ l]) (erule request_transfer_dials)
    moreover have "length RETRY_DELAYS_SECS = 6" by (simp add: RETRY_DELAYS_SECS_def)
    ultimately show ?thesis using v run f Inr by (simp add: RETRY_DELAYS_SECS_def [symmetric] Suc_eq_plus1 del: One_nat_def)
  qed
qed

section \<open>Batches\<close>

lemma request_each_count:
  "\<exists>n got' w'. request_each x j ident peer dl name ps skipped got w = (Inr (n, got'), w')
     \<and> length got' + n = length got + skipped + length ps"
proof (induction ps arbitrary: skipped got w)
  case (Cons p ps)
  obtain q v where t: "request_transfer_with_retry x j ident peer p dl name w = (q, v)" by fastforce
  show ?case
  proof (cases q)
    case (Inl e)
    with Cons [of "skipped + 1" got v] t show ?thesis by (simp add: act_simps)
  next
    case (Inr a)
    with Cons [of skipped "got @ [a]" v] t show ?thesis by (simp add: act_simps)
  qed
qed (simp add: act_simps)

text \<open>
  A batch request always returns and accounts for every file: the files fetched and the
  number reported as skipped add up to the number asked for, which the closing event names.
\<close>

theorem batch_accounts_for_all:
  "case request_batch_transfer_with_retry x j ident peer ps dl name w of (r, w') \<Rightarrow>
     \<exists>paths skipped. r = Inr paths \<and> length paths + skipped = length ps
       \<and> x_events w' \<noteq> [] \<and> last (x_events w') = EvBatch (length ps) skipped name"
proof -
  obtain n got' w' where "request_each x j ident peer dl name ps 0 [] w = (Inr (n, got'), w')"
    "length got' + n = length ps" using request_each_count [of x j ident peer dl name ps 0 "[]" w] by auto
  then show ?thesis by (simp add: request_batch_transfer_with_retry_def act_simps)
qed

end
