(* ===== verification/Invite_Code.thy ===== *)
theory Invite_Code
  imports Rust_Std
begin

text \<open>
  Invite codes for manual pairing (\<^verbatim>\<open>network/manual_pair.rs\<close>): a 32-bit address and a 16-bit port as
  eleven base-25 characters.  Decoding is characterised exactly, encoding and decoding are inverse,
  and no single mistyped character can yield another address.
\<close>

unbundle bit_operations_syntax

section \<open>The code\<close>

definition ALPHABET :: "8 word list" where
  "ALPHABET = utf8 ''ACDEFGHJKLMNPQRTUVWXY3479''"

definition CODE_LEN :: nat where "CODE_LEN = 11"

definition DASH_AT :: nat where "DASH_AT = 5"

definition PAIRING_PORT :: "16 word" where "PAIRING_PORT = 42100"

text \<open>The digit slots, filled from the least significant one.\<close>

fun encode_digits :: "nat \<Rightarrow> 64 word \<Rightarrow> 8 word list" where
  "encode_digits 0 v = []"
| "encode_digits (Suc n) v = encode_digits n (v div 25) @ [ALPHABET ! unat (v mod 25)]"

definition byte_char :: "8 word \<Rightarrow> char" where
  "byte_char b = char_of (unat b)"

definition encode_invite :: "32 word \<Rightarrow> 16 word \<Rightarrow> string" where
  "encode_invite ip port = (
     let value = push_bit 16 (ucast ip :: 64 word) OR ucast port;
         digits = map byte_char (encode_digits CODE_LEN value)
     in take DASH_AT digits @ CHR ''-'' # drop DASH_AT digits)"

definition byte_is_ws :: "8 word \<Rightarrow> bool" where
  "byte_is_ws b \<longleftrightarrow> b = 9 \<or> b = 10 \<or> b = 12 \<or> b = 13 \<or> b = 32"

definition byte_upper :: "8 word \<Rightarrow> 8 word" where
  "byte_upper b = (if 97 \<le> b \<and> b \<le> 122 then b - 32 else b)"

definition cleaned :: "string \<Rightarrow> 8 word list" where
  "cleaned c = map byte_upper (filter (\<lambda>b. \<not> byte_is_ws b \<and> b \<noteq> 45) (utf8 c))"

fun position :: "'a \<Rightarrow> 'a list \<Rightarrow> nat option" where
  "position a [] = None"
| "position a (x # xs) = (if x = a then Some 0 else map_option Suc (position a xs))"

fun decode_digits :: "8 word list \<Rightarrow> 64 word \<Rightarrow> 64 word option" where
  "decode_digits [] v = Some v"
| "decode_digits (ch # cs) v = (case position ch ALPHABET of None \<Rightarrow> None
     | Some d \<Rightarrow> decode_digits cs (v * 25 + word_of_nat d))"

definition decode_invite :: "string \<Rightarrow> (32 word \<times> 16 word) option" where
  "decode_invite c = (let cl = cleaned c in
     if length cl \<noteq> CODE_LEN then None
     else case decode_digits cl 0 of None \<Rightarrow> None
       | Some value \<Rightarrow>
           let port = ucast (value AND 0xFFFF) in
           if port \<noteq> PAIRING_PORT then None
           else if unat (drop_bit 16 value) < 2 ^ 32 then Some (ucast (drop_bit 16 value), port) else None)"

section \<open>Base 25\<close>

definition num :: "nat \<Rightarrow> nat list \<Rightarrow> nat" where
  "num a ds = foldl (\<lambda>v d. v * 25 + d) a ds"

fun digits :: "nat \<Rightarrow> nat \<Rightarrow> nat list" where
  "digits 0 v = []"
| "digits (Suc n) v = digits n (v div 25) @ [v mod 25]"

lemma num_simps [simp]: "num a [] = a" "num a (d # ds) = num (a * 25 + d) ds"
  by (simp_all add: num_def)

lemma num_append: "num a (xs @ ys) = num (num a xs) ys"
  by (simp add: num_def)

lemma num_shift: "num a ds = a * 25 ^ length ds + num 0 ds"
proof (induction ds arbitrary: a)
  case (Cons d ds)
  from Cons [of "a * 25 + d"] Cons [of d] show ?case by (simp add: algebra_simps)
qed simp

lemma num_less: "list_all (\<lambda>d. d < 25) ds \<Longrightarrow> num 0 ds < 25 ^ length ds"
proof (induction ds)
  case (Cons d ds)
  then have "d * 25 ^ length ds \<le> 24 * 25 ^ length ds" by (intro mult_right_mono) auto
  moreover have "num 0 ds < 25 ^ length ds" using Cons by simp
  moreover have "num 0 (d # ds) = d * 25 ^ length ds + num 0 ds" using num_shift [of d ds] by simp
  ultimately show ?case unfolding length_Cons power_Suc by linarith
qed simp

lemma digits_less: "list_all (\<lambda>d. d < 25) (digits n v)"
  by (induction n arbitrary: v) simp_all

lemma length_digits [simp]: "length (digits n v) = n"
  by (induction n arbitrary: v) simp_all

lemma num_digits: "num 0 (digits n v) = v mod 25 ^ n"
proof (induction n arbitrary: v)
  case (Suc n)
  then show ?case by (simp add: num_append mod_mult2_eq)
qed simp

lemma digits_num: "list_all (\<lambda>d. d < 25) ds \<Longrightarrow> digits (length ds) (num 0 ds) = ds"
proof (induction ds rule: rev_induct)
  case (snoc d ds)
  then show ?case by (simp add: num_append div_mult_self3 add.commute)
qed simp

section \<open>The alphabet\<close>

lemma ALPHABET_eval:
  "ALPHABET = [65, 67, 68, 69, 70, 71, 72, 74, 75, 76, 77, 78, 80, 81, 82, 84, 85, 86, 87, 88, 89, 51, 52, 55, 57]"
  by code_simp

lemma length_ALPHABET [simp]: "length ALPHABET = 25"
  by (simp add: ALPHABET_eval)

lemma distinct_ALPHABET: "distinct ALPHABET"
  by (simp add: ALPHABET_eval)

lemma ALPHABET_clean:
  "b \<in> set ALPHABET \<Longrightarrow> \<not> byte_is_ws b \<and> b \<noteq> 45 \<and> byte_upper b = b \<and> unat b < 128"
  by (auto simp: ALPHABET_eval byte_is_ws_def byte_upper_def)

lemma position_nth: "position a xs = Some i \<Longrightarrow> i < length xs \<and> xs ! i = a"
  by (induction xs arbitrary: i) (auto split: if_splits)

lemma position_distinct: "distinct xs \<Longrightarrow> i < length xs \<Longrightarrow> position (xs ! i) xs = Some i"
proof (induction xs arbitrary: i)
  case (Cons x xs)
  then show ?case by (cases i) (auto dest: nth_mem)
qed simp

lemma position_ALPHABET: "position a ALPHABET = Some d \<longleftrightarrow> d < 25 \<and> ALPHABET ! d = a"
  using position_nth [of a ALPHABET d] position_distinct [OF distinct_ALPHABET, of d] by auto

section \<open>Decoding and encoding over digit lists\<close>

definition spell :: "nat list \<Rightarrow> 8 word list" where
  "spell ds = map (\<lambda>d. ALPHABET ! d) ds"

lemma decode_digits_iff:
  "decode_digits cs (word_of_nat a) = Some w
     \<longleftrightarrow> (\<exists>ds. list_all (\<lambda>d. d < 25) ds \<and> cs = spell ds \<and> w = word_of_nat (num a ds))"
proof (induction cs arbitrary: a)
  case (Cons c cs)
  show ?case
  proof (cases "position c ALPHABET")
    case None
    have "c \<noteq> ALPHABET ! d" if "d < 25" for d
      using None position_distinct [OF distinct_ALPHABET, of d] that by auto
    then show ?thesis by (auto simp: None spell_def Cons_eq_map_conv) (metis)
  next
    case (Some d)
    then have d: "d < 25" "ALPHABET ! d = c" by (auto simp: position_ALPHABET)
    have u: "e = d" if "e < 25" "c = ALPHABET ! e" for e
      using that d distinct_ALPHABET by (metis length_ALPHABET nth_eq_iff_index_eq)
    have "decode_digits (c # cs) (word_of_nat a) = decode_digits cs (word_of_nat (a * 25 + d))"
      by (simp add: Some)
    also have "\<dots> = Some w \<longleftrightarrow> (\<exists>ds. list_all (\<lambda>d. d < 25) ds \<and> cs = spell ds \<and> w = word_of_nat (num (a * 25 + d) ds))"
      by (rule Cons.IH)
    also have "\<dots> \<longleftrightarrow> (\<exists>ds. list_all (\<lambda>d. d < 25) ds \<and> c # cs = spell ds \<and> w = word_of_nat (num a ds))"
      (is "?l \<longleftrightarrow> ?r")
    proof
      assume ?l
      then obtain ds where "list_all (\<lambda>d. d < 25) ds" "cs = spell ds" "w = word_of_nat (num (a * 25 + d) ds)" by blast
      with d show ?r by (intro exI [where x = "d # ds"]) (simp add: spell_def)
    next
      assume ?r
      then obtain z zs where "z < 25" "c = ALPHABET ! z" "list_all (\<lambda>d. d < 25) zs" "cs = spell zs"
        "w = word_of_nat (num (a * 25 + z) zs)"
        by (auto simp: spell_def Cons_eq_map_conv)
      with u [of z] show ?l by auto
    qed
    finally show ?thesis .
  qed
qed (auto simp: spell_def)

lemma encode_digits_spell: "encode_digits n v = spell (digits n (unat v))"
proof (induction n arbitrary: v)
  case (Suc n)
  have "unat (v mod 25) = unat v mod 25" "unat (v div 25) = unat v div 25"
    by (simp_all add: unat_mod_distrib unat_div_distrib)
  with Suc show ?case by (simp add: spell_def)
qed (simp add: spell_def)

text \<open>The 48-bit number a code carries.\<close>

definition invite_num :: "32 word \<Rightarrow> 16 word \<Rightarrow> nat" where
  "invite_num ip port = unat ip * 65536 + unat port"

lemma unat_bound: "unat (w :: 'a :: len word) < 2 ^ LENGTH('a)"
  by (rule unsigned_less)

lemma invite_num_less: "invite_num ip port < 2 ^ 48"
  using unat_bound [of ip] unat_bound [of port] by (simp add: invite_num_def)

lemma invite_value:
  "unat (push_bit 16 (ucast ip :: 64 word) OR ucast port) = invite_num ip port"
proof -
  have i: "unat (ucast ip :: 64 word) = unat ip" and p: "unat (ucast port :: 64 word) = unat port"
    using unat_bound [of ip] unat_bound [of port]
    by (simp_all add: unsigned_ucast_eq take_bit_nat_eq_self)
  have lo: "ucast port = take_bit 16 (ucast port :: 64 word)"
    using unat_bound [of port] by (simp add: word_unat_eq_iff unsigned_take_bit_eq p take_bit_nat_eq_self)
  have "push_bit 16 (ucast ip :: 64 word) AND ucast port = 0"
    by (subst lo) (auto simp: bit_eq_iff bit_simps)
  then have "push_bit 16 (ucast ip :: 64 word) OR ucast port = push_bit 16 (ucast ip) + ucast port"
    by (rule disjunctive_add_eq_or [symmetric])
  also have "\<dots> = word_of_nat (invite_num ip port)"
    by (simp add: invite_num_def push_bit_eq_mult i [symmetric] p [symmetric])
  also have "unat (word_of_nat (invite_num ip port) :: 64 word) = invite_num ip port"
    using invite_num_less [of ip port] by (simp add: unat_of_nat)
  finally show ?thesis .
qed


lemma byte_char_ALPHABET: "b \<in> set ALPHABET \<Longrightarrow> utf8_char (byte_char b) = [b]"
  using ALPHABET_clean [of b] unat_bound [of b] by (simp add: utf8_char_def byte_char_def)

lemma cleaned_append [simp]: "cleaned (s @ t) = cleaned s @ cleaned t"
  by (simp add: cleaned_def)

lemma cleaned_Nil [simp]: "cleaned [] = []"
  by (simp add: cleaned_def)

lemma cleaned_dash [simp]: "cleaned [CHR ''-''] = []"
  by code_simp

lemma cleaned_ALPHABET:
  "set bs \<subseteq> set ALPHABET \<Longrightarrow> cleaned (map byte_char bs) = bs"
proof (induction bs)
  case (Cons b bs)
  have "cleaned ([byte_char b] @ map byte_char bs) = [b] @ bs"
    unfolding cleaned_append using Cons ALPHABET_clean [of b]
    by (simp add: cleaned_def utf8_def byte_char_ALPHABET)
  then show ?case by simp
qed simp

lemma spell_ALPHABET: "list_all (\<lambda>d. d < 25) ds \<Longrightarrow> set (spell ds) \<subseteq> set ALPHABET"
  by (auto simp: spell_def list_all_iff)

lemma spell_inj:
  assumes "spell ds = spell es" "list_all (\<lambda>d. d < 25) ds" "list_all (\<lambda>d. d < 25) es"
  shows "ds = es"
proof (rule list_eq_iff_nth_eq [THEN iffD2], intro conjI allI impI)
  show l: "length ds = length es" using assms(1) by (metis length_map spell_def)
  fix i assume i: "i < length ds"
  then have "ALPHABET ! (ds ! i) = ALPHABET ! (es ! i)"
    using assms(1) l by (metis nth_map spell_def)
  moreover have "ds ! i < 25" "es ! i < 25" using assms(2,3) i l by (simp_all add: list_all_length)
  ultimately show "ds ! i = es ! i"
    using distinct_ALPHABET by (simp add: nth_eq_iff_index_eq)
qed

definition code_digits :: "32 word \<Rightarrow> 16 word \<Rightarrow> nat list" where
  "code_digits ip port = digits CODE_LEN (invite_num ip port)"

lemma code_digits_less: "list_all (\<lambda>d. d < 25) (code_digits ip port)"
  by (simp add: code_digits_def digits_less)

lemma num_code_digits: "num 0 (code_digits ip port) = invite_num ip port"
  using invite_num_less [of ip port] by (simp add: code_digits_def num_digits CODE_LEN_def)

lemma encode_invite_eq:
  "encode_invite ip port = (let ds = map byte_char (spell (code_digits ip port))
     in take DASH_AT ds @ CHR ''-'' # drop DASH_AT ds)"
  by (simp add: encode_invite_def encode_digits_spell invite_value code_digits_def Let_def)

lemma cleaned_encode: "cleaned (encode_invite ip port) = spell (code_digits ip port)"
proof -
  let ?ds = "map byte_char (spell (code_digits ip port))"
  have "cleaned (encode_invite ip port) = cleaned (take DASH_AT ?ds) @ cleaned [CHR ''-''] @ cleaned (drop DASH_AT ?ds)"
    unfolding encode_invite_eq Let_def cleaned_append [symmetric] by simp
  also have "\<dots> = cleaned ?ds"
    unfolding cleaned_dash append_Nil cleaned_append [symmetric] by simp
  also have "\<dots> = spell (code_digits ip port)"
    by (intro cleaned_ALPHABET spell_ALPHABET code_digits_less)
  finally show ?thesis .
qed

lemma value_split:
  fixes v :: nat
  assumes "v < 2 ^ 64"
  shows "ucast ((word_of_nat v :: 64 word) AND 0xFFFF) = (word_of_nat v :: 16 word)"
    and "unat (drop_bit 16 (word_of_nat v :: 64 word)) = v div 65536"
    and "ucast (drop_bit 16 (word_of_nat v :: 64 word)) = (word_of_nat (v div 65536) :: 32 word)"
proof -
  have v: "unat (word_of_nat v :: 64 word) = v" using assms by (simp add: unat_of_nat)
  have m: "(word_of_nat v :: 64 word) AND 0xFFFF = take_bit 16 (word_of_nat v)"
    by (simp add: take_bit_eq_mask mask_eq_exp_minus_1)
  show "ucast ((word_of_nat v :: 64 word) AND 0xFFFF) = (word_of_nat v :: 16 word)"
  proof -
    have "unat (take_bit 16 (word_of_nat v :: 64 word)) = v mod 65536"
      unfolding unsigned_take_bit_eq v by (simp add: take_bit_eq_mod)
    then show ?thesis
      unfolding m word_unat_eq_iff unsigned_ucast_eq by (simp add: unat_of_nat take_bit_eq_mod)
  qed
  show d: "unat (drop_bit 16 (word_of_nat v :: 64 word)) = v div 65536"
    unfolding unat_drop_bit_eq v by (simp add: drop_bit_eq_div)
  show "ucast (drop_bit 16 (word_of_nat v :: 64 word)) = (word_of_nat (v div 65536) :: 32 word)"
    by (simp add: word_unat_eq_iff unsigned_ucast_eq d unat_of_nat take_bit_eq_mod)
qed

lemma decode_invite_dest:
  assumes "decode_invite c = Some (ip, port)"
  shows "port = PAIRING_PORT \<and> cleaned c = cleaned (encode_invite ip port)"
proof -
  from assms obtain w where len: "length (cleaned c) = CODE_LEN" and w: "decode_digits (cleaned c) 0 = Some w"
    and p: "port = PAIRING_PORT" "ucast (w AND 0xFFFF) = port"
    and ip: "unat (drop_bit 16 w) < 2 ^ 32" "ip = ucast (drop_bit 16 w)"
    by (auto simp: decode_invite_def Let_def split: if_splits option.splits)
  from w obtain ds where ds: "list_all (\<lambda>d. d < 25) ds" "cleaned c = spell ds" "w = word_of_nat (num 0 ds)"
    using decode_digits_iff [of "cleaned c" 0 w] by auto
  have l: "length ds = CODE_LEN" using len ds(2) by (simp add: spell_def)
  then have n: "num 0 ds < 2 ^ 64" using num_less [OF ds(1)] by (simp add: CODE_LEN_def)
  note v = value_split [OF n, folded ds(3)]
  have "port = word_of_nat (num 0 ds)" using p(2) v(1) by simp
  then have port: "unat port = num 0 ds mod 65536" by (simp add: unat_of_nat take_bit_eq_mod)
  have "ip = word_of_nat (num 0 ds div 65536)" "num 0 ds div 65536 < 2 ^ 32" using ip v(2,3) by simp_all
  then have "unat ip = num 0 ds div 65536" by (simp add: unat_of_nat)
  with port have "invite_num ip port = num 0 ds" by (simp add: invite_num_def)
  then have "code_digits ip port = ds"
    using digits_num [OF ds(1)] l by (simp add: code_digits_def)
  with p(1) ds(2) show ?thesis
    by (simp add: cleaned_encode)
qed

lemma decode_invite_intro:
  assumes "port = PAIRING_PORT" "cleaned c = cleaned (encode_invite ip port)"
  shows "decode_invite c = Some (ip, port)"
proof -
  let ?n = "invite_num ip port"
  have len: "length (cleaned c) = CODE_LEN"
    using assms by (simp add: cleaned_encode spell_def code_digits_def)
  have "decode_digits (cleaned c) 0 = Some (word_of_nat ?n)"
    using assms decode_digits_iff [of "cleaned c" 0 "word_of_nat ?n"] code_digits_less [of ip port]
    by (auto simp: cleaned_encode num_code_digits [symmetric])
  moreover have n: "?n < 2 ^ 64" using invite_num_less [of ip port] by simp
  have "?n div 65536 = unat ip" "?n mod 65536 = unat port"
    using unat_bound [of port] by (simp_all add: invite_num_def)
  moreover have "(word_of_nat ?n :: 16 word) = port"
    by (simp add: word_unat_eq_iff unat_of_nat take_bit_eq_mod calculation)
  ultimately show ?thesis
    using assms len value_split [OF n] unat_bound [of ip]
    by (simp add: decode_invite_def Let_def)
qed

text \<open>
  C36.  The decoder accepts exactly the spellings of encoded addresses: a text decodes to an address
  and port iff the port is the pairing port and, with dashes and ASCII white space removed and
  letters raised, the text is the encoding of that address and port.
\<close>

theorem decode_invite_iff:
  "decode_invite c = Some (ip, port)
     \<longleftrightarrow> port = PAIRING_PORT \<and> cleaned c = cleaned (encode_invite ip port)"
  by (blast dest: decode_invite_dest intro: decode_invite_intro)

text \<open>
  Round trip: an invite for the pairing port decodes to the address it was made from, for
  every IPv4 address, and two addresses never share a code.
\<close>

theorem invite_roundtrip:
  "decode_invite (encode_invite ip PAIRING_PORT) = Some (ip, PAIRING_PORT)
    \<and> (encode_invite ip port = encode_invite ip' port' \<longleftrightarrow> ip = ip' \<and> port = port')"
proof
  show "decode_invite (encode_invite ip PAIRING_PORT) = Some (ip, PAIRING_PORT)"
    by (intro decode_invite_intro) simp_all
next
  have "ip = ip' \<and> port = port'" if e: "encode_invite ip port = encode_invite ip' port'"
  proof -
    from e have "spell (code_digits ip port) = spell (code_digits ip' port')"
      by (metis cleaned_encode)
    then have "code_digits ip port = code_digits ip' port'"
      by (rule spell_inj) (rule code_digits_less)+
    then have n: "invite_num ip port = invite_num ip' port'" by (metis num_code_digits)
    then have "invite_num ip port div 65536 = invite_num ip' port' div 65536"
      "invite_num ip port mod 65536 = invite_num ip' port' mod 65536" by simp_all
    then have "unat ip = unat ip' \<and> unat port = unat port'"
      using unat_bound [of port] unat_bound [of port'] by (simp add: invite_num_def)
    then show ?thesis by (simp add: word_unat_eq_iff)
  qed
  then show "encode_invite ip port = encode_invite ip' port' \<longleftrightarrow> ip = ip' \<and> port = port'" by auto
qed


section \<open>Typing mistakes\<close>

lemma digits_differ:
  assumes "num 0 (xs @ d # ys) mod 65536 = num 0 (xs @ e # ys) mod 65536" and "d < 25" "e < 25"
  shows "d = e"
proof -
  define k where "k = (25 :: int) ^ length ys"
  have "num 0 (xs @ c # ys) = (num 0 xs * 25 + c) * 25 ^ length ys + num 0 ys" for c
    by (simp add: num_append num_shift [of "num 0 xs * 25 + c"])
  then have n: "int (num 0 (xs @ c # ys)) = (int (num 0 xs) * 25 + int c) * k + int (num 0 ys)" for c
    by (simp add: k_def)
  have "int (num 0 (xs @ d # ys)) mod 65536 = int (num 0 (xs @ e # ys)) mod 65536"
    using arg_cong [OF assms(1), of int] by (simp only: of_nat_mod of_nat_numeral)
  then have "65536 dvd int (num 0 (xs @ d # ys)) - int (num 0 (xs @ e # ys))"
    by (simp add: mod_eq_dvd_iff)
  also have "int (num 0 (xs @ d # ys)) - int (num 0 (xs @ e # ys)) = (int d - int e) * k"
    by (simp add: n algebra_simps)
  finally have "65536 dvd (int d - int e) * k" .
  moreover have "coprime (2 ^ 16 :: int) (25 ^ length ys)"
    by (intro coprime_power_left_iff [THEN iffD2] coprime_power_right_iff [THEN iffD2] disjI1) simp
  ultimately have "65536 dvd int d - int e"
    by (simp add: k_def coprime_dvd_mult_left_iff)
  then show "d = e"
    using assms(2,3) zdvd_imp_le [of 65536 "int d - int e"] zdvd_imp_le [of 65536 "int e - int d"]
    by (cases d e rule: linorder_cases) (auto simp: dvd_diff_commute)
qed

lemma invite_num_port: "invite_num ip port mod 65536 = unat port"
  using unat_bound [of port] by (simp add: invite_num_def)

text \<open>The header of \<^verbatim>\<open>encode_invite\<close> says a typo ``almost always'' fails; for one substituted
  character it always does, because 25 is invertible modulo the range of the port field.\<close>

lemma spell_split:
  assumes "spell ds = A @ b # B"
  obtains xs d ys where "ds = xs @ d # ys" "A = spell xs" "b = ALPHABET ! d" "B = spell ys"
  using assms by (auto simp: spell_def map_eq_append_conv Cons_eq_map_conv map_eq_Cons_conv)

lemma spelling_unique_port:
  assumes "spell ds = A @ b # B" "spell es = A @ b' # B"
    and "list_all (\<lambda>d. d < 25) ds" "list_all (\<lambda>d. d < 25) es"
    and "num 0 ds mod 65536 = num 0 es mod 65536"
  shows "b = b'"
proof -
  obtain xs d ys where ds: "ds = xs @ d # ys" "A = spell xs" "b = ALPHABET ! d" "B = spell ys"
    using spell_split [OF assms(1)] .
  obtain xs' e ys' where es: "es = xs' @ e # ys'" "A = spell xs'" "b' = ALPHABET ! e" "B = spell ys'"
    using spell_split [OF assms(2)] .
  have "xs' = xs" "ys' = ys"
    using ds es assms(3,4) spell_inj [of xs' xs] spell_inj [of ys' ys] by simp_all
  with assms(3-5) ds es show ?thesis using digits_differ [of xs d ys e] by simp
qed

lemma high_byte: "128 \<le> n \<Longrightarrow> n < 256 \<Longrightarrow> \<not> byte_is_ws (word_of_nat n) \<and> (word_of_nat n :: 8 word) \<noteq> 45"
  by (auto simp: byte_is_ws_def word_unat_eq_iff unat_of_nat take_bit_eq_mod)

lemma cleaned_single:
  assumes "length (cleaned [x]) = 1"
  shows "cleaned [x] = [byte_upper (word_of_nat (code x))]"
proof (cases "code x < 128")
  case True
  with assms show ?thesis by (auto simp: cleaned_def utf8_def utf8_char_def split: if_splits)
next
  case False
  have "code x div 64 < 4" by (rule less_mult_imp_div_less) simp
  with False have "length (cleaned [x]) = 2"
    using high_byte [of "192 + code x div 64"] high_byte [of "128 + code x mod 64"]
    by (simp add: cleaned_def utf8_def utf8_char_def)
  with assms show ?thesis by simp
qed

lemma byte_char_upper: "byte_char (byte_upper (word_of_nat (code x))) = ascii_upper x"
proof -
  have u: "unat (word_of_nat (code x) :: 8 word) = code x" by (simp add: unat_of_nat take_bit_eq_mod)
  moreover have "unat ((word_of_nat (code x) :: 8 word) - 32) = code x - 32" if "97 \<le> code x"
    using that u by (subst unat_sub) (simp_all add: word_le_nat_alt)
  ultimately show ?thesis
    by (simp add: byte_char_def byte_upper_def ascii_upper_def word_le_nat_alt)
qed

text \<open>
  No single mistyped character goes unnoticed: replacing any one character of an invite, the
  dash apart, by a character that is not the same letter in either case makes the code invalid; it
  never decodes to another address.
\<close>

theorem invite_typo_rejected:
  assumes "i < length (encode_invite ip PAIRING_PORT)" and "i \<noteq> DASH_AT"
    and "ascii_upper x \<noteq> encode_invite ip PAIRING_PORT ! i"
  shows "decode_invite ((encode_invite ip PAIRING_PORT)[i := x]) = None"
proof (rule ccontr)
  define c where "c = encode_invite ip PAIRING_PORT"
  define y where "y = c ! i"
  assume "decode_invite ((encode_invite ip PAIRING_PORT)[i := x]) \<noteq> None"
  then obtain ip' where "decode_invite (c[i := x]) = Some (ip', PAIRING_PORT)"
    by (cases "decode_invite (c[i := x])") (auto simp: c_def dest: decode_invite_dest)
  then have cl': "cleaned (c[i := x]) = spell (code_digits ip' PAIRING_PORT)"
    using decode_invite_dest by (fastforce simp: cleaned_encode)
  have i: "i < length c" using assms(1) by (simp add: c_def)
  let ?A = "cleaned (take i c)" and ?B = "cleaned (drop (Suc i) c)"
  have c: "cleaned c = ?A @ cleaned [y] @ ?B"
    unfolding cleaned_append [symmetric] using id_take_nth_drop [OF i] by (simp add: y_def)
  have c': "cleaned (c[i := x]) = ?A @ cleaned [x] @ ?B"
    unfolding cleaned_append [symmetric] upd_conv_take_nth_drop [OF i] by simp
  obtain b where b: "b \<in> set ALPHABET" "y = byte_char b"
  proof -
    let ?ds = "spell (code_digits ip PAIRING_PORT)"
    have l: "length ?ds = 11" by (simp add: spell_def code_digits_def CODE_LEN_def)
    have "y \<in> byte_char ` set ?ds"
      using i assms(2) l unfolding y_def c_def encode_invite_eq Let_def DASH_AT_def
      by (auto simp: nth_append nth_Cons' intro!: imageI nth_mem)
    with spell_ALPHABET [OF code_digits_less] that show ?thesis by blast
  qed
  have y: "cleaned [y] = [b]" using cleaned_ALPHABET [of "[b]"] b by simp
  have cl: "cleaned c = spell (code_digits ip PAIRING_PORT)" by (simp add: c_def cleaned_encode)
  have "length (cleaned c) = length (cleaned (c[i := x]))"
    by (simp add: cl cl' spell_def code_digits_def)
  then have "length (cleaned [x]) = 1" by (simp add: c c' y)
  from cleaned_single [OF this] have x: "cleaned [x] = [byte_upper (word_of_nat (code x))]" .
  have "b = byte_upper (word_of_nat (code x))"
    by (rule spelling_unique_port [OF _ _ code_digits_less code_digits_less])
      (use c c' y x cl cl' in \<open>simp_all add: num_code_digits invite_num_port\<close>)
  then have "y = ascii_upper x"
    using b(2) by (simp add: byte_char_upper)
  with assms(3) show False by (simp add: y_def c_def)
qed

lemma invite_typo_rejected_witness:
  "decode_invite ((encode_invite 0xC0A8012A PAIRING_PORT)[7 := CHR ''9'']) = None"
proof (rule invite_typo_rejected)
  have e: "encode_invite 0xC0A8012A PAIRING_PORT = ''DGQG3-VL7C37''" by code_simp
  show "7 < length (encode_invite 0xC0A8012A PAIRING_PORT)" "7 \<noteq> DASH_AT"
    "ascii_upper (CHR ''9'') \<noteq> encode_invite 0xC0A8012A PAIRING_PORT ! 7"
    unfolding e by (code_simp)+
qed

lemma decode_invite_tolerant:
  "decode_invite (encode_invite ip PAIRING_PORT @ '' '') = Some (ip, PAIRING_PORT)"
  by (intro decode_invite_intro) (simp, simp, code_simp)

end
