(* ===== verification/Discovery.thy ===== *)
theory Discovery
  imports Rust_Std
begin

text \<open>
  Peer discovery (\<^verbatim>\<open>network/discovery.rs\<close>): the loop that broadcasts presence, takes in presence
  packets, drops silent peers and reports trusted peers that appear.  One turn of the loop is a
  function of its inputs: the clock, the socket's answer and what other threads left in the shared
  cells.  The peer map is an association list with distinct keys; the order of a hash map's
  iteration is not part of any statement.
\<close>

section \<open>The code\<close>

definition BROADCAST_INTERVAL :: nat where "BROADCAST_INTERVAL = 5000"
definition PEER_TIMEOUT :: nat where "PEER_TIMEOUT = 20000"
definition MULTICAST_PORT :: "16 word" where "MULTICAST_PORT = 42099"
definition SEARCH_PORT :: "16 word" where "SEARCH_PORT = 42101"
definition TRANSFER_PORT :: "16 word" where "TRANSFER_PORT = 42102"

record presence_packet =
  pk_type :: string
  pk_device_id :: string
  pk_device_name :: string
  pk_version :: string
  pk_pairing_port :: "16 word"

datatype peer_status = Trusted | Discovered

record peer =
  pe_device_id :: string
  pe_device_name :: string
  pe_ip :: string
  pe_pairing_port :: "16 word"
  pe_status :: peer_status

record peer_entry =
  en_peer :: peer
  en_last_seen :: nat

type_synonym peer_map = "(string \<times> peer_entry) list"

definition map_insert :: "string \<Rightarrow> peer_entry \<Rightarrow> peer_map \<Rightarrow> peer_map" where
  "map_insert k e m = (k, e) # filter (\<lambda>x. fst x \<noteq> k) m"

text \<open>Packets are JSON, and an id that is no UUID becomes the nil id: both are the libraries'.\<close>

record disco_lib =
  dl_encode :: "presence_packet \<Rightarrow> bytes option"
  dl_decode :: "bytes \<Rightarrow> presence_packet option"
  dl_uuid :: "string \<Rightarrow> string"
  dl_local_id :: string
  dl_version :: string
  dl_pairing_port :: "16 word"

datatype received = Datagram bytes string | NoData | RecvError

text \<open>The inputs of one turn: milliseconds at its top, at the packet and at the eviction, the answer of
  the socket, the trusted ids, the device name, and whether notifications can be shown.\<close>

record turn =
  tn_top :: nat
  tn_seen :: nat
  tn_evict :: nat
  tn_forced :: bool
  tn_recv :: received
  tn_trusted :: "string list"
  tn_name :: string

record disco =
  dm_map :: peer_map
  dm_last_tx :: "nat option"
  dm_online :: "string list"
  dm_sent :: "bytes list"

text \<open>\<^verbatim>\<open>last_tx\<close> starts one interval ago: \<open>None\<close>.\<close>

definition disco_start :: disco where
  "disco_start = \<lparr> dm_map = [], dm_last_tx = None, dm_online = [], dm_sent = [] \<rparr>"

definition broadcast :: "disco_lib \<Rightarrow> turn \<Rightarrow> disco \<Rightarrow> disco" where
  "broadcast l t d = (if tn_forced t \<or> (case dm_last_tx d of None \<Rightarrow> True | Some s \<Rightarrow> BROADCAST_INTERVAL \<le> tn_top t - s)
     then let pkt = \<lparr> pk_type = ''presence'', pk_device_id = dl_local_id l, pk_device_name = tn_name t,
                pk_version = dl_version l, pk_pairing_port = dl_pairing_port l \<rparr>
          in d\<lparr>dm_sent := dm_sent d @ (case dl_encode l pkt of None \<Rightarrow> [] | Some b \<Rightarrow> [b]), dm_last_tx := Some (tn_top t)\<rparr>
     else d)"

text \<open>\<open>None\<close>: the turn ends here (\<^verbatim>\<open>continue\<close>).\<close>

definition take_packet :: "disco_lib \<Rightarrow> turn \<Rightarrow> peer_map \<Rightarrow> peer_map option" where
  "take_packet l t m = (case tn_recv t of
       Datagram b src \<Rightarrow> (case dl_decode l (take 1024 b) of
           None \<Rightarrow> Some m
         | Some pkt \<Rightarrow>
             if pk_device_id pkt = dl_local_id l then None
             else if pk_type pkt \<noteq> ''presence'' then None
             else Some (map_insert (pk_device_id pkt)
               \<lparr> en_peer = \<lparr> pe_device_id = dl_uuid l (pk_device_id pkt), pe_device_name = pk_device_name pkt, pe_ip = src,
                   pe_pairing_port = pk_pairing_port pkt,
                   pe_status = (if pk_device_id pkt \<in> set (tn_trusted t) then Trusted else Discovered) \<rparr>,
                 en_last_seen = tn_seen t \<rparr> m))
     | NoData \<Rightarrow> Some m
     | RecvError \<Rightarrow> Some m)"

definition evict :: "nat \<Rightarrow> peer_map \<Rightarrow> peer_map" where
  "evict now m = filter (\<lambda>x. now - en_last_seen (snd x) < PEER_TIMEOUT) m"

definition online_trusted :: "peer_map \<Rightarrow> string list" where
  "online_trusted m = map fst (filter (\<lambda>x. pe_status (en_peer (snd x)) = Trusted) m)"

definition newly_online :: "string list \<Rightarrow> peer_map \<Rightarrow> (string \<times> string) list" where
  "newly_online before m = List.map_filter (\<lambda>i. map_option (\<lambda>e. (i, pe_device_name (en_peer e))) (map_of m i))
     (filter (\<lambda>i. i \<notin> set before) (online_trusted m))"

definition disco_turn :: "disco_lib \<Rightarrow> turn \<Rightarrow> disco \<Rightarrow> disco \<times> (string \<times> string) list" where
  "disco_turn l t d0 = (let d = broadcast l t d0 in
     case take_packet l t (dm_map d) of
       None \<Rightarrow> (d, [])
     | Some m \<Rightarrow> let m' = evict (tn_evict t) m in
         (d\<lparr>dm_map := m', dm_online := online_trusted m'\<rparr>, newly_online (dm_online d) m'))"

definition list_peers :: "peer_map \<Rightarrow> peer list" where
  "list_peers m = map (\<lambda>x. en_peer (snd x)) m"

text \<open>\<^verbatim>\<open>commands.rs\<close>: the address of a visible peer.\<close>

definition resolve_pairing_target :: "peer_map \<Rightarrow> string \<Rightarrow> (string, string \<times> 16 word) res" where
  "resolve_pairing_target m device_id = bind_res (ok_or ''peer not found'' (map_of m device_id))
     (\<lambda>e. Inr (pe_ip (en_peer e), pe_pairing_port (en_peer e)))"

section \<open>Runs\<close>

text \<open>The states after each turn, with the notifications of the turn.\<close>

fun disco_run :: "disco_lib \<Rightarrow> turn list \<Rightarrow> disco \<Rightarrow> (disco \<times> (string \<times> string) list) list" where
  "disco_run l [] d = []"
| "disco_run l (t # ts) d = disco_turn l t d # disco_run l ts (fst (disco_turn l t d))"

definition disco_ok :: "disco_lib \<Rightarrow> disco \<Rightarrow> bool" where
  "disco_ok l d \<longleftrightarrow> distinct (map fst (dm_map d)) \<and> dl_local_id l \<notin> fst ` set (dm_map d)
     \<and> set (dm_online d) = set (online_trusted (dm_map d))"

lemma broadcast_map [simp]: "dm_map (broadcast l t d) = dm_map d" "dm_online (broadcast l t d) = dm_online d"
  by (simp_all add: broadcast_def Let_def)

lemma fst_map_insert [simp]: "fst ` set (map_insert k e m) = insert k (fst ` set m)"
  by (auto simp: map_insert_def image_iff)

lemma distinct_map_insert: "distinct (map fst m) \<Longrightarrow> distinct (map fst (map_insert k e m))"
  by (auto simp: map_insert_def distinct_map_filter)

lemma take_packet_cases:
  "take_packet l t m = Some m' \<Longrightarrow> m' = m \<or> (\<exists>k e. k \<noteq> dl_local_id l \<and> m' = map_insert k e m)"
  by (auto simp: take_packet_def split: received.splits option.splits if_splits)

lemma take_packet_ok:
  assumes "take_packet l t m = Some m'" "distinct (map fst m)" "dl_local_id l \<notin> fst ` set m"
  shows "distinct (map fst m') \<and> dl_local_id l \<notin> fst ` set m'"
  using take_packet_cases [OF assms(1)] assms(2,3) by (elim disjE exE conjE) (simp_all add: distinct_map_insert)

lemma disco_start_ok: "disco_ok l disco_start"
  by (simp add: disco_ok_def disco_start_def online_trusted_def)

lemma disco_turn_ok:
  assumes "disco_ok l d"
  shows "disco_ok l (fst (disco_turn l t d))"
proof (cases "take_packet l t (dm_map d)")
  case None
  with assms show ?thesis by (simp add: disco_turn_def disco_ok_def Let_def)
next
  case (Some m)
  with take_packet_ok [OF Some] assms have "distinct (map fst m)" "dl_local_id l \<notin> fst ` set m"
    by (simp_all add: disco_ok_def)
  then have "distinct (map fst (evict (tn_evict t) m))" "dl_local_id l \<notin> fst ` set (evict (tn_evict t) m)"
    by (auto simp: evict_def distinct_map_filter)
  with Some show ?thesis by (simp add: disco_turn_def disco_ok_def Let_def)
qed

lemma newly_online_ids:
  assumes "distinct (map fst m)"
  shows "set (map fst (newly_online before m)) = set (online_trusted m) - set before"
    and "distinct (map fst (newly_online before m))"
proof -
  have some: "\<exists>e. map_of m i = Some e" if "i \<in> set (online_trusted m)" for i
    using that assms by (auto simp: online_trusted_def)
  have eq: "map fst (List.map_filter (\<lambda>i. map_option (\<lambda>e. (i, pe_device_name (en_peer e))) (map_of m i)) is) = is"
    if "set is \<subseteq> set (online_trusted m)" for "is"
    using that by (induction "is") (auto simp: List.map_filter_simps dest: some)
  have n: "map fst (newly_online before m) = filter (\<lambda>i. i \<notin> set before) (online_trusted m)"
    unfolding newly_online_def by (rule eq) auto
  show "set (map fst (newly_online before m)) = set (online_trusted m) - set before" unfolding n by auto
  show "distinct (map fst (newly_online before m))"
    unfolding n by (simp add: online_trusted_def distinct_map_filter [OF assms])
qed

lemma disco_turn_notifies:
  assumes "disco_ok l d" "disco_turn l t d = (d', ns)"
  shows "set (map fst ns) = set (online_trusted (dm_map d')) - set (online_trusted (dm_map d)) \<and> distinct (map fst ns)"
proof (cases "take_packet l t (dm_map d)")
  case None
  with assms show ?thesis by (auto simp: disco_turn_def Let_def)
next
  case (Some m)
  let ?m = "evict (tn_evict t) m"
  have "distinct (map fst ?m)"
    using take_packet_ok [OF Some] assms(1) by (simp add: disco_ok_def evict_def distinct_map_filter)
  from newly_online_ids [OF this, of "dm_online d"] show ?thesis
    using assms Some by (simp add: disco_turn_def disco_ok_def Let_def) (elim conjE, drule sym, simp)
qed


lemma disco_run_notifies:
  "disco_ok l d \<Longrightarrow> list_all (\<lambda>(d, d', ns). distinct (map fst ns)
      \<and> set (map fst ns) = set (online_trusted (dm_map d')) - set (online_trusted (dm_map d))
      \<and> dl_local_id l \<notin> fst ` set (dm_map d'))
    (zip (d # map fst (disco_run l ts d)) (disco_run l ts d))"
proof (induction ts arbitrary: d)
  case (Cons t ts)
  note ok = disco_turn_ok [OF Cons.prems, of t]
  from Cons.IH [OF ok] disco_turn_notifies [OF Cons.prems prod.collapse [symmetric], of t] ok
  show ?case by (simp add: case_prod_beta' disco_ok_def)
qed simp

text \<open>
  C29.  Each arrival is reported once: whatever packets arrive and whenever, a turn of the discovery
  loop reports exactly the trusted peers that are listed after it and were not listed as trusted
  before it, each once; and the device never lists itself.
\<close>

theorem discovery_reports_arrivals:
  "list_all (\<lambda>(d, d', ns). distinct (map fst ns)
      \<and> set (map fst ns) = set (online_trusted (dm_map d')) - set (online_trusted (dm_map d))
      \<and> dl_local_id l \<notin> fst ` set (dm_map d'))
    (zip (disco_start # map fst (disco_run l ts disco_start)) (disco_run l ts disco_start))"
  by (rule disco_run_notifies [OF disco_start_ok])

text \<open>A peer silent for twenty seconds is gone after the next turn that is not cut short.\<close>

lemma disco_turn_fresh:
  "take_packet l t (dm_map d) \<noteq> None \<Longrightarrow>
   \<forall>x \<in> set (dm_map (fst (disco_turn l t d))). tn_evict t < en_last_seen (snd x) + PEER_TIMEOUT"
  by (auto simp: disco_turn_def Let_def evict_def PEER_TIMEOUT_def)

text \<open>A turn that receives a packet of another type, or one that carries the device's own id, neither
  drops silent peers nor reports: packets of this kind keep a silent peer listed.\<close>

lemma foreign_packet_skips:
  "tn_recv t = Datagram b src \<Longrightarrow> dl_decode l (take 1024 b) = Some pkt \<Longrightarrow> pk_type pkt \<noteq> ''presence'' \<Longrightarrow>
   dm_map (fst (disco_turn l t d)) = dm_map d \<and> snd (disco_turn l t d) = []"
  by (simp add: disco_turn_def take_packet_def Let_def)

end
