(* ===== verification/Pairing.thy ===== *)
theory Pairing
  imports Session Invite_Code Discovery Action_Rules
begin

text \<open>
  The pairing ceremony (\<^verbatim>\<open>network/peer.rs\<close>) and the commands that drive it (\<^verbatim>\<open>commands.rs\<close>): the
  initiator, the responder, and the responder's server with its one slot for the user's decision.
  A responder is cut in two at the point where it waits for the decision, so that several of them
  and the user can interleave.
\<close>

section \<open>Messages, errors, state\<close>

definition MAX_PAIR_MSG :: nat where "MAX_PAIR_MSG = 65536"

datatype pair_msg =
    PairRequest string string string
  | PairAccept string string string
  | PairRejected
  | PairConfirm string
  | PairComplete string

datatype pairing_error = PIo | PJson | PCrypto crypto_error | PRejected | PTimeout | UnexpectedMsg string
  | PDb db_error | PTrust trust_error | PEmit

datatype pair_event =
    PairRequested string string string string
  | PairCompleted trusted_peer
  | PairNotified string string

record pair_json =
  j_pair :: "pair_msg \<Rightarrow> bytes"
  j_unpair :: "bytes \<Rightarrow> pair_msg option"
  j_pair_debug :: "pair_msg \<Rightarrow> string"

text \<open>\<open>p_dials\<close>: the outcomes of the connections to come; \<open>Inl\<close> is a refusal or, for \<^verbatim>\<open>True\<close>, the
  timeout of ten seconds.  \<open>p_emit_faults\<close>: which events cannot be delivered.\<close>

record pworld = world +
  p_trusted :: "string set"
  p_events :: "pair_event list"
  p_dials :: "(bool, conn) res list"
  p_dialed :: "(string \<times> 16 word) list"
  p_emit_faults :: "bool list"
  p_clock :: int

type_synonym 'a p_act = "(pworld, pairing_error, 'a) act"

definition p_conn :: "(session_error \<Rightarrow> pairing_error) \<Rightarrow> 'a conn_act \<Rightarrow> 'a p_act" where
  "p_conn g m w = (case m (w_conn w) of (r, c) \<Rightarrow> (map_err g r, w\<lparr>w_conn := c\<rparr>))"

definition p_db :: "'a db_act \<Rightarrow> 'a p_act" where
  "p_db m w = (case m (w_db w) of (r, d) \<Rightarrow> (map_err PDb r, w\<lparr>w_db := d\<rparr>))"

definition p_emit :: "pair_event \<Rightarrow> unit p_act" where
  "p_emit e w = (let w' = w\<lparr>p_emit_faults := tl (p_emit_faults w)\<rparr> in
     if p_emit_faults w \<noteq> [] \<and> hd (p_emit_faults w) then (Inl PEmit, w')
     else (Inr (), w'\<lparr>p_events := p_events w @ [e]\<rparr>))"

definition p_draw :: "nat p_act" where
  "p_draw w = (Inr (w_seed w), w\<lparr>w_seed := w_seed w + 1\<rparr>)"

text \<open>\<^verbatim>\<open>notify::enabled\<close> and a best-effort notification.\<close>

definition p_notify :: "string \<Rightarrow> string \<Rightarrow> unit p_act" where
  "p_notify title body w = (case p_db (get_setting ''notifications_enabled'') w of
     (r, w') \<Rightarrow> (Inr (), case r of
        Inr (Some v) \<Rightarrow> if v \<noteq> ''false'' then w'\<lparr>p_events := p_events w' @ [PairNotified title body]\<rparr> else w'
      | _ \<Rightarrow> w'\<lparr>p_events := p_events w' @ [PairNotified title body]\<rparr>))"

definition peer_pair_request :: "string \<Rightarrow> unit p_act" where
  "peer_pair_request peer_name = p_notify ''Pairing request''
     (peer_name @ '' wants to pair with this device. Open Synapt to accept or reject.'')"

definition peer_paired :: "string \<Rightarrow> unit p_act" where
  "peer_paired peer_name = p_notify ''Device paired'' (peer_name @ '' is now a trusted device'')"

definition io_part :: "session_error \<Rightarrow> pairing_error" where
  "io_part e = (case e of SCrypto c \<Rightarrow> PCrypto c | _ \<Rightarrow> PIo)"

definition pair_key32 :: "bytes \<Rightarrow> (pairing_error, bytes) res" where
  "pair_key32 v = (if length v = 32 then Inr v else Inl (UnexpectedMsg ''public key wrong length''))"

definition pair_send :: "pair_json \<Rightarrow> pair_msg \<Rightarrow> unit p_act" where
  "pair_send j m = p_conn io_part (write_plain (j_pair j m))"

definition pair_recv :: "pair_json \<Rightarrow> pair_msg p_act" where
  "pair_recv j = act_bind (p_conn io_part (read_exact 4)) (\<lambda>len_buf.
     let len = read_frame_len len_buf in
     if MAX_PAIR_MSG < len then act_err (UnexpectedMsg (''frame too large: '' @ show_nat len))
     else act_bind (p_conn io_part (read_exact len)) (\<lambda>buf. act_lift (ok_or PJson (j_unpair j buf))))"

definition unexpected :: "pair_json \<Rightarrow> pair_msg \<Rightarrow> pairing_error" where
  "unexpected j m = UnexpectedMsg (j_pair_debug j m)"

definition p_connect :: "string \<Rightarrow> 16 word \<Rightarrow> unit p_act" where
  "p_connect ip port w0 = (let w = w0\<lparr>p_dialed := p_dialed w0 @ [(ip, port)]\<rparr> in case p_dials w of
      Inr c # ds \<Rightarrow> (Inr (), w\<lparr>w_conn := c, p_dials := ds\<rparr>)
    | Inl timed_out # ds \<Rightarrow> (Inl (if timed_out then PTimeout else PIo), w\<lparr>p_dials := ds\<rparr>)
    | [] \<Rightarrow> (Inl PIo, w))"

section \<open>The initiator\<close>

record pending_pairing =
  pp_stream :: conn
  pp_shared_secret :: bytes
  pp_device_id :: string
  pp_name :: string
  pp_pubkey_b64 :: string
  pp_verify_code :: string

text \<open>The peer's ephemeral key, from either side's message.\<close>

definition eph_key :: "ext \<Rightarrow> string \<Rightarrow> (pairing_error, bytes) res" where
  "eph_key x b64 = bind_res (map_err PCrypto (from_b64 x b64)) pair_key32"

definition accept_reply :: "ext \<Rightarrow> pair_json \<Rightarrow> bytes \<Rightarrow> pair_msg \<Rightarrow> pending_pairing p_act" where
  "accept_reply x j secret m = (case m of
       PairAccept device_id device_name pubkey_b64 \<Rightarrow>
         act_bind (act_lift (eph_key x pubkey_b64)) (\<lambda>their_pub.
         let shared_secret = ephemeral_dh x secret their_pub in
         act_bind (act_get w_conn) (\<lambda>stream. act_ret
           \<lparr> pp_stream = stream, pp_shared_secret = shared_secret, pp_device_id = device_id, pp_name = device_name,
             pp_pubkey_b64 = pubkey_b64, pp_verify_code = pairing_code x shared_secret \<rparr>))
     | PairRejected \<Rightarrow> act_err PRejected
     | other \<Rightarrow> act_err (unexpected j other))"

definition begin_pairing :: "ext \<Rightarrow> pair_json \<Rightarrow> string \<Rightarrow> 16 word \<Rightarrow> local_identity \<Rightarrow> pending_pairing p_act" where
  "begin_pairing x j peer_ip peer_pairing_port identity =
     act_then (p_connect peer_ip peer_pairing_port)
     (act_bind p_draw (\<lambda>seed.
     case generate_ephemeral x seed of (secret, my_pub) \<Rightarrow>
     act_then (pair_send j (PairRequest (id_device_id identity) (id_device_name identity) (to_b64 x my_pub)))
       (act_bind (pair_recv j) (accept_reply x j secret))))"

text \<open>The row of a newly paired device, and the peer handed to the user interface: the row is written
  before its device id is parsed.\<close>

definition trust_row :: "string \<Rightarrow> string \<Rightarrow> string \<Rightarrow> string \<Rightarrow> int \<Rightarrow> trusted_peer_row" where
  "trust_row device_id name key fp now = \<lparr> tp_device_id = device_id, tp_device_name = name, tp_pubkey_b64 = key,
     tp_fingerprint = fp, tp_paired_at = now, tp_last_seen = None \<rparr>"

definition trusted_of :: "ext \<Rightarrow> trusted_peer_row \<Rightarrow> (pairing_error, trusted_peer) res" where
  "trusted_of x r = map_err (\<lambda>_. UnexpectedMsg ''invalid uuid'') (peer_of_row x r)"

definition store_peer :: "ext \<Rightarrow> string \<Rightarrow> string \<Rightarrow> string \<Rightarrow> trusted_peer_row p_act" where
  "store_peer x device_id name longterm =
     act_bind (act_lift (map_err PTrust (fingerprint x longterm))) (\<lambda>fp.
     act_bind (act_get p_clock) (\<lambda>paired_at.
     let row = trust_row device_id name longterm fp paired_at in
     act_then (p_db (upsert_trusted_peer row)) (act_ret row)))"

definition confirm_pairing :: "ext \<Rightarrow> pair_json \<Rightarrow> pending_pairing \<Rightarrow> local_identity \<Rightarrow> trusted_peer p_act" where
  "confirm_pairing x j pending identity =
     act_then (act_mod (\<lambda>w. w\<lparr>w_conn := pp_stream pending\<rparr>))
     (act_then (pair_send j (PairConfirm (id_pubkey_b64 identity)))
     (act_bind (pair_recv j) (\<lambda>m.
     act_bind (case m of PairComplete k \<Rightarrow> act_ret k | PairRejected \<Rightarrow> act_err PRejected
        | other \<Rightarrow> act_err (unexpected j other)) (\<lambda>their_longterm.
     act_bind (store_peer x (pp_device_id pending) (pp_name pending) their_longterm) (\<lambda>row.
       act_lift (trusted_of x row))))))"

section \<open>The responder\<close>

text \<open>Up to the decision: the request is announced and answered.\<close>

definition responder_open :: "ext \<Rightarrow> pair_json \<Rightarrow> local_identity \<Rightarrow> string \<Rightarrow> (string \<times> string) p_act" where
  "responder_open x j identity ip =
     act_bind (pair_recv j) (\<lambda>m.
     act_bind (case m of PairRequest i n k \<Rightarrow> act_ret (i, n, k) | other \<Rightarrow> act_err (unexpected j other))
       (\<lambda>(their_id, their_name, their_eph_b64).
     act_bind (act_lift (eph_key x their_eph_b64)) (\<lambda>their_eph.
     act_bind p_draw (\<lambda>seed.
     case generate_ephemeral x seed of (secret, my_pub) \<Rightarrow>
     let verify_code = pairing_code x (ephemeral_dh x secret their_eph) in
     act_then (peer_pair_request their_name)
     (act_then (p_emit (PairRequested their_id their_name ip verify_code))
     (act_then (pair_send j (PairAccept (id_device_id identity) (id_device_name identity) (to_b64 x my_pub)))
       (act_ret (their_id, their_name))))))))"

text \<open>From the decision on.\<close>

definition responder_finish :: "ext \<Rightarrow> pair_json \<Rightarrow> local_identity \<Rightarrow> string \<times> string \<Rightarrow> bool \<Rightarrow> unit p_act" where
  "responder_finish x j identity req accepted = (case req of (their_id, their_name) \<Rightarrow>
     if \<not> accepted then pair_send j PairRejected
     else act_bind (pair_recv j) (\<lambda>m.
     act_bind (case m of PairConfirm k \<Rightarrow> act_ret k | other \<Rightarrow> act_err (unexpected j other)) (\<lambda>their_longterm.
     act_bind (store_peer x their_id their_name their_longterm) (\<lambda>row.
     act_then (act_mod (\<lambda>w. w\<lparr>p_trusted := insert their_id (p_trusted w)\<rparr>))
     (act_then (pair_send j (PairComplete (id_pubkey_b64 identity)))
     (act_bind (act_lift (trusted_of x row)) (\<lambda>trusted.
     act_then (p_emit (PairCompleted trusted))
       (peer_paired (pr_device_name trusted)))))))))"

definition handle_responder :: "ext \<Rightarrow> pair_json \<Rightarrow> local_identity \<Rightarrow> string \<Rightarrow> bool \<Rightarrow> unit p_act" where
  "handle_responder x j identity ip accepted =
     act_bind (responder_open x j identity ip) (\<lambda>req. responder_finish x j identity req accepted)"


section \<open>The server and the user\<close>

text \<open>
  \<^verbatim>\<open>start_pairing_server\<close> makes a one-shot channel per connection, parks its sender in the one slot
  \<^verbatim>\<open>pair_tx\<close> (dropping the sender parked before) and spawns the responder.  \<open>accept_pair_cmd\<close> and
  \<open>reject_pair_cmd\<close> take the sender from the slot.  A schedule is a list of operations.
\<close>

datatype chan = Undecided | Decided bool | Dropped

datatype phase = Accepted conn string | Waiting conn "string \<times> string" | Finished

record pair_system =
  ps_world :: pworld
  ps_next :: nat
  ps_slot :: "nat option"
  ps_chan :: "nat \<Rightarrow> chan"
  ps_phase :: "nat \<Rightarrow> phase"

datatype pair_op = Incoming conn string | Open nat | Decide bool | Finish nat

definition accept_conn :: "conn \<Rightarrow> string \<Rightarrow> pair_system \<Rightarrow> pair_system" where
  "accept_conn c ip s = (let i = ps_next s;
       chans = (case ps_slot s of None \<Rightarrow> ps_chan s | Some k \<Rightarrow> (ps_chan s)(k := Dropped))
     in s\<lparr>ps_next := i + 1, ps_slot := Some i, ps_chan := chans(i := Undecided),
          ps_phase := (ps_phase s)(i := Accepted c ip)\<rparr>)"

definition open_conn :: "ext \<Rightarrow> pair_json \<Rightarrow> local_identity \<Rightarrow> nat \<Rightarrow> pair_system \<Rightarrow> pair_system" where
  "open_conn x j identity i s = (case ps_phase s i of
       Accepted c ip \<Rightarrow> (case responder_open x j identity ip ((ps_world s)\<lparr>w_conn := c\<rparr>) of
           (Inl _, w) \<Rightarrow> s\<lparr>ps_world := w, ps_phase := (ps_phase s)(i := Finished)\<rparr>
         | (Inr req, w) \<Rightarrow> s\<lparr>ps_world := w, ps_phase := (ps_phase s)(i := Waiting (w_conn w) req)\<rparr>)
     | _ \<Rightarrow> s)"

text \<open>\<^verbatim>\<open>send\<close> fails when the responder has gone.\<close>

definition decide_pair :: "bool \<Rightarrow> pair_system \<Rightarrow> (string, unit) res \<times> pair_system" where
  "decide_pair b s = (case ps_slot s of
       None \<Rightarrow> (Inl ''no pending pair request'', s)
     | Some i \<Rightarrow> if ps_phase s i = Finished then (Inl ''failed to deliver decision'', s\<lparr>ps_slot := None\<rparr>)
         else (Inr (), s\<lparr>ps_slot := None, ps_chan := (ps_chan s)(i := Decided b)\<rparr>))"

definition accept_pair_cmd :: "pair_system \<Rightarrow> (string, unit) res \<times> pair_system" where
  "accept_pair_cmd = decide_pair True"

definition reject_pair_cmd :: "pair_system \<Rightarrow> (string, unit) res \<times> pair_system" where
  "reject_pair_cmd = decide_pair False"

text \<open>\<^verbatim>\<open>decision_rx.await.unwrap_or(false)\<close>: a dropped sender is a refusal.\<close>

definition decision :: "chan \<Rightarrow> bool option" where
  "decision ch = (case ch of Undecided \<Rightarrow> None | Decided b \<Rightarrow> Some b | Dropped \<Rightarrow> Some False)"

definition finish_conn :: "ext \<Rightarrow> pair_json \<Rightarrow> local_identity \<Rightarrow> nat \<Rightarrow> pair_system \<Rightarrow> pair_system" where
  "finish_conn x j identity i s = (case ps_phase s i of
       Waiting c req \<Rightarrow> (case decision (ps_chan s i) of None \<Rightarrow> s
         | Some b \<Rightarrow> s\<lparr>ps_world := snd (responder_finish x j identity req b ((ps_world s)\<lparr>w_conn := c\<rparr>)),
                      ps_phase := (ps_phase s)(i := Finished)\<rparr>)
     | _ \<Rightarrow> s)"

fun pair_do :: "ext \<Rightarrow> pair_json \<Rightarrow> local_identity \<Rightarrow> pair_op \<Rightarrow> pair_system \<Rightarrow> pair_system" where
  "pair_do x j identity (Incoming c ip) s = accept_conn c ip s"
| "pair_do x j identity (Open i) s = open_conn x j identity i s"
| "pair_do x j identity (Decide b) s = snd (decide_pair b s)"
| "pair_do x j identity (Finish i) s = finish_conn x j identity i s"

definition pair_run :: "ext \<Rightarrow> pair_json \<Rightarrow> local_identity \<Rightarrow> pworld \<Rightarrow> pair_op list \<Rightarrow> pair_system" where
  "pair_run x j identity w ops = foldl (\<lambda>s op. pair_do x j identity op s)
     \<lparr> ps_world = w, ps_next = 0, ps_slot = None, ps_chan = (\<lambda>_. Undecided), ps_phase = (\<lambda>_. Finished) \<rparr> ops"

section \<open>Commands of the initiator\<close>

record pair_app =
  pa_world :: pworld
  pa_pending :: "pending_pairing option"

text \<open>Dial, park the pending pairing, hand out the code; \<open>text\<close> is the \<^verbatim>\<open>Display\<close> of errors.\<close>

definition start_pairing :: "ext \<Rightarrow> pair_json \<Rightarrow> (pairing_error \<Rightarrow> string) \<Rightarrow> local_identity \<Rightarrow> string \<Rightarrow> 16 word
    \<Rightarrow> pair_app \<Rightarrow> (string, string) res \<times> pair_app" where
  "start_pairing x j errtext identity ip port a = (case begin_pairing x j ip port identity (pa_world a) of
       (Inl e, w) \<Rightarrow> (Inl (errtext e), a\<lparr>pa_world := w\<rparr>)
     | (Inr p, w) \<Rightarrow> (Inr (pp_verify_code p), a\<lparr>pa_world := w, pa_pending := Some p\<rparr>))"

definition begin_pairing_cmd :: "ext \<Rightarrow> pair_json \<Rightarrow> (pairing_error \<Rightarrow> string) \<Rightarrow> local_identity \<Rightarrow> peer_map \<Rightarrow> string
    \<Rightarrow> pair_app \<Rightarrow> (string, string) res \<times> pair_app" where
  "begin_pairing_cmd x j errtext identity pm device_id a = (case resolve_pairing_target pm device_id of
       Inl e \<Rightarrow> (Inl e, a)
     | Inr (ip, port) \<Rightarrow> start_pairing x j errtext identity ip port a)"

definition start_manual_pairing :: "ext \<Rightarrow> pair_json \<Rightarrow> (pairing_error \<Rightarrow> string) \<Rightarrow> local_identity \<Rightarrow> string \<Rightarrow> 16 word
    \<Rightarrow> pair_app \<Rightarrow> (string, string) res \<times> pair_app" where
  "start_manual_pairing x j errtext identity ip port =
     start_pairing x j (\<lambda>e. if e = PTimeout then ''Could not reach '' @ ip
         @ ''. Check the address and make sure Synapt is running on the other device.'' else errtext e) identity ip port"

text \<open>\<^verbatim>\<open>Display for Ipv4Addr\<close>\<close>

definition show_ipv4 :: "32 word \<Rightarrow> string" where
  "show_ipv4 ip = (let octet = (\<lambda>n. show_nat (unat (ip div 2 ^ n) mod 256)) in
     octet 24 @ ''.'' @ octet 16 @ ''.'' @ octet 8 @ ''.'' @ octet 0)"

definition generate_invite_code :: "32 word option \<Rightarrow> (string, string \<times> string \<times> 16 word) res" where
  "generate_invite_code local_ip = bind_res (ok_or ''Could not determine this device's local IP address'' local_ip)
     (\<lambda>ip. Inr (encode_invite ip PAIRING_PORT, show_ipv4 ip, PAIRING_PORT))"

definition redeem_invite_code :: "ext \<Rightarrow> pair_json \<Rightarrow> (pairing_error \<Rightarrow> string) \<Rightarrow> local_identity \<Rightarrow> string
    \<Rightarrow> pair_app \<Rightarrow> (string, string) res \<times> pair_app" where
  "redeem_invite_code x j errtext identity c a = (case decode_invite c of
       None \<Rightarrow> (Inl ''That invite code is not valid. Check it and try again.'', a)
     | Some (ip, port) \<Rightarrow> start_manual_pairing x j errtext identity (show_ipv4 ip) port a)"

text \<open>The address parser is the standard library's: it returns the address in its normal form.\<close>

definition pair_by_ip :: "ext \<Rightarrow> pair_json \<Rightarrow> (pairing_error \<Rightarrow> string) \<Rightarrow> (string \<Rightarrow> string option) \<Rightarrow> local_identity \<Rightarrow> string
    \<Rightarrow> pair_app \<Rightarrow> (string, string) res \<times> pair_app" where
  "pair_by_ip x j errtext parse_ip identity ip a = (case parse_ip (trim ip) of
       None \<Rightarrow> (Inl (''Not a valid IP address: '' @ trim ip), a)
     | Some addr \<Rightarrow> start_manual_pairing x j errtext identity addr PAIRING_PORT a)"

definition confirm_pairing_cmd :: "ext \<Rightarrow> pair_json \<Rightarrow> (pairing_error \<Rightarrow> string) \<Rightarrow> local_identity
    \<Rightarrow> pair_app \<Rightarrow> (string, trusted_peer) res \<times> pair_app" where
  "confirm_pairing_cmd x j errtext identity a = (case pa_pending a of
       None \<Rightarrow> (Inl ''no pending pairing'', a)
     | Some p \<Rightarrow> let a' = a\<lparr>pa_pending := None\<rparr> in
         (case confirm_pairing x j p identity (pa_world a) of
            (Inl e, w) \<Rightarrow> (Inl (errtext e), a'\<lparr>pa_world := w\<rparr>)
          | (Inr peer, w) \<Rightarrow> (Inr peer, a'\<lparr>pa_world := snd (peer_paired (pr_device_name peer)
                (w\<lparr>p_trusted := insert (pr_device_id peer) (p_trusted w)\<rparr>))\<rparr>)))"

definition revoke_peer_cmd :: "(trust_error \<Rightarrow> string) \<Rightarrow> string \<Rightarrow> pair_app \<Rightarrow> (string, unit) res \<times> pair_app" where
  "revoke_peer_cmd errtext device_id a = (let w = pa_world a in case revoke_peer device_id (w_db w) of
       (Inl e, d) \<Rightarrow> (Inl (errtext e), a\<lparr>pa_world := w\<lparr>w_db := d\<rparr>\<rparr>)
     | (Inr _, d) \<Rightarrow> (Inr (), a\<lparr>pa_world := w\<lparr>w_db := d, p_trusted := p_trusted w - {device_id}\<rparr>\<rparr>))"

definition trusted_pubkey :: "trusted_peer list \<Rightarrow> string \<Rightarrow> (string, string) res" where
  "trusted_pubkey peers device_id = ok_or ''Device is not trusted''
     (map_option pr_pubkey_b64 (List.find (\<lambda>p. pr_device_id p = device_id) peers))"


section \<open>Trust needs consent\<close>

definition trusts :: "pworld \<Rightarrow> string set" where
  "trusts w = tp_device_id ` set (trusted_peers (w_db w)) \<union> p_trusted w"

definition within :: "string set \<Rightarrow> pworld \<Rightarrow> bool" where
  "within T w \<longleftrightarrow> trusts w \<subseteq> T"

lemma within_upd [simp]:
  "within T (w\<lparr>w_conn := c\<rparr>) = within T w" "within T (w\<lparr>w_seed := n\<rparr>) = within T w"
  "within T (w\<lparr>p_events := es\<rparr>) = within T w" "within T (w\<lparr>p_emit_faults := fs\<rparr>) = within T w"
  by (simp_all add: within_def trusts_def)

lemma p_conn_within [keeps_intros]: "keeps (within T) (p_conn g m)"
  by (auto simp: keeps_def p_conn_def split: prod.splits)

lemma p_db_query_within [keeps_intros]: "keeps (within T) (p_db (sql_query g))"
  by (auto simp: keeps_def p_db_def sql_query_def db_exec_def act_simps Let_def within_def trusts_def split: prod.splits if_splits)

lemma p_steps_within [keeps_intros]:
  "keeps (within T) p_draw" "keeps (within T) (p_emit e)"
  by (auto simp: keeps_def p_draw_def p_emit_def Let_def)

lemma p_notify_within [keeps_intros]: "keeps (within T) (p_notify title body)"
proof -
  have "within T (snd (p_db (get_setting k) w))" if "within T w" for k w
    using keepsD [OF p_db_query_within that] by (simp add: get_setting_def)
  then show ?thesis
    by (auto simp: keeps_def p_notify_def split: prod.splits sum.splits option.splits) (metis snd_conv)+
qed

lemma pair_io_within [keeps_intros]:
  "keeps (within T) (pair_send j m)" "keeps (within T) (pair_recv j)"
  "keeps (within T) (peer_pair_request n)" "keeps (within T) (peer_paired n)"
  unfolding pair_send_def pair_recv_def peer_pair_request_def peer_paired_def Let_def
  by (auto intro!: keeps_intros)

lemma responder_open_within: "keeps (within T) (responder_open x j identity ip)"
  unfolding responder_open_def Let_def by (auto intro!: keeps_intros split: pair_msg.split prod.split)

lemma set_upsert_by: "set (upsert_by key r rs) \<subseteq> insert r (set rs)"
  using set_update_first [of "\<lambda>x. key x = key r" "\<lambda>_. r" rs] by (auto simp: upsert_by_def)

lemma upsert_within:
  assumes "tp_device_id row \<in> T"
  shows "keeps (within T) (p_db (upsert_trusted_peer row))"
proof (unfold keeps_def, intro allI impI)
  fix w assume w: "within T w"
  have "tp_device_id ` set (upsert_by tp_device_id row rs) \<subseteq> tp_device_id ` insert row (set rs)" for rs
    by (rule image_mono [OF set_upsert_by])
  moreover have "tp_device_id ` insert row (set (trusted_peers (w_db w))) \<subseteq> T"
    using w assms by (simp add: within_def trusts_def)
  ultimately have "tp_device_id ` set (upsert_by tp_device_id row (trusted_peers (w_db w))) \<subseteq> T"
    by (rule subset_trans)
  moreover define w' where "w' = snd (p_db (upsert_trusted_peer row) w)"
  then have "(trusted_peers (w_db w') = trusted_peers (w_db w) \<or> trusted_peers (w_db w') = upsert_by tp_device_id row (trusted_peers (w_db w)))
      \<and> p_trusted w' = p_trusted w"
    by (simp add: p_db_def upsert_trusted_peer_def sql_execute_def db_exec_def act_simps Let_def)
  ultimately have "within T w'" using w unfolding within_def trusts_def by auto
  then show "within T (snd (p_db (upsert_trusted_peer row) w))" by (simp add: w'_def)
qed

lemma store_peer_within: "i \<in> T \<Longrightarrow> keeps (within T) (store_peer x i n k)"
  unfolding store_peer_def Let_def by (auto intro!: keeps_intros upsert_within simp: trust_row_def)

lemma responder_finish_within:
  assumes "b \<Longrightarrow> fst req \<in> T"
  shows "keeps (within T) (responder_finish x j identity req b)"
proof (cases b)
  case True
  with assms have "fst req \<in> T" by simp
  then have "keeps (within T) (act_mod (\<lambda>w. w\<lparr>p_trusted := insert (fst req) (p_trusted w)\<rparr>))"
    by (intro keeps_mod) (auto simp: within_def trusts_def)
  with \<open>fst req \<in> T\<close> show ?thesis
    unfolding responder_finish_def Let_def case_prod_beta'
    by (auto intro!: keeps_intros store_peer_within split: pair_msg.split)
next
  case False
  then show ?thesis unfolding responder_finish_def case_prod_beta' by (auto intro!: keeps_intros)
qed

text \<open>What the users of the machine have agreed to: the accept that went to a waiting connection's
  channel.\<close>

definition consented :: "ext \<Rightarrow> pair_json \<Rightarrow> local_identity \<Rightarrow> pworld \<Rightarrow> pair_op list \<Rightarrow> nat \<Rightarrow> bool" where
  "consented x j identity w ops i \<longleftrightarrow> (\<exists>pre post. ops = pre @ Decide True # post \<and> ps_slot (pair_run x j identity w pre) = Some i)"

definition announced :: "ext \<Rightarrow> pair_json \<Rightarrow> local_identity \<Rightarrow> pworld \<Rightarrow> pair_op list \<Rightarrow> nat \<Rightarrow> string \<Rightarrow> bool" where
  "announced x j identity w ops i d \<longleftrightarrow> (\<exists>pre post c n. ops = pre @ post \<and> ps_phase (pair_run x j identity w pre) i = Waiting c (d, n))"

lemma pair_run_simps [simp]:
  "pair_run x j identity w (ops @ [op]) = pair_do x j identity op (pair_run x j identity w ops)"
  by (simp add: pair_run_def)

lemma consented_snoc: "consented x j identity w ops i \<Longrightarrow> consented x j identity w (ops @ [op]) i"
  unfolding consented_def by (metis append_Cons append_assoc)

lemma announced_snoc: "announced x j identity w ops i d \<Longrightarrow> announced x j identity w (ops @ [op]) i d"
  unfolding announced_def by (metis append_assoc)

lemma slot_below: "ps_slot (pair_run x j identity w ops) = Some i \<Longrightarrow> i < ps_next (pair_run x j identity w ops)"
proof (induction ops arbitrary: i rule: rev_induct)
  case (snoc op ops)
  then show ?case
    by (cases op) (auto simp: accept_conn_def Let_def open_conn_def decide_pair_def finish_conn_def
      split: phase.splits option.splits if_splits prod.splits sum.splits)
qed (simp add: pair_run_def)

lemma chan_consented:
  "ps_chan (pair_run x j identity w ops) i = Decided True \<Longrightarrow> consented x j identity w ops i"
proof (induction ops rule: rev_induct)
  case (snoc op ops)
  let ?s = "pair_run x j identity w ops"
  show ?case
  proof (cases "ps_chan ?s i = Decided True")
    case True
    then show ?thesis using snoc.IH consented_snoc by blast
  next
    case False
    with snoc.prems have "op = Decide True \<and> ps_slot ?s = Some i"
      by (cases op) (auto simp: accept_conn_def Let_def open_conn_def decide_pair_def finish_conn_def
        split: phase.splits option.splits if_splits prod.splits sum.splits)
    then show ?thesis unfolding consented_def by blast
  qed
qed (simp add: pair_run_def)

text \<open>
  C5.  Nobody becomes trusted without consent: in every interleaving of incoming connections, their
  responders and the user's decisions, whatever bytes arrive, each device id in the trusted peers
  table or the live trust set was there at the start, or was announced by a connection to whose
  channel the user's accept was delivered.
\<close>

theorem trust_needs_consent:
  "trusts (ps_world (pair_run x j identity w ops)) \<subseteq> trusts w
     \<union> {d. \<exists>i. announced x j identity w ops i d \<and> consented x j identity w ops i}"
proof (induction ops rule: rev_induct)
  case (snoc op ops)
  let ?s = "pair_run x j identity w ops"
  let ?T = "\<lambda>ops. trusts w \<union> {d. \<exists>i. announced x j identity w ops i d \<and> consented x j identity w ops i}"
  have T: "?T ops \<subseteq> ?T (ops @ [op])" using announced_snoc consented_snoc by blast
  with snoc.IH have s: "within (?T (ops @ [op])) (ps_world ?s)" unfolding within_def by blast
  then have c: "within (?T (ops @ [op])) ((ps_world ?s)\<lparr>w_conn := k\<rparr>)" for k by simp
  have "within (?T (ops @ [op])) (ps_world (pair_do x j identity op ?s))"
  proof (cases op)
    case (Open i)
    with s show ?thesis
      by (auto simp: open_conn_def split: phase.split prod.split sum.split dest: keepsE [OF responder_open_within _ c])
  next
    case (Finish i)
    show ?thesis
    proof (cases "\<exists>k req b. ps_phase ?s i = Waiting k req \<and> decision (ps_chan ?s i) = Some b")
      case True
      then obtain k req b where kb: "ps_phase ?s i = Waiting k req" "decision (ps_chan ?s i) = Some b" by blast
      have "fst req \<in> ?T (ops @ [op])" if b
      proof -
        have "ps_chan ?s i = Decided True" using kb(2) that by (auto simp: decision_def split: chan.splits)
        then have "consented x j identity w (ops @ [op]) i" by (intro consented_snoc chan_consented)
        moreover have "announced x j identity w (ops @ [op]) i (fst req)"
          unfolding announced_def using kb(1) by (metis prod.collapse)
        ultimately show ?thesis by blast
      qed
      from keepsD [OF responder_finish_within [OF this] c] kb Finish show ?thesis by (simp add: finish_conn_def)
    qed (use Finish s in \<open>auto simp: finish_conn_def split: phase.split option.split\<close>)
  qed (use s in \<open>auto simp: accept_conn_def Let_def decide_pair_def split: option.split\<close>)
  then show ?case by (simp add: within_def)
qed (simp add: pair_run_def)


text \<open>The slot holds the newest connection's channel alone: when a connection comes in between the
  request the user sees and the user's answer, the request seen is refused and the answer goes to the
  newcomer.\<close>

lemma newest_connection_takes_decision:
  assumes "ps_slot s = Some k"
  shows "case accept_pair_cmd (accept_conn c ip s) of (r, s') \<Rightarrow>
    r = Inr () \<and> ps_chan s' (ps_next s) = Decided True \<and> (k \<noteq> ps_next s \<longrightarrow> decision (ps_chan s' k) = Some False)"
  using assms by (simp add: accept_pair_cmd_def decide_pair_def accept_conn_def Let_def decision_def)

section \<open>A completed ceremony\<close>

definition pair_json_ok :: "pair_json \<Rightarrow> bool" where
  "pair_json_ok j \<longleftrightarrow> (\<forall>m. j_unpair j (j_pair j m) = Some m)"

abbreviation pair_frame :: "pair_json \<Rightarrow> pair_msg \<Rightarrow> bytes" where
  "pair_frame j m \<equiv> frame_of (j_pair j m)"

lemma write_plain_Inr:
  "write_plain b c = (Inr u, c') \<Longrightarrow> length b \<le> MAX_FRAME_BYTES \<and> c_out c' = c_out c @ frame_of b \<and> c_in c' = c_in c"
  by (auto simp: write_plain_def flush_def write_all_def act_simps write_frame_def frame_of_def
      split: if_splits list.splits option.splits)

lemma pair_send_Inr:
  assumes "pair_send j m w = (Inr u, w')"
  obtains c where "w' = w\<lparr>w_conn := c\<rparr>" "length (j_pair j m) \<le> MAX_FRAME_BYTES"
    "c_out c = c_out (w_conn w) @ pair_frame j m" "c_in c = c_in (w_conn w)"
  using assms write_plain_Inr by (fastforce simp: pair_send_def p_conn_def split: prod.splits)

lemma pair_recv_Inr:
  assumes "pair_recv j w = (Inr m, w')"
  shows "\<exists>b. w' = w\<lparr>w_conn := (w_conn w)\<lparr>c_in := b\<rparr>\<rparr>"
  using assms
  by (auto simp: pair_recv_def p_conn_def read_exact_def act_simps Let_def split: if_splits prod.splits sum.splits)

lemma pair_recv_frame:
  assumes "pair_json_ok j" "pair_recv j w = (Inr m', w')" "c_in (w_conn w) = pair_frame j m @ r"
    "length (j_pair j m) \<le> MAX_FRAME_BYTES"
  shows "m' = m \<and> c_in (w_conn w') = r"
proof -
  let ?b = "j_pair j m"
  have "length ?b < 2 ^ 32" using assms(4) by (simp add: MAX_FRAME_BYTES_def)
  then have "read_frame_len (le32 (word_of_nat (length ?b))) = length ?b" by (rule read_frame_len_le32)
  then show ?thesis
    using assms
    by (auto simp: pair_recv_def act_simps p_conn_def read_exact_def frame_of_def Let_def pair_json_ok_def split: if_splits)
qed

text \<open>Both sides' view of a run that succeeded: the messages received and sent.\<close>

definition initiate :: "ext \<Rightarrow> pair_json \<Rightarrow> string \<Rightarrow> 16 word \<Rightarrow> local_identity \<Rightarrow> (pending_pairing \<times> trusted_peer) p_act" where
  "initiate x j ip port identity = act_bind (begin_pairing x j ip port identity)
     (\<lambda>p. act_bind (confirm_pairing x j p identity) (\<lambda>t. act_ret (p, t)))"

definition eph :: "ext \<Rightarrow> pworld \<Rightarrow> bytes" where
  "eph x w = fst (generate_ephemeral x (w_seed w))"

definition request_of :: "ext \<Rightarrow> local_identity \<Rightarrow> pworld \<Rightarrow> pair_msg" where
  "request_of x i w = PairRequest (id_device_id i) (id_device_name i) (to_b64 x (snd (generate_ephemeral x (w_seed w))))"

definition accept_of :: "ext \<Rightarrow> local_identity \<Rightarrow> pworld \<Rightarrow> pair_msg" where
  "accept_of x i w = PairAccept (id_device_id i) (id_device_name i) (to_b64 x (snd (generate_ephemeral x (w_seed w))))"

lemma begin_pairing_Inr:
  assumes "begin_pairing x j ip port identity w = (Inr p, w')" "p_dials w = Inr c # ds"
  obtains v v' i n k pub where "pair_recv j v = (Inr (PairAccept i n k), v')" "eph_key x k = Inr pub"
    "c_in (w_conn v) = c_in c" "c_out (w_conn v) = c_out c @ pair_frame j (request_of x identity w)"
    "length (j_pair j (request_of x identity w)) \<le> MAX_FRAME_BYTES"
    "p = \<lparr> pp_stream = w_conn v', pp_shared_secret = ephemeral_dh x (eph x w) pub, pp_device_id = i, pp_name = n,
       pp_pubkey_b64 = k, pp_verify_code = pairing_code x (ephemeral_dh x (eph x w) pub) \<rparr>"
proof -
  obtain sec pub0 where g: "generate_ephemeral x (w_seed w) = (sec, pub0)" by fastforce
  define w1 where "w1 = w\<lparr>p_dialed := p_dialed w @ [(ip, port)], w_conn := c, p_dials := ds, w_seed := w_seed w + 1\<rparr>"
  have c1: "w_conn w1 = c" by (simp add: w1_def)
  obtain u v where s: "pair_send j (request_of x identity w) w1 = (Inr u, v)"
    and rest: "act_bind (pair_recv j) (accept_reply x j sec) v = (Inr p, w')"
    using assms g
    by (auto simp: begin_pairing_def act_bind_run p_connect_def p_draw_def w1_def request_of_def Let_def split: prod.splits sum.splits)
  from rest obtain m v' where r: "pair_recv j v = (Inr m, v')" by (rule act_bind_Inr)
  with rest obtain i n k where m: "m = PairAccept i n k"
    by (cases m) (auto simp: act_bind_run act_err_def accept_reply_def)
  with rest r obtain pub where k: "eph_key x k = Inr pub"
    by (auto simp: act_bind_run act_lift_def accept_reply_def split: sum.splits)
  have "p = \<lparr> pp_stream = w_conn v', pp_shared_secret = ephemeral_dh x (eph x w) pub, pp_device_id = i, pp_name = n,
       pp_pubkey_b64 = k, pp_verify_code = pairing_code x (ephemeral_dh x (eph x w) pub) \<rparr>"
    using rest r m k g by (auto simp: accept_reply_def act_simps Let_def eph_def)
  moreover obtain cc where cc: "v = w1\<lparr>w_conn := cc\<rparr>" "length (j_pair j (request_of x identity w)) \<le> MAX_FRAME_BYTES"
    "c_out cc = c_out c @ pair_frame j (request_of x identity w)" "c_in cc = c_in c"
    using pair_send_Inr [OF s] c1 by metis
  ultimately show thesis
    using that [of v i n k v' pub] r m k by simp
qed

lemma store_peer_Inr:
  assumes "store_peer x i n k w = (Inr row, w')"
  shows "tp_device_id row = i \<and> tp_device_name row = n \<and> tp_pubkey_b64 row = k \<and> row \<in> set (trusted_peers (w_db w'))
    \<and> w_conn w' = w_conn w \<and> p_trusted w' = p_trusted w \<and> p_events w' = p_events w"
proof -
  have up: "r \<in> set (upsert_by key r rs)" for r :: trusted_peer_row and key :: "trusted_peer_row \<Rightarrow> string" and rs
    by (induction rs) (auto simp: upsert_by_def split: if_splits)
  show ?thesis
    using assms
    by (auto simp: store_peer_def act_simps Let_def p_db_def upsert_trusted_peer_def sql_execute_def db_exec_def trust_row_def up
        split: if_splits sum.splits prod.splits)
qed

lemma confirm_pairing_Inr:
  assumes "confirm_pairing x j p identity w = (Inr t, w')"
  obtains v v' k row where "pair_recv j v = (Inr (PairComplete k), v')" "c_in (w_conn v) = c_in (pp_stream p)"
    "c_out (w_conn v) = c_out (pp_stream p) @ pair_frame j (PairConfirm (id_pubkey_b64 identity))"
    "length (j_pair j (PairConfirm (id_pubkey_b64 identity))) \<le> MAX_FRAME_BYTES"
    "row \<in> set (trusted_peers (w_db w'))" "tp_device_id row = pp_device_id p" "tp_pubkey_b64 row = k"
    "w_conn w' = w_conn v'"
proof -
  from assms obtain u0 v0 u v m v' k v1 row w2
    where "(act_mod (\<lambda>w. w\<lparr>w_conn := pp_stream p\<rparr>) :: unit p_act) w = (Inr u0, v0)"
      and s: "pair_send j (PairConfirm (id_pubkey_b64 identity)) v0 = (Inr u, v)" and r: "pair_recv j v = (Inr m, v')"
      and m: "(case m of PairComplete k \<Rightarrow> act_ret k | PairRejected \<Rightarrow> act_err PRejected
        | other \<Rightarrow> act_err (unexpected j other)) v' = (Inr k, v1)"
      and st: "store_peer x (pp_device_id p) (pp_name p) k v1 = (Inr row, w2)" and "act_lift (trusted_of x row) w2 = (Inr t, w')"
    unfolding confirm_pairing_def by (elim act_bind_Inr act_then_Inr) (rule that)
  then have v0: "w_conn v0 = pp_stream p" and w2: "w2 = w'" by (auto simp: act_mod_def act_lift_def)
  from m have "m = PairComplete k" "v1 = v'" by (auto simp: act_ret_def act_err_def split: pair_msg.splits)
  obtain c where "v = v0\<lparr>w_conn := c\<rparr>" "length (j_pair j (PairConfirm (id_pubkey_b64 identity))) \<le> MAX_FRAME_BYTES"
    "c_out c = c_out (pp_stream p) @ pair_frame j (PairConfirm (id_pubkey_b64 identity))" "c_in c = c_in (pp_stream p)"
    using pair_send_Inr [OF s] v0 by metis
  with store_peer_Inr [OF st] r w2 \<open>m = PairComplete k\<close> \<open>v1 = v'\<close> show thesis
    using that [of v k v' row] by simp
qed


text \<open>Events and notifications leave the connection and the trust alone and only add to the events.\<close>

definition after :: "pworld \<Rightarrow> pworld \<Rightarrow> bool" where
  "after w0 w \<longleftrightarrow> w_conn w = w_conn w0 \<and> trusted_peers (w_db w) = trusted_peers (w_db w0) \<and> p_trusted w = p_trusted w0
     \<and> w_seed w = w_seed w0 \<and> set (p_events w0) \<subseteq> set (p_events w)"

lemma after_refl: "after w w" by (simp add: after_def)

lemma p_notify_after: "p_notify t b w = (r, w') \<Longrightarrow> after w w'"
  by (auto simp: p_notify_def p_db_def get_setting_def sql_query_def db_exec_def act_simps Let_def after_def
      split: prod.splits sum.splits option.splits if_splits)

lemma p_emit_after: "p_emit e w = (Inr u, w') \<Longrightarrow> after w w' \<and> e \<in> set (p_events w')"
  by (auto simp: p_emit_def Let_def after_def split: if_splits)

lemma responder_open_Inr:
  assumes "responder_open x j identity ip w = (Inr (i, n), w')"
  obtains v k pub where "pair_recv j w = (Inr (PairRequest i n k), v)" "eph_key x k = Inr pub"
    "PairRequested i n ip (pairing_code x (ephemeral_dh x (eph x w) pub)) \<in> set (p_events w')"
    "c_out (w_conn w') = c_out (w_conn v) @ pair_frame j (accept_of x identity w)" "c_in (w_conn w') = c_in (w_conn v)"
    "length (j_pair j (accept_of x identity w)) \<le> MAX_FRAME_BYTES"
proof -
  from assms obtain m v where r: "pair_recv j w = (Inr m, v)"
    unfolding responder_open_def by (elim act_bind_Inr)
  obtain sec pub0 where g: "generate_ephemeral x (w_seed w) = (sec, pub0)" by fastforce
  have seed: "w_seed v = w_seed w" using pair_recv_Inr [OF r] by auto
  obtain i' n' k where m: "m = PairRequest i' n' k"
    using assms r by (cases m) (auto simp: responder_open_def act_simps)
  obtain pub where k: "eph_key x k = Inr pub"
    using assms r m by (cases "eph_key x k") (auto simp: responder_open_def act_simps)
  define v1 where "v1 = v\<lparr>w_seed := w_seed v + 1\<rparr>"
  define ev where "ev = PairRequested i' n' ip (pairing_code x (ephemeral_dh x sec pub))"
  obtain r2 v2 where 2: "peer_pair_request n' v1 = (r2, v2)" by fastforce
  obtain r3 v3 where 3: "p_emit ev v2 = (r3, v3)" by fastforce
  obtain r4 v4 where 4: "pair_send j (accept_of x identity w) v3 = (r4, v4)" by fastforce
  have run: "responder_open x j identity ip w = (case r2 of Inl e \<Rightarrow> (Inl e, v2) | Inr _ \<Rightarrow> (case r3 of Inl e \<Rightarrow> (Inl e, v3)
      | Inr _ \<Rightarrow> (case r4 of Inl e \<Rightarrow> (Inl e, v4) | Inr _ \<Rightarrow> (Inr (i', n'), v4))))"
    using r m k g seed 2 3 4
    by (simp add: responder_open_def act_simps p_draw_def v1_def ev_def accept_of_def Let_def split: sum.split)
  with assms obtain u3 u4 where ok: "r3 = Inr u3" "r4 = Inr u4" and eq: "i' = i" "n' = n" "v4 = w'"
    by (auto split: sum.splits)
  have a2: "after v1 v2" using 2 p_notify_after by (auto simp: peer_pair_request_def)
  note a3 = p_emit_after [OF 3 [unfolded ok(1)]]
  obtain c where c: "v4 = v3\<lparr>w_conn := c\<rparr>" "length (j_pair j (accept_of x identity w)) \<le> MAX_FRAME_BYTES"
    "c_out c = c_out (w_conn v3) @ pair_frame j (accept_of x identity w)" "c_in c = c_in (w_conn v3)"
    using pair_send_Inr [OF 4 [unfolded ok(2)]] by metis
  have w': "w_conn w' = c" "p_events w' = p_events v3" unfolding eq(3) [symmetric] c(1) by simp_all
  have v3: "c_out (w_conn v3) = c_out (w_conn v)" "c_in (w_conn v3) = c_in (w_conn v)"
    using a2 a3 by (simp_all add: after_def v1_def)
  have sec: "sec = eph x w" using g by (simp add: eph_def)
  have req: "pair_recv j w = (Inr (PairRequest i n k), v)" using r m eq(1,2) by simp
  have ev: "PairRequested i n ip (pairing_code x (ephemeral_dh x (eph x w) pub)) \<in> set (p_events w')"
    using a3 w'(2) ev_def eq(1,2) sec by simp
  show thesis by (rule that [OF req k ev]) (simp_all add: w' v3 c)
qed

lemma responder_finish_Inr:
  assumes "responder_finish x j identity (i, n) True w = (Inr u, w')"
  obtains v k row where "pair_recv j w = (Inr (PairConfirm k), v)"
    "row \<in> set (trusted_peers (w_db w'))" "tp_device_id row = i" "tp_pubkey_b64 row = k" "i \<in> p_trusted w'"
    "c_out (w_conn w') = c_out (w_conn v) @ pair_frame j (PairComplete (id_pubkey_b64 identity))"
    "length (j_pair j (PairComplete (id_pubkey_b64 identity))) \<le> MAX_FRAME_BYTES" "set (p_events w) \<subseteq> set (p_events w')"
proof -
  from assms obtain m v k v1 row v2 u3 v3 u4 v4 t v5 u6 v6
    where r: "pair_recv j w = (Inr m, v)"
      and m: "(case m of PairConfirm k \<Rightarrow> act_ret k | other \<Rightarrow> act_err (unexpected j other)) v = (Inr k, v1)"
      and st: "store_peer x i n k v1 = (Inr row, v2)"
      and md: "(act_mod (\<lambda>w. w\<lparr>p_trusted := insert i (p_trusted w)\<rparr>) :: unit p_act) v2 = (Inr u3, v3)"
      and s: "pair_send j (PairComplete (id_pubkey_b64 identity)) v3 = (Inr u4, v4)"
      and tr: "act_lift (trusted_of x row) v4 = (Inr t, v5)" and em: "p_emit (PairCompleted t) v5 = (Inr u6, v6)"
      and nt: "peer_paired (pr_device_name t) v6 = (Inr u, w')"
    unfolding responder_finish_def prod.case if_False simp_thms by (elim act_bind_Inr act_then_Inr) (rule that)
  from m have "m = PairConfirm k" "v1 = v" by (auto simp: act_ret_def act_err_def split: pair_msg.splits)
  moreover obtain c where c: "v4 = v3\<lparr>w_conn := c\<rparr>" "length (j_pair j (PairComplete (id_pubkey_b64 identity))) \<le> MAX_FRAME_BYTES"
    "c_out c = c_out (w_conn v3) @ pair_frame j (PairComplete (id_pubkey_b64 identity))"
    using pair_send_Inr [OF s] by metis
  moreover have "v5 = v4" "v3 = v2\<lparr>p_trusted := insert i (p_trusted v2)\<rparr>" using tr md by (auto simp: act_lift_def act_mod_def)
  moreover have "after v6 w'" using p_notify_after nt by (simp add: peer_paired_def)
  moreover have "p_events v = p_events w" using pair_recv_Inr [OF r] by auto
  ultimately show thesis
    using that [of k v row] r store_peer_Inr [OF st] p_emit_after [OF em] by (simp add: after_def) blast
qed

text \<open>
  C17.  Pairing agrees on keys: when both sides of a pairing end well, over a connection that hands
  each the other's output, the verification codes shown to the two users are equal, and each side
  trusts the other's device id with the other's long-term public key.
\<close>

theorem pairing_agreement:
  assumes "dh_ok x" "b64_ok x" "pub_ok x" "random_ok x" "pair_json_ok j"
    and a: "initiate x j ip port ia wa = (Inr (p, t), wa')" "p_dials wa = Inr ca # ds"
    and b: "handle_responder x j ib aip True wb = (Inr u, wb')"
    and net: "c_in ca = drop (length (c_out (w_conn wb))) (c_out (w_conn wb'))"
      "c_in (w_conn wb) = drop (length (c_out ca)) (c_out (w_conn wa'))"
  shows "PairRequested (id_device_id ia) (id_device_name ia) aip (pp_verify_code p) \<in> set (p_events wb')
    \<and> (\<exists>r \<in> set (trusted_peers (w_db wa')). tp_device_id r = id_device_id ib \<and> tp_pubkey_b64 r = id_pubkey_b64 ib)
    \<and> (\<exists>r \<in> set (trusted_peers (w_db wb')). tp_device_id r = id_device_id ia \<and> tp_pubkey_b64 r = id_pubkey_b64 ia)
    \<and> id_device_id ia \<in> p_trusted wb'"
proof -
  from a(1) obtain w1 w2 where ab: "begin_pairing x j ip port ia wa = (Inr p, w1)" "confirm_pairing x j p ia w1 = (Inr t, w2)" "w2 = wa'"
    unfolding initiate_def by (elim act_bind_Inr) (auto simp: act_ret_def)
  obtain v1 v1' i1 n1 k1 pub1 where A1: "pair_recv j v1 = (Inr (PairAccept i1 n1 k1), v1')" "eph_key x k1 = Inr pub1"
    "c_in (w_conn v1) = c_in ca" "c_out (w_conn v1) = c_out ca @ pair_frame j (request_of x ia wa)"
    "length (j_pair j (request_of x ia wa)) \<le> MAX_FRAME_BYTES"
    "p = \<lparr> pp_stream = w_conn v1', pp_shared_secret = ephemeral_dh x (eph x wa) pub1, pp_device_id = i1, pp_name = n1,
       pp_pubkey_b64 = k1, pp_verify_code = pairing_code x (ephemeral_dh x (eph x wa) pub1) \<rparr>"
    by (rule begin_pairing_Inr [OF ab(1) a(2)])
  obtain v2 v2' k2 row2 where A2: "pair_recv j v2 = (Inr (PairComplete k2), v2')" "c_in (w_conn v2) = c_in (pp_stream p)"
    "c_out (w_conn v2) = c_out (pp_stream p) @ pair_frame j (PairConfirm (id_pubkey_b64 ia))"
    "length (j_pair j (PairConfirm (id_pubkey_b64 ia))) \<le> MAX_FRAME_BYTES"
    "row2 \<in> set (trusted_peers (w_db w2))" "tp_device_id row2 = pp_device_id p" "tp_pubkey_b64 row2 = k2" "w_conn w2 = w_conn v2'"
    by (rule confirm_pairing_Inr [OF ab(2)])
  from b obtain i3 n3 w3 where bb: "responder_open x j ib aip wb = (Inr (i3, n3), w3)" "responder_finish x j ib (i3, n3) True w3 = (Inr u, wb')"
    unfolding handle_responder_def by (elim act_bind_Inr) auto
  obtain v3 k3 pub3 where B1: "pair_recv j wb = (Inr (PairRequest i3 n3 k3), v3)" "eph_key x k3 = Inr pub3"
    "PairRequested i3 n3 aip (pairing_code x (ephemeral_dh x (eph x wb) pub3)) \<in> set (p_events w3)"
    "c_out (w_conn w3) = c_out (w_conn v3) @ pair_frame j (accept_of x ib wb)" "c_in (w_conn w3) = c_in (w_conn v3)"
    "length (j_pair j (accept_of x ib wb)) \<le> MAX_FRAME_BYTES"
    by (rule responder_open_Inr [OF bb(1)])
  obtain v4 k4 row4 where B2: "pair_recv j w3 = (Inr (PairConfirm k4), v4)"
    "row4 \<in> set (trusted_peers (w_db wb'))" "tp_device_id row4 = i3" "tp_pubkey_b64 row4 = k4" "i3 \<in> p_trusted wb'"
    "c_out (w_conn wb') = c_out (w_conn v4) @ pair_frame j (PairComplete (id_pubkey_b64 ib))"
    "length (j_pair j (PairComplete (id_pubkey_b64 ib))) \<le> MAX_FRAME_BYTES" "set (p_events w3) \<subseteq> set (p_events wb')"
    by (rule responder_finish_Inr [OF bb(2)])
  have outs: "c_out (w_conn v1') = c_out (w_conn v1)" "c_out (w_conn v2') = c_out (w_conn v2)"
    "c_out (w_conn v3) = c_out (w_conn wb)" "c_out (w_conn v4) = c_out (w_conn w3)"
    using pair_recv_Inr [OF A1(1)] pair_recv_Inr [OF A2(1)] pair_recv_Inr [OF B1(1)] pair_recv_Inr [OF B2(1)] by auto
  have inA: "c_in (w_conn v1) = pair_frame j (accept_of x ib wb) @ pair_frame j (PairComplete (id_pubkey_b64 ib))"
    using net(1) A1(3) B2(6) B1(4) outs by simp
  have inB: "c_in (w_conn wb) = pair_frame j (request_of x ia wa) @ pair_frame j (PairConfirm (id_pubkey_b64 ia))"
    using net(2) ab(3) A2(3,8) A1(4,6) outs by simp
  note rA = pair_recv_frame [OF assms(5) A1(1) inA B1(6)] and rB = pair_recv_frame [OF assms(5) B1(1) inB A1(5)]
  have "c_in (w_conn v2) = pair_frame j (PairComplete (id_pubkey_b64 ib)) @ []" using A2(2) A1(6) rA by simp
  note rA2 = pair_recv_frame [OF assms(5) A2(1) this B2(7)]
  have "c_in (w_conn w3) = pair_frame j (PairConfirm (id_pubkey_b64 ia)) @ []" using B1(5) rB by simp
  note rB2 = pair_recv_frame [OF assms(5) B2(1) this A2(4)]
  have keys: "eph_key x (to_b64 x (x_pub x s)) = Inr (x_pub x s)" if "length s = 32" for s
    using that assms(2,3) by (simp add: eph_key_def from_b64_def to_b64_def b64_ok_def pub_ok_def pair_key32_def)
  have gen: "generate_ephemeral x s = (x_random x s 32, x_pub x (x_random x s 32))" "length (x_random x s 32) = 32" for s
    using assms(4) by (simp_all add: generate_ephemeral_def random_ok_def Let_def)
  have "pub1 = x_pub x (eph x wb)" "pub3 = x_pub x (eph x wa)"
    using A1(2) B1(2) rA rB keys gen by (simp_all add: accept_of_def request_of_def eph_def)
  then have "ephemeral_dh x (eph x wb) pub3 = ephemeral_dh x (eph x wa) pub1"
    using assms(1) by (simp add: ephemeral_dh_def dh_ok_def)
  with B1(3) B2(8) A1(6) have "PairRequested i3 n3 aip (pp_verify_code p) \<in> set (p_events wb')" by auto
  with rA rB rA2 rB2 A1(6) A2(5-7) B2(2-5) ab(3) show ?thesis
    by (auto simp: accept_of_def request_of_def)
qed

end
