(* ===== verification/Pairing_Run.thy ===== *)
theory Pairing_Run
  imports Pairing
begin

text \<open>A pairing between two concrete machines, run step by step: the hypotheses of the agreement theorem
  can hold.\<close>

section \<open>A ceremony on concrete machines\<close>

lemma pair_send_ok:
  assumes "c_faults (w_conn w) = []" "length (j_pair j m) \<le> MAX_FRAME_BYTES"
  shows "pair_send j m w = (Inr (), w\<lparr>w_conn := (w_conn w)\<lparr>c_out := c_out (w_conn w) @ pair_frame j m\<rparr>\<rparr>)"
  using write_plain_ok [OF assms] by (simp add: pair_send_def p_conn_def)

lemma pair_recv_ok:
  assumes "pair_json_ok j" "c_in (w_conn w) = pair_frame j m @ r" "length (j_pair j m) \<le> MAX_PAIR_MSG"
  shows "pair_recv j w = (Inr m, w\<lparr>w_conn := (w_conn w)\<lparr>c_in := r\<rparr>\<rparr>)"
proof -
  let ?b = "j_pair j m"
  have "length ?b < 2 ^ 32" using assms(3) by (simp add: MAX_PAIR_MSG_def)
  then have "read_frame_len (le32 (word_of_nat (length ?b))) = length ?b" by (rule read_frame_len_le32)
  with assms show ?thesis
    by (simp add: pair_recv_def act_simps p_conn_def read_exact_def frame_of_def Let_def pair_json_ok_def)
qed

text \<open>A wire form: a tag, then each field as its characters, each after a 0, and a closing 1.\<close>

definition enc_field :: "string \<Rightarrow> bytes" where
  "enc_field s = concat (map (\<lambda>c. [0, word_of_nat (code c)]) s) @ [1]"

fun dec_field :: "bytes \<Rightarrow> string \<times> bytes" where
  "dec_field (t # c # b) = (if t = 0 then (case dec_field b of (s, r) \<Rightarrow> (char_of (unat c) # s, r)) else ([], c # b))"
| "dec_field b = ([], [])"

lemma code_char_byte: "char_of (unat (word_of_nat (code c) :: byte)) = c"
proof -
  have "code c < 256" by simp
  then have "unat (word_of_nat (code c) :: byte) = code c" by (simp add: unat_of_nat take_bit_eq_mod)
  then show ?thesis by simp
qed

lemma dec_enc_field: "dec_field (enc_field s @ r) = (s, r)"
proof (induction s)
  case Nil
  then show ?case by (cases r) (simp_all add: enc_field_def)
qed (simp add: enc_field_def code_char_byte)

lemma length_enc_field [simp]: "length (enc_field s) = 2 * length s + 1"
  by (induction s) (simp_all add: enc_field_def)

definition toy_pair_json :: pair_json where
  "toy_pair_json = \<lparr>
     j_pair = (\<lambda>m. case m of
         PairRequest a b c \<Rightarrow> 1 # enc_field a @ enc_field b @ enc_field c @ []
       | PairAccept a b c \<Rightarrow> 2 # enc_field a @ enc_field b @ enc_field c @ []
       | PairRejected \<Rightarrow> [3] | PairConfirm k \<Rightarrow> 4 # enc_field k @ [] | PairComplete k \<Rightarrow> 5 # enc_field k @ []),
     j_unpair = (\<lambda>b. case b of [] \<Rightarrow> None | t # r \<Rightarrow>
       (case dec_field r of (f1, r1) \<Rightarrow> case dec_field r1 of (f2, r2) \<Rightarrow> case dec_field r2 of (f3, r3) \<Rightarrow>
         if t = 1 then Some (PairRequest f1 f2 f3) else if t = 2 then Some (PairAccept f1 f2 f3)
         else if t = 3 then Some PairRejected else if t = 4 then Some (PairConfirm f1) else Some (PairComplete f1))),
     j_pair_debug = (\<lambda>_. ''message'') \<rparr>"

lemma toy_pair_json_ok: "pair_json_ok toy_pair_json"
  unfolding pair_json_ok_def
proof
  fix m
  have d: "dec_field (enc_field s) = (s, [])" for s using dec_enc_field [of s "[]"] by simp
  show "j_unpair toy_pair_json (j_pair toy_pair_json m) = Some m"
    by (cases m) (simp_all add: toy_pair_json_def dec_enc_field d split: prod.split)
qed

definition toy_side :: "string \<Rightarrow> local_identity" where
  "toy_side n = \<lparr> id_device_id = n, id_device_name = n, id_pubkey_b64 = n, id_privkey_bytes = [] \<rparr>"

definition toy_pworld :: "nat \<Rightarrow> conn \<Rightarrow> pworld" where
  "toy_pworld seed c = \<lparr> w_conn = c, w_db = db_empty, w_seed = seed, p_trusted = {}, p_events = [], p_dials = [Inr c],
     p_dialed = [], p_emit_faults = [], p_clock = 0 \<rparr>"

abbreviation toy_says :: "pair_msg \<Rightarrow> bytes" where
  "toy_says \<equiv> pair_frame toy_pair_json"

definition toy_from_a :: bytes where
  "toy_from_a = toy_says (PairRequest ''a'' ''a'' (to_b64 toy_ext (replicate 32 1))) @ toy_says (PairConfirm ''a'')"

definition toy_from_b :: bytes where
  "toy_from_b = toy_says (PairAccept ''b'' ''b'' (to_b64 toy_ext (replicate 32 2))) @ toy_says (PairComplete ''b'')"

text \<open>Rewriting rules that run a step on an explicit state.\<close>

lemma toy_pair_json_length [simp]:
  "length (j_pair toy_pair_json (PairRequest a b c)) = 2 * (length a + length b + length c) + 4"
  "length (j_pair toy_pair_json (PairAccept a b c)) = 2 * (length a + length b + length c) + 4"
  "length (j_pair toy_pair_json (PairConfirm a)) = 2 * length a + 2"
  "length (j_pair toy_pair_json (PairComplete a)) = 2 * length a + 2"
  by (simp_all add: toy_pair_json_def)

lemma toy_recv:
  assumes "length (j_pair toy_pair_json m) \<le> MAX_PAIR_MSG"
  shows "pair_recv toy_pair_json (pworld.make \<lparr>c_in = toy_says m @ r, c_out = b, c_faults = f\<rparr> d s t es ds dd ef k)
    = (Inr m, pworld.make \<lparr>c_in = r, c_out = b, c_faults = f\<rparr> d s t es ds dd ef k)"
  using pair_recv_ok [OF toy_pair_json_ok _ assms] by (simp add: pworld.make_def)

lemma toy_send:
  assumes "length (j_pair toy_pair_json m) \<le> MAX_FRAME_BYTES"
  shows "pair_send toy_pair_json m (pworld.make \<lparr>c_in = r, c_out = b, c_faults = []\<rparr> d s t es ds dd ef k)
    = (Inr (), pworld.make \<lparr>c_in = r, c_out = b @ toy_says m, c_faults = []\<rparr> d s t es ds dd ef k)"
  using pair_send_ok [OF _ assms] by (simp add: pworld.make_def)

lemma toy_eph:
  "generate_ephemeral toy_ext n = (replicate 32 (word_of_nat n), replicate 32 (word_of_nat n))"
  "eph_key toy_ext (to_b64 toy_ext (replicate 32 b)) = Inr (replicate 32 b)"
  "length (to_b64 toy_ext bs) = length bs"
proof -
  have "x_unb64 toy_ext (x_b64 toy_ext bs) = Some bs" for bs using toy_ext_ok(3) by (simp add: b64_ok_def)
  then show "eph_key toy_ext (to_b64 toy_ext (replicate 32 b)) = Inr (replicate 32 b)"
    by (simp add: eph_key_def from_b64_def to_b64_def pair_key32_def)
qed (simp_all add: generate_ephemeral_def toy_ext_def to_b64_def Let_def)

definition toy_db :: "string \<Rightarrow> string \<Rightarrow> string \<Rightarrow> db" where
  "toy_db i n k = db_empty\<lparr>trusted_peers := [trust_row i n k (to_hex (map (\<lambda>c. word_of_nat (code c)) k)) 0]\<rparr>"

lemma toy_store:
  "store_peer toy_ext i n p (pworld.make c db_empty s t es ds dd ef 0)
    = (Inr (trust_row i n p (to_hex (map (\<lambda>c. word_of_nat (code c)) p)) 0), pworld.make c (toy_db i n p) s t es ds dd ef 0)"
  by (simp add: store_peer_def fingerprint_def toy_ext_def act_simps p_db_def upsert_trusted_peer_def execute_no_faults
      db_empty_def pworld.make_def toy_db_def upsert_by_def Let_def)


text \<open>The two ends of the ceremony.\<close>

definition toy_a :: pworld where
  "toy_a = toy_pworld 1 (idle toy_from_b)"

definition toy_b :: pworld where
  "toy_b = toy_pworld 2 (idle toy_from_a)"

lemma toy_world_make:
  "toy_pworld n c = pworld.make c db_empty n {} [] [Inr c] [] [] 0"
  by (simp add: toy_pworld_def pworld.make_def)

lemmas toy_steps = act_bind_run act_run_simps toy_eph toy_send toy_recv [where r = "[]", simplified] toy_recv
  toy_side_def MAX_FRAME_BYTES_def MAX_PAIR_MSG_def Let_def

lemma toy_state:
  "p_draw (pworld.make c d s t es ds dd ef k) = (Inr s, pworld.make c d (s + 1) t es ds dd ef k)"
  "w_conn (pworld.make c d s t es ds dd ef k) = c"
  "(pworld.make c d s t es ds dd ef k)\<lparr>w_conn := c'\<rparr> = pworld.make c' d s t es ds dd ef k"
  "p_connect h q (pworld.make c d s t es (Inr c' # ds) dd ef k) = (Inr (), pworld.make c' d s t es ds (dd @ [(h, q)]) ef k)"
  "p_emit e (pworld.make c d s t es ds dd [] k) = (Inr (), pworld.make c d s t (es @ [e]) ds dd [] k)"
  "p_trusted (pworld.make c d s t es ds dd ef k) = t"
  "(pworld.make c d s t es ds dd ef k)\<lparr>p_trusted := t'\<rparr> = pworld.make c d s t' es ds dd ef k"
  by (simp_all add: p_draw_def p_connect_def p_emit_def pworld.make_def Let_def)

lemma toy_trusted:
  "trusted_of toy_ext (trust_row (c # i) n k f a) = Inr \<lparr> pr_device_id = c # i, pr_device_name = n, pr_pubkey_b64 = k,
     pr_fingerprint = f, pr_paired_at = a, pr_last_seen = None \<rparr>"
  by (simp add: trusted_of_def peer_of_row_def trust_row_def uuid_of_def toy_ext_def)

lemma toy_notify:
  assumes "d = db_empty \<or> d = toy_db i n k"
  shows "\<exists>es'. p_notify a b (pworld.make c d s t es ds dd ef ck) = (Inr (), pworld.make c d s t es' ds dd ef ck)"
proof -
  have "faults d = []" using assms by (auto simp: toy_db_def db_empty_def)
  then show ?thesis
    by (auto simp: p_notify_def p_db_def get_setting_def query_no_faults pworld.make_def split: option.split)
qed

lemma toy_initiate:
  "\<exists>p t w. initiate toy_ext toy_pair_json ''ip'' 1 (toy_side ''a'') toy_a = (Inr (p, t), w) \<and> c_out (w_conn w) = toy_from_a"
  unfolding toy_a_def toy_world_make initiate_def begin_pairing_def confirm_pairing_def idle_def toy_from_b_def
  by (simp add: toy_steps toy_state accept_reply_def toy_store toy_trusted toy_from_a_def)

lemma toy_respond:
  "\<exists>w. handle_responder toy_ext toy_pair_json (toy_side ''b'') ''ip'' True toy_b = (Inr (), w) \<and> c_out (w_conn w) = toy_from_b"
proof -
  define code2 where "code2 = pairing_code toy_ext (ephemeral_dh toy_ext (replicate 32 2) (replicate 32 1))"
  let ?c1 = "\<lparr>c_in = toy_says (PairConfirm ''a''), c_out = [], c_faults = []\<rparr>"
  obtain es1 where n1: "p_notify ''Pairing request'' (''a'' @ '' wants to pair with this device. Open Synapt to accept or reject.'')
      (pworld.make ?c1 db_empty 3 {} [] [Inr (idle toy_from_a)] [] [] 0)
    = (Inr (), pworld.make ?c1 db_empty 3 {} es1 [Inr (idle toy_from_a)] [] [] 0)" using toy_notify by blast
  let ?c2 = "\<lparr>c_in = toy_says (PairConfirm ''a''), c_out = toy_says (PairAccept ''b'' ''b'' (to_b64 toy_ext (replicate 32 2))),
    c_faults = []\<rparr>"
  let ?c3 = "\<lparr>c_in = [], c_out = toy_from_b, c_faults = []\<rparr>"
  define es2 where "es2 = es1 @ [PairRequested ''a'' ''a'' ''ip'' code2]"
  have op: "responder_open toy_ext toy_pair_json (toy_side ''b'') ''ip'' toy_b = (Inr (''a'', ''a''),
      pworld.make ?c2 db_empty 3 {} es2 [Inr (idle toy_from_a)] [] [] 0)"
    using n1 unfolding toy_b_def toy_world_make responder_open_def toy_from_a_def
    by (simp add: idle_def toy_steps toy_state peer_pair_request_def code2_def es2_def)
  define t where "t = \<lparr> pr_device_id = ''a'', pr_device_name = ''a'', pr_pubkey_b64 = ''a'',
     pr_fingerprint = to_hex [word_of_nat (code (hd ''a''))], pr_paired_at = 0, pr_last_seen = None \<rparr>"
  obtain es3 where n2: "p_notify ''Device paired'' (''a'' @ '' is now a trusted device'')
      (pworld.make ?c3 (toy_db ''a'' ''a'' ''a'') 3 {''a''} (es2 @ [PairCompleted t]) [Inr (idle toy_from_a)] [] [] 0)
    = (Inr (), pworld.make ?c3 (toy_db ''a'' ''a'' ''a'') 3 {''a''} es3 [Inr (idle toy_from_a)] [] [] 0)"
    using toy_notify by blast
  have "\<exists>w. responder_finish toy_ext toy_pair_json (toy_side ''b'') (''a'', ''a'') True
      (pworld.make ?c2 db_empty 3 {} es2 [Inr (idle toy_from_a)] [] [] 0) = (Inr (), w) \<and> c_out (w_conn w) = toy_from_b"
    using n2 unfolding responder_finish_def
    by (simp add: toy_steps toy_state toy_store toy_trusted peer_paired_def t_def toy_from_b_def)
  with op show ?thesis by (simp add: handle_responder_def act_bind_run)
qed

lemma pairing_agreement_witness:
  "\<exists>p wa wb. fst (initiate toy_ext toy_pair_json ''ip'' 1 (toy_side ''a'') toy_a) = Inr p
    \<and> snd (handle_responder toy_ext toy_pair_json (toy_side ''b'') ''ip'' True toy_b) = wb
    \<and> PairRequested ''a'' ''a'' ''ip'' (pp_verify_code (fst p)) \<in> set (p_events wb)
    \<and> (\<exists>r \<in> set (trusted_peers (w_db wb)). tp_device_id r = ''a'' \<and> tp_pubkey_b64 r = ''a'') \<and> ''a'' \<in> p_trusted wb"
proof -
  obtain p t wa where a: "initiate toy_ext toy_pair_json ''ip'' 1 (toy_side ''a'') toy_a = (Inr (p, t), wa)"
    and oa: "c_out (w_conn wa) = toy_from_a" using toy_initiate by blast
  obtain wb where b: "handle_responder toy_ext toy_pair_json (toy_side ''b'') ''ip'' True toy_b = (Inr (), wb)"
    and ob: "c_out (w_conn wb) = toy_from_b" using toy_respond by blast
  have d: "p_dials toy_a = Inr (idle toy_from_b) # []" by (simp add: toy_a_def toy_pworld_def)
  have "c_in (idle toy_from_b) = drop (length (c_out (w_conn toy_b))) (c_out (w_conn wb))"
    "c_in (w_conn toy_b) = drop (length (c_out (idle toy_from_b))) (c_out (w_conn wa))"
    by (simp_all add: oa ob idle_def toy_b_def toy_pworld_def)
  from pairing_agreement [OF toy_ext_ok(1,3) toy_pub_ok toy_ext_ok(4) toy_pair_json_ok a d b this] a b
  show ?thesis by (simp add: toy_side_def)
qed

end
