(* ===== verification/Fulltext.thy ===== *)
theory Fulltext
  imports Database
begin

text \<open>
  The full-text index over file names (\<^verbatim>\<open>search/index.rs\<close>).  The search library is external: what it
  answers to a query is a parameter, which of its calls fail is a schedule, and what the code relies
  on (a regular expression of literals and \<^verbatim>\<open>.*\<close> matches whole terms) is a named law.
\<close>

section \<open>The code\<close>

datatype index_error = IIo | IOpenDir | ITantivy | IQuery | IDb db_error | IPanic

record doc =
  dc_name :: string
  dc_name_raw :: string
  dc_path :: string
  dc_extension :: "string option"

text \<open>The writer's documents, the last commit, and what the reader sees since its last reload.\<close>

record file_index =
  ix_writer :: "doc list"
  ix_committed :: "doc list"
  ix_docs :: "doc list"
  ix_faults :: "bool list"

text \<open>The library's query parser with its ranked answer to a term query, and to a regular
  expression on \<^verbatim>\<open>name_raw\<close>; \<open>None\<close> is an error.\<close>

record tantivy =
  tv_terms :: "doc list \<Rightarrow> string \<Rightarrow> nat \<Rightarrow> doc list option"
  tv_regex :: "doc list \<Rightarrow> string \<Rightarrow> nat \<Rightarrow> doc list option"

type_synonym 'a index_act = "(file_index, index_error, 'a) act"

definition tv_call :: "'a index_act \<Rightarrow> 'a index_act" where
  "tv_call m s = (let s' = s\<lparr>ix_faults := tl (ix_faults s)\<rparr> in
     if ix_faults s \<noteq> [] \<and> hd (ix_faults s) then (Inl ITantivy, s') else m s')"

definition delete_all_documents :: "unit index_act" where
  "delete_all_documents = tv_call (act_mod (\<lambda>s. s\<lparr>ix_writer := []\<rparr>))"

definition add_document :: "doc \<Rightarrow> unit index_act" where
  "add_document d = tv_call (act_mod (\<lambda>s. s\<lparr>ix_writer := ix_writer s @ [d]\<rparr>))"

definition commit_reload :: "unit index_act" where
  "commit_reload = act_then (tv_call (act_mod (\<lambda>s. s\<lparr>ix_committed := ix_writer s\<rparr>)))
     (tv_call (act_mod (\<lambda>s. s\<lparr>ix_docs := ix_committed s\<rparr>)))"

definition make_doc :: "file_row \<Rightarrow> doc" where
  "make_doc f = \<lparr> dc_name = fr_name f, dc_name_raw = to_lowercase (fr_name f), dc_path = fr_path f,
     dc_extension = fr_extension f \<rparr>"

fun add_documents :: "file_row list \<Rightarrow> unit index_act" where
  "add_documents [] = act_ret ()"
| "add_documents (f # fs) = act_then (add_document (make_doc f)) (add_documents fs)"

text \<open>\<^verbatim>\<open>rebuild_from_db\<close>, from the rows the database returned.\<close>

definition rebuild_docs :: "file_row list \<Rightarrow> nat index_act" where
  "rebuild_docs fs = act_then delete_all_documents (act_then (add_documents fs)
     (act_then commit_reload (act_ret (length fs))))"

definition num_docs :: "file_index \<Rightarrow> nat" where
  "num_docs s = length (ix_docs s)"

definition index_add_file :: "file_row \<Rightarrow> unit index_act" where
  "index_add_file f = act_then (add_document (make_doc f)) commit_reload"

definition SPECIAL :: string where
  "SPECIAL = [CHR ''+'', CHR ''^'', CHR 0x60, CHR '':'', CHR ''{'', CHR ''}'', CHR ''['', CHR '']'', CHR 0x22, CHR 0x5C,
     CHR ''('', CHR '')'', CHR 0x7E]"

definition escape_query :: "string \<Rightarrow> string" where
  "escape_query s = map (\<lambda>c. if c \<in> set SPECIAL then CHR '' '' else c) s"

definition META :: string where
  "META = [CHR ''.'', CHR ''+'', CHR ''*'', CHR ''?'', CHR ''('', CHR '')'', CHR ''|'', CHR ''['', CHR '']'', CHR ''{'',
     CHR ''}'', CHR ''^'', CHR ''$'', CHR 0x5C]"

definition escape_regex :: "string \<Rightarrow> string" where
  "escape_regex s = concat (map (\<lambda>c. if c \<in> set META then [CHR 0x5C, c] else [c]) s)"

text \<open>\<^verbatim>\<open>TopDocs::with_limit\<close> is documented to panic on zero.\<close>

definition top_docs :: "index_error \<Rightarrow> nat \<Rightarrow> doc list option \<Rightarrow> (index_error, string list) res" where
  "top_docs e limit hits = (if limit = 0 then Inl IPanic else map_err (\<lambda>_. e) (case hits of None \<Rightarrow> Inl () | Some ds \<Rightarrow> Inr (map dc_path ds)))"

definition index_search :: "tantivy \<Rightarrow> string \<Rightarrow> nat \<Rightarrow> string list index_act" where
  "index_search tv q limit = (let cleaned = escape_query q in
     if trim cleaned = [] then act_ret []
     else act_bind (act_get ix_docs) (\<lambda>ds. act_lift (top_docs IQuery limit (tv_terms tv ds (trim cleaned) limit))))"

definition search_wildcard :: "tantivy \<Rightarrow> string \<Rightarrow> nat \<Rightarrow> string list index_act" where
  "search_wildcard tv q limit = (let trimmed = to_lowercase (trim q) in
     if trimmed = [] then act_ret []
     else act_bind (act_get ix_docs) (\<lambda>ds.
       act_lift (top_docs ITantivy limit (tv_regex tv ds (''.*'' @ escape_regex trimmed @ ''.*'') limit))))"

section \<open>Rebuilding\<close>

lemma ix_faults_same: "ix_faults s = [] \<Longrightarrow> s\<lparr>ix_faults := []\<rparr> = s"
  by (cases s) simp

lemma tv_call_ok: "ix_faults s = [] \<Longrightarrow> tv_call m s = m s"
  by (simp add: tv_call_def ix_faults_same)

lemma add_documents_ok:
  "ix_faults s = [] \<Longrightarrow> add_documents fs s = (Inr (), s\<lparr>ix_writer := ix_writer s @ map make_doc fs\<rparr>)"
  by (induction fs arbitrary: s) (simp_all add: act_simps add_document_def tv_call_ok)

lemma rebuild_docs_ok:
  "ix_faults s = [] \<Longrightarrow> rebuild_docs fs s = (Inr (length fs),
     s\<lparr>ix_writer := map make_doc fs, ix_committed := map make_doc fs, ix_docs := map make_doc fs\<rparr>)"
  by (simp add: rebuild_docs_def act_simps delete_all_documents_def tv_call_ok add_documents_ok commit_reload_def)

text \<open>A rebuild that reports success has replaced the documents, whatever the schedule of failures.\<close>

lemma tv_call_Inr: "tv_call m s = (Inr a, t) \<Longrightarrow> m (s\<lparr>ix_faults := tl (ix_faults s)\<rparr>) = (Inr a, t)"
  by (auto simp: tv_call_def Let_def split: if_splits)

lemma add_documents_Inr: "add_documents fs s = (Inr (), t) \<Longrightarrow> ix_writer t = ix_writer s @ map make_doc fs"
proof (induction fs arbitrary: s)
  case (Cons f fs)
  from Cons.prems obtain u where "add_document (make_doc f) s = (Inr (), u)" "add_documents fs u = (Inr (), t)"
    by (auto elim!: act_then_Inr)
  with Cons.IH [of u] show ?case by (auto simp: add_document_def act_simps dest!: tv_call_Inr)
qed (simp add: act_simps)

lemma rebuild_docs_Inr:
  assumes "rebuild_docs fs s = (Inr n, t)"
  shows "ix_docs t = map make_doc fs \<and> n = length fs"
proof -
  obtain a u b v c x where s: "delete_all_documents s = (Inr a, u)" "add_documents fs u = (Inr b, v)"
    "commit_reload v = (Inr c, x)" "(act_ret (length fs) :: nat index_act) x = (Inr n, t)"
    using assms unfolding rebuild_docs_def by (elim act_then_Inr) (rule that)
  have u: "ix_writer u = []" using s(1) by (auto simp: delete_all_documents_def act_simps dest!: tv_call_Inr)
  have "ix_docs x = ix_writer v"
    using s(3) unfolding commit_reload_def by (elim act_then_Inr) (auto simp: act_simps dest!: tv_call_Inr)
  with add_documents_Inr [of fs u v] s(2) u s(4) show ?thesis by (auto simp: act_simps)
qed

text \<open>What the reader sees changes only in the last call: a rebuild that fails leaves the searchable
  documents as they were.\<close>

lemma tv_call_docs: "(\<And>s. ix_docs (snd (m s)) = ix_docs s) \<Longrightarrow> ix_docs (snd (tv_call m s)) = ix_docs s"
  by (simp add: tv_call_def Let_def)

lemma add_documents_docs: "ix_docs (snd (add_documents fs s)) = ix_docs s"
proof (induction fs arbitrary: s)
  case (Cons f fs)
  have "ix_docs (snd (add_document (make_doc f) s)) = ix_docs s"
    by (simp add: add_document_def tv_call_docs act_simps)
  with Cons.IH show ?case by (auto simp: act_simps split: prod.splits sum.splits)
qed (simp add: act_simps)

lemma rebuild_docs_failed:
  assumes "rebuild_docs fs s = (Inl e, t)"
  shows "ix_docs t = ix_docs s"
proof -
  have d: "ix_docs (snd (delete_all_documents s)) = ix_docs s"
    by (simp add: delete_all_documents_def tv_call_docs act_simps)
  have c: "commit_reload u = (Inl e, t) \<Longrightarrow> ix_docs t = ix_docs u" for u
    by (auto simp: commit_reload_def act_simps tv_call_def Let_def split: if_splits prod.splits sum.splits)
  from assms d add_documents_docs [of fs] c show ?thesis
    by (auto simp: rebuild_docs_def act_simps split: prod.splits sum.splits) (metis snd_conv)+
qed

section \<open>Wildcard search is substring search\<close>

text \<open>The regular expressions the code builds: literals, escaped characters and \<^verbatim>\<open>.*\<close>, which does not
  cross a line break.\<close>

fun re_matches :: "string \<Rightarrow> string \<Rightarrow> bool" where
  "re_matches [] s = (s = [])"
| "re_matches (c # p) s = (if c = CHR ''.'' \<and> starts_with ''*'' p
     then list_ex (\<lambda>n. CHR 0x0A \<notin> set (take n s) \<and> re_matches (tl p) (drop n s)) [0..<Suc (length s)]
     else if c = CHR 0x5C then (case p of [] \<Rightarrow> False | d # p' \<Rightarrow> (case s of [] \<Rightarrow> False | e # s' \<Rightarrow> e = d \<and> re_matches p' s'))
     else (case s of [] \<Rightarrow> False | e # s' \<Rightarrow> e = c \<and> re_matches p s'))"

fun in_fragment :: "string \<Rightarrow> bool" where
  "in_fragment [] = True"
| "in_fragment (c # p) = (if c = CHR ''.'' \<and> starts_with ''*'' p then in_fragment (tl p)
     else if c = CHR 0x5C then (case p of [] \<Rightarrow> False | d # p' \<Rightarrow> in_fragment p') else c \<notin> set META \<and> in_fragment p)"

definition regex_ok :: "tantivy \<Rightarrow> bool" where
  "regex_ok tv \<longleftrightarrow> (\<forall>ds pat n. in_fragment pat \<longrightarrow> (\<exists>hits rest. tv_regex tv ds pat n = Some hits
     \<and> mset (hits @ rest) = mset (filter (\<lambda>d. re_matches pat (dc_name_raw d)) ds)
     \<and> length hits = min n (length (filter (\<lambda>d. re_matches pat (dc_name_raw d)) ds))))"

lemma escape_regex_simps [simp]:
  "escape_regex [] = []" "escape_regex (c # s) = (if c \<in> set META then [CHR 0x5C, c] else [c]) @ escape_regex s"
  by (simp_all add: escape_regex_def)

lemma meta_chars: "CHR ''.'' \<in> set META" "CHR 0x5C \<in> set META"
  by (simp_all add: META_def)

lemma re_matches_lit: "re_matches (escape_regex q @ p) s \<longleftrightarrow> (\<exists>r. s = q @ r \<and> re_matches p r)"
proof (induction q arbitrary: s)
  case (Cons c q)
  show ?case
  proof (cases "c \<in> set META")
    case True
    then show ?thesis using Cons.IH by (cases s) auto
  next
    case False
    then have "c \<noteq> CHR ''.''" "c \<noteq> CHR 0x5C" using meta_chars by metis+
    with False show ?thesis using Cons.IH by (cases s) auto
  qed
qed simp

lemma in_fragment_lit: "in_fragment (escape_regex q @ p) = in_fragment p"
proof (induction q)
  case (Cons c q)
  show ?case
  proof (cases "c \<in> set META")
    case True
    then show ?thesis using Cons.IH by simp
  next
    case False
    then have "c \<noteq> CHR ''.''" "c \<noteq> CHR 0x5C" using meta_chars by metis+
    with False show ?thesis using Cons.IH by simp
  qed
qed simp

lemma re_matches_star:
  assumes "CHR 0x0A \<notin> set s"
  shows "re_matches (''.*'' @ p) s \<longleftrightarrow> (\<exists>l r. s = l @ r \<and> re_matches p r)"
proof -
  have nl: "CHR 0x0A \<notin> set (take n s)" for n using assms by (auto dest: in_set_takeD)
  have "re_matches (''.*'' @ p) s = list_ex (\<lambda>n. CHR 0x0A \<notin> set (take n s) \<and> re_matches p (drop n s)) [0..<Suc (length s)]"
    by (simp add: starts_with_def del: upt_Suc)
  also have "\<dots> \<longleftrightarrow> (\<exists>n \<in> set [0..<Suc (length s)]. re_matches p (drop n s))"
    by (simp add: list_ex_iff nl del: upt_Suc)
  also have "\<dots> \<longleftrightarrow> (\<exists>l r. s = l @ r \<and> re_matches p r)"
  proof
    assume "\<exists>n \<in> set [0..<Suc (length s)]. re_matches p (drop n s)"
    then show "\<exists>l r. s = l @ r \<and> re_matches p r" by (metis append_take_drop_id)
  next
    assume "\<exists>l r. s = l @ r \<and> re_matches p r"
    then obtain l r where "s = l @ r" "re_matches p r" by blast
    then show "\<exists>n \<in> set [0..<Suc (length s)]. re_matches p (drop n s)"
      by (intro bexI [of _ "length l"]) simp_all
  qed
  finally show ?thesis .
qed

lemma wildcard_matches:
  assumes "CHR 0x0A \<notin> set s"
  shows "re_matches (''.*'' @ escape_regex q @ ''.*'') s \<longleftrightarrow> contains q s"
proof -
  have "re_matches ''.*'' r" if "CHR 0x0A \<notin> set r" for r
    using re_matches_star [OF that, of "[]"] by (simp only: append_Nil2) (rule exI [of _ r], simp)
  with assms have "(\<exists>r'. r = q @ r' \<and> re_matches ''.*'' r') \<longleftrightarrow> (\<exists>r'. r = q @ r')" if "\<exists>l. s = l @ r" for r
    using that by auto
  then show ?thesis
    unfolding re_matches_star [OF assms] re_matches_lit contains_iff by blast
qed

lemma lower_newline: "CHR 0x0A \<notin> set s \<Longrightarrow> CHR 0x0A \<notin> set (to_lowercase s)"
proof -
  have "lower_char c \<noteq> CHR 0x0A" if "c \<noteq> CHR 0x0A" for c
  proof (cases "(65 \<le> code c \<and> code c \<le> 90) \<or> (192 \<le> code c \<and> code c \<le> 222 \<and> code c \<noteq> 215)")
    case True
    then have "code (lower_char c) = code c + 32" "code c + 32 \<noteq> 10" by (auto simp: lower_char_def)
    moreover have "code (CHR 0x0A) = 10" by (simp add: code_def)
    ultimately show ?thesis by metis
  next
    case False
    then have "lower_char c = c" unfolding lower_char_def by (simp only: if_False)
    with that show ?thesis by simp
  qed
  then have "list_all (\<lambda>c. c \<noteq> CHR 0x0A) s \<Longrightarrow> list_all (\<lambda>c. c \<noteq> CHR 0x0A) (to_lowercase s)"
    by (induction s) (simp_all add: to_lowercase_def)
  then show "CHR 0x0A \<notin> set s \<Longrightarrow> CHR 0x0A \<notin> set (to_lowercase s)"
    unfolding list_all_iff by blast
qed

text \<open>
  C20.  The wildcard stage is a substring search: whatever characters the query holds, among the
  indexed files it finds exactly those whose name contains the query, ignoring case, cut at the
  limit; no character of the query acts as an operator.
\<close>

theorem wildcard_is_substring:
  assumes "regex_ok tv" "ix_docs s = map make_doc fs" "0 < limit" "trim q \<noteq> []"
    and "list_all (\<lambda>f. CHR 0x0A \<notin> set (fr_name f)) fs"
  defines "found \<equiv> filter (\<lambda>f. contains (to_lowercase (trim q)) (to_lowercase (fr_name f))) fs"
  shows "\<exists>paths rest. search_wildcard tv q limit s = (Inr paths, s)
    \<and> mset (paths @ rest) = mset (map fr_path found) \<and> length paths = min limit (length found)"
proof -
  let ?q = "to_lowercase (trim q)"
  let ?pat = "''.*'' @ escape_regex ?q @ ''.*''"
  let ?f = "filter (\<lambda>d. re_matches ?pat (dc_name_raw d)) (map make_doc fs)"
  have "in_fragment ?pat"
    using in_fragment_lit [of ?q "''.*''"] by (simp add: starts_with_def)
  with assms(1) obtain hits rest where h: "tv_regex tv (map make_doc fs) ?pat limit = Some hits"
    "mset (hits @ rest) = mset ?f" "length hits = min limit (length ?f)"
    unfolding regex_ok_def by blast
  have "?f = map make_doc found"
    using assms(5) unfolding found_def
  proof (induction fs)
    case (Cons f fs)
    then have "re_matches ?pat (dc_name_raw (make_doc f)) = contains ?q (to_lowercase (fr_name f))"
      by (simp only: make_doc_def doc.simps) (rule wildcard_matches [OF lower_newline], simp)
    with Cons show ?case by simp
  qed simp
  with h(2,3) have m: "mset (hits @ rest) = mset (map make_doc found)" and l: "length hits = min limit (length found)"
    by (simp_all only: length_map)
  have "mset (map dc_path (hits @ rest)) = image_mset dc_path (mset (map make_doc found))"
    by (simp only: mset_map m)
  then have "mset (map dc_path hits @ map dc_path rest) = mset (map fr_path found)"
    by (simp add: make_doc_def comp_def image_mset.compositionality)
  moreover have "?q \<noteq> []" using assms(4) by (simp add: to_lowercase_def)
  ultimately show ?thesis
    using h(1) l assms(2,3) by (intro exI [of _ "map dc_path hits"] exI [of _ "map dc_path rest"])
      (simp add: search_wildcard_def act_simps top_docs_def Let_def)
qed

text \<open>A search library that obeys the law.\<close>

definition toy_tantivy :: tantivy where
  "toy_tantivy = \<lparr> tv_terms = (\<lambda>ds q n. Some (take n (filter (\<lambda>d. contains q (dc_name_raw d)) ds))),
     tv_regex = (\<lambda>ds p n. Some (take n (filter (\<lambda>d. re_matches p (dc_name_raw d)) ds))) \<rparr>"

lemma toy_tantivy_ok: "regex_ok toy_tantivy"
proof (unfold regex_ok_def, intro allI impI)
  fix ds :: "doc list" and pat n
  let ?f = "filter (\<lambda>d. re_matches pat (dc_name_raw d)) ds"
  have "tv_regex toy_tantivy ds pat n = Some (take n ?f) \<and> mset (take n ?f @ drop n ?f) = mset ?f
      \<and> length (take n ?f) = min n (length ?f)"
    unfolding append_take_drop_id by (simp add: toy_tantivy_def min.commute)
  then show "\<exists>hits rest. tv_regex toy_tantivy ds pat n = Some hits \<and> mset (hits @ rest) = mset ?f
      \<and> length hits = min n (length ?f)" by blast
qed

definition toy_row :: "string \<Rightarrow> file_row" where
  "toy_row n = \<lparr> fr_name = n, fr_path = ''/'' @ n, fr_parent_path = ''/'', fr_file_type = ''file'', fr_size = None,
     fr_last_modified = None, fr_extension = None, fr_is_hidden = 0 \<rparr>"

lemma wildcard_is_substring_witness:
  "\<exists>paths rest. search_wildcard toy_tantivy ''A+.'' 5
      \<lparr> ix_writer = [], ix_committed = [], ix_docs = map make_doc [toy_row ''xa+.c'', toy_row ''aab''], ix_faults = [] \<rparr> = (Inr paths,
      \<lparr> ix_writer = [], ix_committed = [], ix_docs = map make_doc [toy_row ''xa+.c'', toy_row ''aab''], ix_faults = [] \<rparr>)
    \<and> mset (paths @ rest) = mset [''/xa+.c'']"
proof -
  have t: "to_lowercase (trim ''A+.'') = ''a+.''" "trim ''A+.'' \<noteq> []" by code_simp+
  have c: "contains ''a+.'' (to_lowercase ''xa+.c'')" "\<not> contains ''a+.'' (to_lowercase ''aab'')" by code_simp+
  let ?fs = "[toy_row ''xa+.c'', toy_row ''aab'']"
  let ?s = "\<lparr> ix_writer = [], ix_committed = [], ix_docs = map make_doc ?fs, ix_faults = [] \<rparr>"
  have f: "filter (\<lambda>f. contains (to_lowercase (trim ''A+.'')) (to_lowercase (fr_name f))) ?fs = [toy_row ''xa+.c'']"
    using t(1) c by (simp add: toy_row_def)
  have "\<exists>paths rest. search_wildcard toy_tantivy ''A+.'' 5 ?s = (Inr paths, ?s)
      \<and> mset (paths @ rest) = mset (map fr_path [toy_row ''xa+.c'']) \<and> length paths = min 5 (length [toy_row ''xa+.c''])"
    using wildcard_is_substring [OF toy_tantivy_ok _ _ t(2), of ?s ?fs 5] unfolding f by (simp add: toy_row_def)
  then show ?thesis by (simp add: toy_row_def) blast
qed

end
