(* ===== verification/Search_Engine.thy ===== *)
theory Search_Engine
  imports Session Bloom_Filter Trie_Index Fuzzy_Match Fulltext
begin

text \<open>
  The search pipeline (\<^verbatim>\<open>search/engine.rs\<close>): folder and wildcard modes, the session cache, and the
  stages trie, full text, wildcard, applications and fuzzy fallback, ranked and cut.  The cache is
  the \<^verbatim>\<open>lru\<close> crate's, a parameter with its documented laws; the mutexes around the structures are the
  atomicity of each step.
\<close>

section \<open>Results and state\<close>

definition LRU_CAPACITY :: nat where "LRU_CAPACITY = 200"
definition JW_THRESHOLD :: f64 where "JW_THRESHOLD = f_of_rat (75 / 100)"
definition LEV_MAX_DIST :: nat where "LEV_MAX_DIST = 2"
definition MIN_RESULTS_BEFORE_FUZZY :: nat where "MIN_RESULTS_BEFORE_FUZZY = 3"

datatype result_type = FileResult | AppResult

datatype result_source = LocalFile | LocalApp | Remote string

record search_result =
  sr_name :: string
  sr_path :: string
  sr_exec :: "string option"
  sr_type :: result_type
  sr_source :: result_source
  sr_score :: f64
  sr_icon :: "string option"

text \<open>\<open>SePanic\<close>: the fuzzy scorer indexed out of range.\<close>

datatype search_error = SeDb db_error | SeIndex index_error | SePanic

record 'c lru =
  lru_new :: "nat \<Rightarrow> 'c"
  lru_get :: "string \<Rightarrow> 'c \<Rightarrow> search_result list option \<times> 'c"
  lru_put :: "string \<Rightarrow> search_result list \<Rightarrow> 'c \<Rightarrow> 'c"
  lru_clear :: "'c \<Rightarrow> 'c"

text \<open>The libraries: the search index, the cache, and \<^verbatim>\<open>ln\<close> for the sizing of the filter.\<close>

record 'c search_lib =
  sl_tv :: tantivy
  sl_lru :: "'c lru"
  sl_ln :: "f64 \<Rightarrow> f64"

record 'c search_world = world +
  sw_trie :: trie
  sw_bloom :: bloom
  sw_cache :: 'c
  sw_index :: file_index

type_synonym ('c, 'z, 'a) s_act = "(('c, 'z) search_world_scheme, search_error, 'a) act"

definition s_db :: "'a db_act \<Rightarrow> ('c, 'z, 'a) s_act" where
  "s_db m w = (case m (w_db w) of (r, d) \<Rightarrow> (map_err SeDb r, w\<lparr>w_db := d\<rparr>))"

definition s_index :: "'a index_act \<Rightarrow> ('c, 'z, 'a) s_act" where
  "s_index m w = (case m (sw_index w) of (r, d) \<Rightarrow> (map_err SeIndex r, w\<lparr>sw_index := d\<rparr>))"

section \<open>Building the structures\<close>

definition build_indexes :: "(f64 \<Rightarrow> f64) \<Rightarrow> file_row list \<Rightarrow> trie \<times> bloom" where
  "build_indexes ln_fn fs =
     (foldl (\<lambda>t f. trie_insert (to_lowercase (fr_name f)) (fr_path f) t) trie_new fs,
      foldl (\<lambda>b f. bloom_insert b (to_lowercase (fr_name f))) (bloom_new ln_fn (max (length fs) 1000) (f_of_rat (1 / 100))) fs)"

definition engine_init :: "'c search_lib \<Rightarrow> ('c, 'z, unit) s_act" where
  "engine_init l = act_bind (s_db get_all_files_for_index) (\<lambda>fs.
     case build_indexes (sl_ln l) fs of (t, b) \<Rightarrow>
       act_mod (\<lambda>w. w\<lparr>sw_trie := t, sw_bloom := b, sw_cache := lru_new (sl_lru l) LRU_CAPACITY\<rparr>))"

definition invalidate_cache :: "'c search_lib \<Rightarrow> ('c, 'z, unit) s_act" where
  "invalidate_cache l = act_mod (\<lambda>w. w\<lparr>sw_cache := lru_clear (sl_lru l) (sw_cache w)\<rparr>)"

definition engine_rebuild :: "'c search_lib \<Rightarrow> ('c, 'z, unit) s_act" where
  "engine_rebuild l = act_bind (s_db get_all_files_for_index) (\<lambda>fs.
     case build_indexes (sl_ln l) fs of (t, b) \<Rightarrow>
       act_then (act_mod (\<lambda>w. w\<lparr>sw_trie := t, sw_bloom := b\<rparr>)) (invalidate_cache l))"

definition engine_add_file :: "string \<Rightarrow> string \<Rightarrow> ('c, 'z, unit) s_act" where
  "engine_add_file name p = act_mod (\<lambda>w. w\<lparr>sw_trie := trie_insert (to_lowercase name) p (sw_trie w),
     sw_bloom := bloom_insert (sw_bloom w) (to_lowercase name)\<rparr>)"

definition engine_remove_file :: "string \<Rightarrow> ('c, 'z, unit) s_act" where
  "engine_remove_file name = act_mod (\<lambda>w. w\<lparr>sw_trie := snd (trie_remove (to_lowercase name) (sw_trie w))\<rparr>)"

section \<open>The stages\<close>

definition file_name_of :: "path \<Rightarrow> string" where
  "file_name_of p = (case file_name p of Some n \<Rightarrow> n | None \<Rightarrow> p)"

definition file_result :: "path \<Rightarrow> f64 \<Rightarrow> search_result" where
  "file_result p score = \<lparr> sr_name = file_name_of p, sr_path = p, sr_exec = None, sr_type = FileResult,
     sr_source = LocalFile, sr_score = score, sr_icon = None \<rparr>"

definition app_result :: "app_row \<Rightarrow> search_result" where
  "app_result a = \<lparr> sr_name = ar_name a, sr_path = ar_source_path a, sr_exec = Some (ar_exec a), sr_type = AppResult,
     sr_source = LocalApp, sr_score = Fin False 1, sr_icon = ar_icon_path a \<rparr>"

definition fuzzy_result :: "fuzzy_match \<Rightarrow> search_result" where
  "fuzzy_result m = \<lparr> sr_name = fm_name m, sr_path = fm_path m, sr_exec = None, sr_type = FileResult,
     sr_source = LocalFile, sr_score = f_mul (fm_score m) (f_of_rat (6 / 10)), sr_icon = None \<rparr>"

text \<open>The \<^verbatim>\<open>seen\<close> set: applications are marked by the prefix \<^verbatim>\<open>app:\<close>.\<close>

definition seen_key :: "search_result \<Rightarrow> string" where
  "seen_key r = (case sr_type r of FileResult \<Rightarrow> sr_path r | AppResult \<Rightarrow> ''app:'' @ sr_path r)"

text \<open>\<^verbatim>\<open>if seen.insert(key) { results.push(r) }\<close> for each result of a stage.\<close>

fun push_new :: "search_result list \<Rightarrow> search_result list \<times> string set \<Rightarrow> search_result list \<times> string set" where
  "push_new [] acc = acc"
| "push_new (r # rs) (results, seen) = (if seen_key r \<in> seen then push_new rs (results, seen)
     else push_new rs (results @ [r], insert (seen_key r) seen))"

type_synonym found = "search_result list \<times> string set"

definition trie_stage :: "string \<Rightarrow> nat \<Rightarrow> found \<Rightarrow> ('c, 'z, found) s_act" where
  "trie_stage q n acc = act_bind (act_get (\<lambda>w. prefix_search (sw_trie w) q n)) (\<lambda>ps.
     act_ret (push_new (map (\<lambda>p. file_result p (Fin False 1)) ps) acc))"

definition text_stage :: "'c search_lib \<Rightarrow> string \<Rightarrow> nat \<Rightarrow> found \<Rightarrow> ('c, 'z, found) s_act" where
  "text_stage l q n acc = (if length (fst acc) < n
     then act_bind (s_index (index_search (sl_tv l) q n)) (\<lambda>ps.
       act_ret (push_new (map (\<lambda>p. file_result p (f_of_rat (8 / 10))) ps) acc))
     else act_ret acc)"

definition wildcard_stage :: "'c search_lib \<Rightarrow> string \<Rightarrow> nat \<Rightarrow> found \<Rightarrow> ('c, 'z, found) s_act" where
  "wildcard_stage l q n acc = (if length (fst acc) < MIN_RESULTS_BEFORE_FUZZY
     then act_bind (s_index (search_wildcard (sl_tv l) q n)) (\<lambda>ps.
       act_ret (push_new (map (\<lambda>p. file_result p (f_of_rat (65 / 100))) ps) acc))
     else act_ret acc)"

text \<open>A failing application query counts as no application.\<close>

definition app_stage :: "string \<Rightarrow> found \<Rightarrow> ('c, 'z, found) s_act" where
  "app_stage q acc = act_bind (act_try (s_db (search_apps_by_name q))) (\<lambda>r.
     act_ret (push_new (map app_result (case r of Inl _ \<Rightarrow> [] | Inr as \<Rightarrow> as)) acc))"

definition fuzzy_stage :: "string \<Rightarrow> nat \<Rightarrow> found \<Rightarrow> ('c, 'z, found) s_act" where
  "fuzzy_stage q n acc = (if length (fst acc) < MIN_RESULTS_BEFORE_FUZZY
     then act_bind (s_db (search_files_by_name q 500)) (\<lambda>candidates.
       act_bind (act_lift (ok_or SePanic (match_candidates q candidates JW_THRESHOLD LEV_MAX_DIST n))) (\<lambda>ms.
         act_ret (push_new (map fuzzy_result ms) acc)))
     else act_ret acc)"

text \<open>The comparison of \<^verbatim>\<open>sort_by\<close> is not \<^verbatim>\<open>Greater\<close>.\<close>

definition result_le :: "search_result \<Rightarrow> search_result \<Rightarrow> bool" where
  "result_le a b = (case (sr_type a, sr_type b) of
       (AppResult, FileResult) \<Rightarrow> True
     | (FileResult, AppResult) \<Rightarrow> False
     | _ \<Rightarrow> f_not_gt (sr_score b) (sr_score a))"

definition stages :: "'c search_lib \<Rightarrow> string \<Rightarrow> nat \<Rightarrow> ('c, 'z, found) s_act" where
  "stages l q n =
     act_bind (trie_stage q n ([], {})) (\<lambda>acc. act_bind (text_stage l q n acc) (\<lambda>acc.
     act_bind (wildcard_stage l q n acc) (\<lambda>acc. act_bind (app_stage q acc) (fuzzy_stage q n))))"

section \<open>Search\<close>

definition folder_search :: "string \<Rightarrow> 64 word \<Rightarrow> ('c, 'z, search_result list) s_act" where
  "folder_search dir_query max_results = (let q = trim dir_query in
     if q = [] then act_ret []
     else act_bind (s_db (search_dirs_by_name q (sint max_results))) (\<lambda>rows. act_ret (map (\<lambda>r.
       \<lparr> sr_name = fr_name r, sr_path = fr_path r, sr_exec = None, sr_type = FileResult, sr_source = LocalFile,
         sr_score = Fin False 1, sr_icon = None \<rparr>) rows)))"

definition star_search :: "'c search_lib \<Rightarrow> string \<Rightarrow> 64 word \<Rightarrow> ('c, 'z, search_result list) s_act" where
  "star_search l q max_results = (let stripped = to_lowercase (trim_matches (CHR ''*'') q) in
     if stripped = [] then act_ret []
     else act_bind (s_index (search_wildcard (sl_tv l) stripped (unat max_results))) (\<lambda>ps.
       act_ret (map (\<lambda>p. file_result p (f_of_rat (65 / 100))) ps)))"

definition cached :: "'c search_lib \<Rightarrow> string \<Rightarrow> ('c, 'z, search_result list option) s_act" where
  "cached l q w = (case lru_get (sl_lru l) q (sw_cache w) of (r, c) \<Rightarrow> (Inr r, w\<lparr>sw_cache := c\<rparr>))"

definition ranked_search :: "'c search_lib \<Rightarrow> string \<Rightarrow> 64 word \<Rightarrow> ('c, 'z, search_result list) s_act" where
  "ranked_search l q max_results = act_bind (cached l q) (\<lambda>hit. case hit of
       Some rs \<Rightarrow> act_ret rs
     | None \<Rightarrow> act_bind (stages l q (unat max_results)) (\<lambda>(results, seen).
         let rs = take (unat max_results) (sort_by result_le results) in
         act_then (act_mod (\<lambda>w. w\<lparr>sw_cache := lru_put (sl_lru l) q rs (sw_cache w)\<rparr>)) (act_ret rs)))"

definition search :: "'c search_lib \<Rightarrow> string \<Rightarrow> 64 word \<Rightarrow> ('c, 'z, search_result list) s_act" where
  "search l q max_results = (let t = trim q in
     if t = [] then act_ret []
     else case strip_prefix ''/'' t of
       Some dir_query \<Rightarrow> folder_search dir_query max_results
     | None \<Rightarrow> if starts_with ''*'' t \<or> ends_with ''*'' t then star_search l t max_results
         else ranked_search l (to_lowercase t) max_results)"

end
