(* ===== verification/Search_Ranking.thy ===== *)
theory Search_Ranking
  imports Search_Engine
begin

text \<open>What the search pipeline (\<^verbatim>\<open>search/engine.rs\<close>) promises: ranked, duplicate-free, cut results that
  hold every hit of the trie and of the applications; the session cache; the structures after a
  rebuild.\<close>

section \<open>The stages only add\<close>

definition sound :: "found \<Rightarrow> bool" where
  "sound acc \<longleftrightarrow> distinct (map seen_key (fst acc)) \<and> snd acc = seen_key ` set (fst acc)
     \<and> (\<forall>r \<in> set (fst acc). sr_score r \<noteq> NaN)"

text \<open>\<open>adds acc rs acc'\<close>: from \<open>acc\<close>, the results \<open>rs\<close> were pushed.\<close>

definition adds :: "found \<Rightarrow> search_result list \<Rightarrow> found \<Rightarrow> bool" where
  "adds acc rs acc' \<longleftrightarrow> sound acc' \<and> seen_key ` set (fst acc) \<subseteq> seen_key ` set (fst acc')
     \<and> seen_key ` set rs \<subseteq> seen_key ` set (fst acc')"

lemma push_new_adds:
  "sound acc \<Longrightarrow> \<forall>r \<in> set rs. sr_score r \<noteq> NaN \<Longrightarrow> adds acc rs (push_new rs acc)"
proof (induction rs acc rule: push_new.induct)
  case (1 acc)
  then show ?case by (simp add: adds_def)
next
  case (2 r rs results seen)
  show ?case
  proof (cases "seen_key r \<in> seen")
    case True
    with 2 have "adds (results, seen) rs (push_new rs (results, seen))" by simp
    with True 2(3) show ?thesis by (auto simp: adds_def sound_def)
  next
    case False
    with 2(3,4) have "sound (results @ [r], insert (seen_key r) seen)" by (auto simp: sound_def)
    with 2 False have "adds (results @ [r], insert (seen_key r) seen) rs (push_new rs (results @ [r], insert (seen_key r) seen))"
      by simp
    with False show ?thesis by (simp add: adds_def)
  qed
qed

lemma adds_refl: "sound acc \<Longrightarrow> adds acc [] acc"
  by (simp add: adds_def)

lemma not_nan [simp]: "f_of_rat q \<noteq> NaN" "round_mag s v \<noteq> NaN"
  by (simp_all add: f_of_rat_def round_val_def round_mag_def Let_def)

lemma file_result_score [simp]: "sr_score (file_result p s) = s" "seen_key (file_result p s) = p"
  by (simp_all add: file_result_def seen_key_def)

lemma push_files:
  "sound acc \<Longrightarrow> s \<noteq> NaN \<Longrightarrow> \<exists>rs. adds acc rs (push_new (map (\<lambda>p. file_result p s) ps) acc)"
  using push_new_adds [of acc "map (\<lambda>p. file_result p s) ps"] by auto

lemma matched_subset: "set (sql_limit n rs) \<subseteq> set rs"
  using set_take_subset [of "nat n" rs] by (simp add: sql_limit_def)

definition names_bounded :: "db \<Rightarrow> bool" where
  "names_bounded d \<longleftrightarrow> list_all (\<lambda>x. length (fr_name (snd x)) < 2 ^ 53) (files d)"

lemma s_db_query:
  "s_db (sql_query g) w = (Inr r, w') \<Longrightarrow> r = g (w_db w) \<or> r = g ((w_db w)\<lparr>faults := tl (faults (w_db w))\<rparr>)"
  by (auto simp: s_db_def sql_query_def db_exec_def act_simps Let_def split: if_splits)

lemma trie_stage_adds:
  assumes "sound acc" "trie_stage q n acc w = (Inr acc', w')"
  shows "adds acc (map (\<lambda>p. file_result p (Fin False 1)) (prefix_search (sw_trie w) q n)) acc' \<and> w' = w"
  using assms by (auto simp: trie_stage_def act_simps intro!: push_new_adds)

lemma s_index_frame: "s_index m w = (r, w') \<Longrightarrow> w_db w' = w_db w \<and> sw_cache w' = sw_cache w"
  by (auto simp: s_index_def split: prod.splits)

lemma index_stage_adds:
  assumes "sound acc" "s \<noteq> NaN" "act_bind (s_index m) (\<lambda>ps. act_ret (push_new (map (\<lambda>p. file_result p s) ps) acc)) w = (Inr acc', w')"
  shows "\<exists>rs. adds acc rs acc' \<and> w_db w' = w_db w \<and> sw_cache w' = sw_cache w"
  using assms push_files [OF assms(1,2)]
  by (auto simp: act_simps split: prod.splits sum.splits dest!: s_index_frame)

lemma text_stage_adds:
  assumes "sound acc" "text_stage l q n acc w = (Inr acc', w')"
  shows "\<exists>rs. adds acc rs acc' \<and> w_db w' = w_db w \<and> sw_cache w' = sw_cache w"
proof (cases "length (fst acc) < n")
  case True
  with assms(2) show ?thesis unfolding text_stage_def by (simp only: if_True) (rule index_stage_adds [OF assms(1) not_nan(1)])
qed (use assms(2) adds_refl [OF assms(1)] in \<open>auto simp: text_stage_def act_ret_def\<close>)

lemma wildcard_stage_adds:
  assumes "sound acc" "wildcard_stage l q n acc w = (Inr acc', w')"
  shows "\<exists>rs. adds acc rs acc' \<and> w_db w' = w_db w \<and> sw_cache w' = sw_cache w"
proof (cases "length (fst acc) < MIN_RESULTS_BEFORE_FUZZY")
  case True
  with assms(2) show ?thesis unfolding wildcard_stage_def by (simp only: if_True) (rule index_stage_adds [OF assms(1) not_nan(1)])
qed (use assms(2) adds_refl [OF assms(1)] in \<open>auto simp: wildcard_stage_def act_ret_def\<close>)

text \<open>The applications a healthy database returns.\<close>

definition matching_apps :: "string \<Rightarrow> db \<Rightarrow> app_row list" where
  "matching_apps q d = sql_limit 20 (order_by ar_name (filter (\<lambda>r. sql_like (like_pattern q) (ar_name r)) (applications d)))"

lemma app_stage_adds:
  assumes "sound acc" "app_stage q acc w = (Inr acc', w')"
  shows "\<exists>rs. adds acc rs acc' \<and> (faults (w_db w) = [] \<longrightarrow> rs = map app_result (matching_apps q (w_db w)))
    \<and> files (w_db w') = files (w_db w) \<and> sw_cache w' = sw_cache w"
proof -
  have nn: "\<forall>r \<in> set (map app_result as). sr_score r \<noteq> NaN" for as by (auto simp: app_result_def)
  obtain r v where r: "s_db (search_apps_by_name q) w = (r, v)" by fastforce
  define as where "as = (case r of Inl _ \<Rightarrow> [] | Inr bs \<Rightarrow> bs)"
  have "as = matching_apps q (w_db w)" if "faults (w_db w) = []"
    using that r by (auto simp: as_def s_db_def search_apps_by_name_def query_no_faults matching_apps_def)
  moreover have "files (w_db w') = files (w_db w) \<and> sw_cache w' = sw_cache w"
    using assms(2) by (auto simp: app_stage_def act_simps s_db_def search_apps_by_name_def sql_query_def db_exec_def Let_def
        split: prod.splits if_splits)
  moreover have "acc' = push_new (map app_result as) acc"
    using assms(2) r by (simp add: app_stage_def act_simps as_def)
  ultimately show ?thesis
    using push_new_adds [OF assms(1) nn [of as]] by (intro exI [of _ "map app_result as"]) simp
qed

lemma fuzzy_stage_adds:
  assumes "sound acc" "fuzzy_stage q n acc w = (Inr acc', w')" "length q < 2 ^ 53" "names_bounded (w_db w)"
  shows "\<exists>rs. adds acc rs acc' \<and> sw_cache w' = sw_cache w"
proof (cases "length (fst acc) < MIN_RESULTS_BEFORE_FUZZY")
  case True
  with assms(2) obtain cs v ms
    where cs: "s_db (search_files_by_name q 500) w = (Inr cs, v)"
      and ms: "match_candidates q cs JW_THRESHOLD LEV_MAX_DIST n = Some ms"
      and acc': "acc' = push_new (map fuzzy_result ms) acc" and w': "w' = v"
    by (auto simp: fuzzy_stage_def act_simps split: prod.splits sum.splits)
  have "set cs \<subseteq> set (map snd (files (w_db w)))"
    using s_db_query [OF cs [unfolded search_files_by_name_def]] matched_subset by fastforce
  then have "list_all (\<lambda>c. length (fr_name c) < 2 ^ 53) cs"
    using assms(4) by (auto simp: names_bounded_def list_all_iff)
  then have sc: "scan_candidates (to_lowercase q) JW_THRESHOLD LEV_MAX_DIST cs = Some (matched (to_lowercase q) JW_THRESHOLD LEV_MAX_DIST cs)"
    "\<forall>m \<in> set (matched (to_lowercase q) JW_THRESHOLD LEV_MAX_DIST cs). is_score (fm_score m)"
    using scan_candidates_matched [of "to_lowercase q" cs] assms(3) by auto
  have "\<forall>r \<in> set (map fuzzy_result ms). sr_score r \<noteq> NaN"
  proof -
    have "is_score (fm_score m)" if "m \<in> set ms" for m
      using ms sc that by (auto simp: match_candidates_def dest!: in_set_takeD)
    moreover have "rnd (3 / 5) \<le> 1" by (rule rnd_le_fix) simp_all
    then have "f_of_rat (6 / 10) = Fin False (rnd (3 / 5))"
      by (simp add: f_of_rat_def round_val_def round_mag_def Let_def overflows_iff)
    ultimately show ?thesis by (force simp: fuzzy_result_def is_score_def)
  qed
  from push_new_adds [OF assms(1) this] acc' w' cs show ?thesis
    by (auto simp: s_db_def split: prod.splits)
qed (use assms(1,2) in \<open>auto simp: fuzzy_stage_def act_simps intro: adds_refl\<close>)


section \<open>The ranked search\<close>

definition better :: "search_result \<Rightarrow> search_result \<Rightarrow> bool" where
  "better a b \<longleftrightarrow> (case (sr_type a, sr_type b) of (AppResult, FileResult) \<Rightarrow> True | (FileResult, AppResult) \<Rightarrow> False
     | _ \<Rightarrow> f_le (sr_score b) (sr_score a))"

lemma result_le_better: "sr_score a \<noteq> NaN \<Longrightarrow> sr_score b \<noteq> NaN \<Longrightarrow> result_le a b = better a b"
  by (auto simp: result_le_def better_def f_not_gt_iff split: result_type.splits)

lemma sorted_results:
  assumes "\<forall>r \<in> set rs. sr_score r \<noteq> NaN"
  shows "sorted_wrt better (sort_by result_le rs)"
proof -
  have "better a b \<or> better b a" if "a \<in> set rs" "b \<in> set rs" for a b
    using that assms f_le_total by (auto simp: better_def split: result_type.splits)
  moreover have "better a b \<Longrightarrow> better b c \<Longrightarrow> better a c" for a b c
    by (auto simp: better_def split: result_type.splits intro: f_le_trans)
  ultimately have "sorted_wrt result_le (sort_by result_le rs)"
    using assms by (intro sorted_sort_by) (auto simp: result_le_better)
  then show ?thesis
    by (rule sorted_wrt_mono_rel [rotated]) (use assms in \<open>simp add: result_le_better\<close>)
qed

lemma stages_sound:
  assumes "stages l q n w = (Inr acc, w')" "length q < 2 ^ 53" "names_bounded (w_db w)"
  shows "sound acc \<and> set (prefix_search (sw_trie w) q n) \<subseteq> seen_key ` set (fst acc)
    \<and> (faults (w_db w) = [] \<longrightarrow> seen_key ` set (map app_result (matching_apps q (w_db w))) \<subseteq> seen_key ` set (fst acc))
    \<and> sw_cache w' = sw_cache w"
proof -
  from assms(1) obtain a1 w1 a2 w2 a3 w3 a4 w4
    where s: "trie_stage q n ([], {}) w = (Inr a1, w1)" "text_stage l q n a1 w1 = (Inr a2, w2)"
      "wildcard_stage l q n a2 w2 = (Inr a3, w3)" "app_stage q a3 w3 = (Inr a4, w4)" "fuzzy_stage q n a4 w4 = (Inr acc, w')"
    unfolding stages_def by (elim act_bind_Inr) (rule that)
  have "sound ([], {})" by (simp add: sound_def)
  note t1 = trie_stage_adds [OF this s(1)]
  then have a1: "sound a1" by (simp add: adds_def)
  from text_stage_adds [OF a1 s(2)] obtain r2 where t2: "adds a1 r2 a2" "w_db w2 = w_db w1" "sw_cache w2 = sw_cache w1" by blast
  then have a2: "sound a2" by (simp add: adds_def)
  from wildcard_stage_adds [OF a2 s(3)] obtain r3 where t3: "adds a2 r3 a3" "w_db w3 = w_db w2" "sw_cache w3 = sw_cache w2" by blast
  then have a3: "sound a3" by (simp add: adds_def)
  from app_stage_adds [OF a3 s(4)] obtain r4 where t4: "adds a3 r4 a4"
    "faults (w_db w3) = [] \<longrightarrow> r4 = map app_result (matching_apps q (w_db w3))" "files (w_db w4) = files (w_db w3)" "sw_cache w4 = sw_cache w3" by blast
  then have a4: "sound a4" by (simp add: adds_def)
  have "names_bounded (w_db w4)" using assms(3) t1 t2 t3 t4 by (simp add: names_bounded_def)
  from fuzzy_stage_adds [OF a4 s(5) assms(2) this] obtain r5 where t5: "adds a4 r5 acc" "sw_cache w' = sw_cache w4" by blast
  have "seen_key ` set (map (\<lambda>p. file_result p (Fin False 1)) (prefix_search (sw_trie w) q n)) \<subseteq> seen_key ` set (fst a1)"
    using t1 by (simp add: adds_def)
  moreover have "seen_key ` set (fst a1) \<subseteq> seen_key ` set (fst acc)" "seen_key ` set (fst a4) \<subseteq> seen_key ` set (fst acc)"
    using t2(1) t3(1) t4(1) t5(1) unfolding adds_def by (meson subset_trans)+
  moreover have "faults (w_db w) = [] \<longrightarrow> seen_key ` set (map app_result (matching_apps q (w_db w))) \<subseteq> seen_key ` set (fst a4)"
  proof
    assume "faults (w_db w) = []"
    with t1 t2(2) t3(2) t4(2) have "r4 = map app_result (matching_apps q (w_db w))" by (simp only: simp_thms)
    moreover have "seen_key ` set r4 \<subseteq> seen_key ` set (fst a4)" using t4(1) unfolding adds_def by (elim conjE)
    ultimately show "seen_key ` set (map app_result (matching_apps q (w_db w))) \<subseteq> seen_key ` set (fst a4)" by (simp only:)
  qed
  moreover have "sound acc" using t5(1) by (simp add: adds_def)
  moreover have "set (map seen_key (map (\<lambda>p. file_result p (Fin False 1)) ps)) = set ps" for ps
    by (simp add: comp_def)
  moreover have "sw_cache w' = sw_cache w" using t1 t2(3) t3(3) t4(4) t5(2) by simp
  ultimately show ?thesis by (simp only: set_map simp_thms) (meson subset_trans)
qed

text \<open>An ordinary query: not blank, no folder search, no star.\<close>

definition ordinary :: "string \<Rightarrow> bool" where
  "ordinary q \<longleftrightarrow> trim q \<noteq> [] \<and> strip_prefix ''/'' (trim q) = None \<and> \<not> starts_with ''*'' (trim q) \<and> \<not> ends_with ''*'' (trim q)"

lemma search_ordinary: "ordinary q \<Longrightarrow> search l q n = ranked_search l (to_lowercase (trim q)) n"
  by (simp add: search_def ordinary_def Let_def)



section \<open>The cache\<close>

text \<open>What the \<^verbatim>\<open>lru\<close> crate documents: \<open>get\<close> changes no entry, \<open>put\<close> stores its entry and may evict
  others, a new or cleared cache is empty.\<close>

definition lru_ok :: "'c lru \<Rightarrow> bool" where
  "lru_ok c \<longleftrightarrow> (\<forall>n k. fst (lru_get c k (lru_new c n)) = None) \<and> (\<forall>k s. fst (lru_get c k (lru_clear c s)) = None)
     \<and> (\<forall>j k s. fst (lru_get c j (snd (lru_get c k s))) = fst (lru_get c j s))
     \<and> (\<forall>k v s. fst (lru_get c k (lru_put c k v s)) = Some v)
     \<and> (\<forall>j k v s. j \<noteq> k \<longrightarrow> fst (lru_get c j (lru_put c k v s)) \<in> {None, fst (lru_get c j s)})"

text \<open>
  A repeated search is answered from the cache: after an ordinary search has succeeded, searching
  for the same text again (up to case and outer blanks) returns the very same list without touching
  the database or the index, whatever \<^verbatim>\<open>max_results\<close> the second search asks for.
\<close>

theorem search_repeats:
  assumes "lru_ok (sl_lru l)" "ordinary query" "search l query max_results w = (Inr rs, w')"
    and "ordinary again" "to_lowercase (trim again) = to_lowercase (trim query)"
  shows "fst (search l again other_max w') = Inr rs \<and> w_db (snd (search l again other_max w')) = w_db w'
    \<and> sw_index (snd (search l again other_max w')) = sw_index w' \<and> sw_trie (snd (search l again other_max w')) = sw_trie w'"
proof -
  let ?q = "to_lowercase (trim query)"
  have "fst (lru_get (sl_lru l) ?q (sw_cache w')) = Some rs"
  proof (cases "fst (lru_get (sl_lru l) ?q (sw_cache w))")
    case None
    with assms(2,3) have "\<exists>c. sw_cache w' = lru_put (sl_lru l) ?q rs c"
      by (auto simp: search_ordinary ranked_search_def cached_def act_simps Let_def split: prod.splits sum.splits)
    with assms(1) show ?thesis by (auto simp: lru_ok_def)
  next
    case (Some hit)
    with assms(2,3) have "hit = rs" "sw_cache w' = snd (lru_get (sl_lru l) ?q (sw_cache w))"
      by (auto simp: search_ordinary ranked_search_def cached_def act_simps split: prod.splits)
    with assms(1) Some show ?thesis by (simp add: lru_ok_def)
  qed
  with assms(4,5) show ?thesis
    by (auto simp: search_ordinary ranked_search_def cached_def act_simps split: prod.split)
qed

section \<open>After a rebuild\<close>

definition insertions :: "file_row list \<Rightarrow> trie_op list" where
  "insertions fs = map (\<lambda>f. Ins (to_lowercase (fr_name f)) (fr_path f)) fs"

lemma build_indexes_runs:
  "build_indexes ln_fn fs = (trie_run (insertions fs),
     foldl bloom_insert (bloom_new ln_fn (max (length fs) 1000) (f_of_rat (1 / 100))) (map (\<lambda>f. to_lowercase (fr_name f)) fs))"
  by (simp add: build_indexes_def trie_run_def insertions_def foldl_map)

lemma map_run_insertions:
  "map_option snd (map_run (insertions fs) k)
     = map_option fr_path (List.find (\<lambda>f. to_lowercase (fr_name f) = k) fs)"
proof (induction fs rule: rev_induct)
  case (snoc f fs)
  have find: "List.find p (fs @ [f]) = (case List.find p fs of Some x \<Rightarrow> Some x | None \<Rightarrow> if p f then Some f else None)" for p
    by (induction fs) auto
  have run: "map_run (insertions (fs @ [f])) = map_do (map_run (insertions fs)) (Ins (to_lowercase (fr_name f)) (fr_path f))"
    by (simp add: map_run_def insertions_def)
  from snoc show ?case
    unfolding run find by (auto simp: bump_def split: option.splits)
qed (simp add: map_run_def insertions_def)

text \<open>The structures agree with the rows \<open>fs\<close>: looking up a name in the trie gives the path of the
  first row with that name, ignoring case, and nothing for other names; the Bloom filter admits every
  name; nothing is cached.\<close>

definition engine_serves :: "'c search_lib \<Rightarrow> file_row list \<Rightarrow> ('c, 'z) search_world_scheme \<Rightarrow> bool" where
  "engine_serves l fs w \<longleftrightarrow>
     (\<forall>k. trie_get (sw_trie w) k = map_option fr_path (List.find (\<lambda>f. to_lowercase (fr_name f) = k) fs))
     \<and> list_all (\<lambda>f. may_contain (sw_bloom w) (to_lowercase (fr_name f))) fs
     \<and> (\<forall>k. fst (lru_get (sl_lru l) k (sw_cache w)) = None)"

lemma engine_rebuild_serves:
  assumes "lru_ok (sl_lru l)" "engine_rebuild l w = (Inr (), w')"
  defines "fs \<equiv> order_by fr_name (map snd (files (w_db w)))"
  shows "engine_serves l fs w' \<and> w_db w' = (w_db w)\<lparr>faults := tl (faults (w_db w))\<rparr> \<and> sw_index w' = sw_index w"
proof -
  from assms(2) have w': "sw_trie w' = fst (build_indexes (sl_ln l) fs)" "sw_bloom w' = snd (build_indexes (sl_ln l) fs)"
    "\<exists>c. sw_cache w' = lru_clear (sl_lru l) c" "w_db w' = (w_db w)\<lparr>faults := tl (faults (w_db w))\<rparr>" "sw_index w' = sw_index w"
    by (auto simp: engine_rebuild_def act_simps invalidate_cache_def s_db_def get_all_files_for_index_def sql_query_def
        db_exec_def fs_def Let_def split: prod.splits sum.splits if_splits)
  have "trie_get (sw_trie w') k = map_option snd (map_run (insertions fs) k)" for k
    using trie_run_spec [of "insertions fs"] by (simp add: w'(1) build_indexes_runs trie_get_map)
  moreover have "may_contain (sw_bloom w') (to_lowercase (fr_name f))" if "f \<in> set fs" for f
    using that by (auto simp: w'(2) build_indexes_runs may_contain_iff [OF bloom_new_ok])
  ultimately show ?thesis
    using assms(1) w'(3-) by (auto simp: engine_serves_def map_run_insertions list_all_iff lru_ok_def)
qed

section \<open>On a concrete machine\<close>

text \<open>A list with the most recent entry first is a cache as the crate describes it.\<close>

type_synonym recency = "nat \<times> (string \<times> search_result list) list"

definition list_lru :: "recency lru" where
  "list_lru = \<lparr> lru_new = (\<lambda>n. (n, [])),
     lru_get = (\<lambda>k (n, xs). case map_of xs k of None \<Rightarrow> (None, (n, xs))
       | Some v \<Rightarrow> (Some v, (n, (k, v) # filter (\<lambda>x. fst x \<noteq> k) xs))),
     lru_put = (\<lambda>k v (n, xs). (n, take (max n 1) ((k, v) # filter (\<lambda>x. fst x \<noteq> k) xs))),
     lru_clear = (\<lambda>(n, xs). (n, [])) \<rparr>"

lemma map_of_filter_neq: "map_of (filter (\<lambda>x. fst x \<noteq> k) xs) j = (if j = k then None else map_of xs j)"
  by (induction xs) auto

lemma map_of_take: "map_of (take n xs) j = Some v \<Longrightarrow> map_of xs j = Some v"
proof -
  assume "map_of (take n xs) j = Some v"
  then have "map_of (take n xs @ drop n xs) j = Some v" by (simp only: map_of_append map_add_find_right map_add_Some_iff)
  then show ?thesis by simp
qed

lemma list_lru_ok: "lru_ok list_lru"
proof -
  have get: "fst (lru_get list_lru k (n, xs)) = map_of xs k" for k n xs
    by (simp add: list_lru_def split: option.split)
  have "fst (lru_get list_lru j (snd (lru_get list_lru k (n, xs)))) = map_of xs j" for j k n xs
  proof (cases "map_of xs k")
    case (Some v)
    then have "snd (lru_get list_lru k (n, xs)) = (n, (k, v) # filter (\<lambda>x. fst x \<noteq> k) xs)" by (simp add: list_lru_def)
    with Some show ?thesis by (simp only: get) (simp add: map_of_filter_neq)
  next
    case None
    then have "snd (lru_get list_lru k (n, xs)) = (n, xs)" by (simp add: list_lru_def)
    then show ?thesis by (simp only: get)
  qed
  moreover have put: "fst (lru_get list_lru j (lru_put list_lru k v (n, xs))) = map_of (take (max n 1) ((k, v) # filter (\<lambda>x. fst x \<noteq> k) xs)) j" for j k v n xs
  proof -
    have "lru_put list_lru k v (n, xs) = (n, take (max n 1) ((k, v) # filter (\<lambda>x. fst x \<noteq> k) xs))" by (simp add: list_lru_def)
    then show ?thesis by (simp only: get)
  qed
  moreover have "map_of (take (max n 1) ((k, v) # filter (\<lambda>x. fst x \<noteq> k) xs)) k = Some v" for k v n and xs :: "(string \<times> search_result list) list"
    by (cases "max n 1") auto
  moreover have "map_of (take (max n 1) ((k, v) # filter (\<lambda>x. fst x \<noteq> k) xs)) j \<in> {None, map_of xs j}" if "j \<noteq> k"
    for j k v n and xs :: "(string \<times> search_result list) list"
    using that map_of_take [of "max n 1" "(k, v) # filter (\<lambda>x. fst x \<noteq> k) xs" j]
    by (cases "map_of (take (max n 1) ((k, v) # filter (\<lambda>x. fst x \<noteq> k) xs)) j") (auto simp: map_of_filter_neq)
  moreover have "fst (lru_get list_lru k (lru_new list_lru n)) = None" "fst (lru_get list_lru k (lru_clear list_lru (n, xs))) = None" for k n xs
    by (simp_all add: list_lru_def)
  ultimately show ?thesis unfolding lru_ok_def by (simp only: split_paired_All get put) blast
qed

definition toy_lib :: "recency search_lib" where
  "toy_lib = \<lparr> sl_tv = toy_tantivy, sl_lru = list_lru, sl_ln = (\<lambda>x. x) \<rparr>"

definition toy_app :: app_row where
  "toy_app = \<lparr> ar_id = 1, ar_name = ''Calc'', ar_exec = ''calc'', ar_icon_path = None, ar_platform = ''linux'',
     ar_source_path = ''/apps/calc.desktop'' \<rparr>"

definition toy_engine :: "recency search_world" where
  "toy_engine = \<lparr> w_conn = idle [], w_db = db_empty\<lparr>applications := [toy_app]\<rparr>, w_seed = 0,
     sw_trie = trie_run [Ins ''calc.txt'' ''/calc.txt''], sw_bloom = \<lparr> bit_words = [0], hashes = 1, size_bits = 64, bloom_capacity = 1 \<rparr>,
     sw_cache = (200, []), sw_index = \<lparr> ix_writer = [], ix_committed = [], ix_docs = [], ix_faults = [] \<rparr> \<rparr>"

lemma toy_query: "ordinary ''Calc ''" "to_lowercase (trim ''Calc '') = ''calc''" "length (trim ''Calc '') < 2 ^ 53"
proof -
  have t: "trim ''Calc '' = ''Calc''" by code_simp
  have "strip_prefix ''/'' ''Calc'' = None" "\<not> starts_with ''*'' ''Calc''" "\<not> ends_with ''*'' ''Calc''" by code_simp+
  with t show "ordinary ''Calc ''" by (simp add: ordinary_def)
  show "to_lowercase (trim ''Calc '') = ''calc''" by code_simp
  show "length (trim ''Calc '') < 2 ^ 53" by (simp add: t)
qed

lemma toy_search:
  "\<exists>w. search toy_lib ''Calc '' 2 toy_engine = (Inr [app_result toy_app, file_result ''/calc.txt'' (Fin False 1)], w)"
proof -
  have pre: "prefix_search (trie_run [Ins ''calc.txt'' ''/calc.txt'']) ''calc'' 2 = [''/calc.txt'']" by code_simp
  have app: "sql_like (like_pattern ''calc'') ''Calc''" by code_simp
  have tr: "trim ''calc'' = ''calc''" "escape_query ''calc'' = ''calc''" "to_lowercase ''calc'' = ''calc''" by code_simp+
  have le: "sort_by result_le [file_result ''/calc.txt'' (Fin False 1), app_result toy_app] = [app_result toy_app, file_result ''/calc.txt'' (Fin False 1)]"
    by (simp add: result_le_def app_result_def file_result_def)
  have keys: "seen_key (app_result toy_app) = ''app:/apps/calc.desktop''" by (simp add: seen_key_def app_result_def toy_app_def)
  have st: "trie_stage ''calc'' 2 ([], {}) toy_engine = (Inr ([file_result ''/calc.txt'' (Fin False 1)], {''/calc.txt''}), toy_engine)"
    by (simp add: trie_stage_def act_simps toy_engine_def pre)
  have ix: "index_search toy_tantivy ''calc'' 2 s = (Inr [], s)" "search_wildcard toy_tantivy ''calc'' 2 s = (Inr [], s)"
    if "ix_docs s = []" for s
    using that by (simp_all add: index_search_def search_wildcard_def act_simps tr top_docs_def toy_tantivy_def)
  have e: "sw_index toy_engine = \<lparr> ix_writer = [], ix_committed = [], ix_docs = [], ix_faults = [] \<rparr>"
    "w_db toy_engine = db_empty\<lparr>applications := [toy_app]\<rparr>" "sw_cache toy_engine = (200, [])"
    by (simp_all add: toy_engine_def)
  have up: "toy_engine\<lparr>sw_index := sw_index toy_engine\<rparr> = toy_engine" "toy_engine\<lparr>w_db := w_db toy_engine\<rparr> = toy_engine"
    by (simp_all add: toy_engine_def)
  have tx: "text_stage toy_lib ''calc'' 2 ([file_result ''/calc.txt'' (Fin False 1)], seen) toy_engine
      = (Inr ([file_result ''/calc.txt'' (Fin False 1)], seen), toy_engine)" for seen
    by (simp add: text_stage_def act_simps s_index_def toy_lib_def ix e(1) up(1) [unfolded e(1)])
  have wc: "wildcard_stage toy_lib ''calc'' 2 ([file_result ''/calc.txt'' (Fin False 1)], seen) toy_engine
      = (Inr ([file_result ''/calc.txt'' (Fin False 1)], seen), toy_engine)" for seen
    by (simp add: wildcard_stage_def MIN_RESULTS_BEFORE_FUZZY_def act_simps s_index_def toy_lib_def ix e(1) up(1) [unfolded e(1)])
  have ap: "app_stage ''calc'' ([file_result ''/calc.txt'' (Fin False 1)], {''/calc.txt''}) toy_engine
      = (Inr ([file_result ''/calc.txt'' (Fin False 1), app_result toy_app], {''/calc.txt'', ''app:/apps/calc.desktop''}), toy_engine)"
    using app by (simp add: app_stage_def act_simps s_db_def search_apps_by_name_def query_no_faults e(2) db_empty_def
        up(2) [unfolded e(2) db_empty_def] sql_limit_def order_by_def keys toy_app_def [THEN arg_cong, of ar_name] insert_commute)
  have fz: "fuzzy_stage ''calc'' 2 ([a, b], seen) toy_engine = (Inr ([a, b], seen), toy_engine)" for a b seen
    by (simp add: fuzzy_stage_def MIN_RESULTS_BEFORE_FUZZY_def act_simps s_db_def search_files_by_name_def query_no_faults e(2)
        db_empty_def up(2) [unfolded e(2) db_empty_def] sql_limit_def match_candidates_def)
  have ca: "cached toy_lib ''calc'' toy_engine = (Inr None, toy_engine)"
    by (simp add: cached_def toy_lib_def list_lru_def toy_engine_def)
  have "stages toy_lib ''calc'' 2 toy_engine
      = (Inr ([file_result ''/calc.txt'' (Fin False 1), app_result toy_app], {''/calc.txt'', ''app:/apps/calc.desktop''}), toy_engine)"
    by (simp add: stages_def act_bind_run st tx wc ap fz)
  then show ?thesis
    by (simp add: search_ordinary [OF toy_query(1)] toy_query(2) ranked_search_def act_bind_run ca Let_def act_run_simps le
        del: sort_by.simps)
qed


lemma search_repeats_witness:
  "\<exists>w :: recency search_world. fst (search toy_lib ''calc'' 1 w) = Inr [app_result toy_app, file_result ''/calc.txt'' (Fin False 1)]"
proof -
  obtain w where w: "search toy_lib ''Calc '' 2 toy_engine = (Inr [app_result toy_app, file_result ''/calc.txt'' (Fin False 1)], w)"
    using toy_search by blast
  have t: "trim ''calc'' = ''calc''" "to_lowercase ''calc'' = ''calc''" by code_simp+
  have "strip_prefix ''/'' ''calc'' = None" "\<not> starts_with ''*'' ''calc''" "\<not> ends_with ''*'' ''calc''" by code_simp+
  with t have "ordinary ''calc''" "to_lowercase (trim ''calc'') = to_lowercase (trim ''Calc '')"
    by (simp_all add: ordinary_def toy_query(2))
  moreover have "lru_ok (sl_lru toy_lib)" using list_lru_ok by (simp add: toy_lib_def)
  ultimately show ?thesis using search_repeats [OF _ toy_query(1) w, of "''calc''" 1] by (intro exI [of _ w]) simp
qed

end
