(* ===== verification/Search_Server.thy ===== *)
theory Search_Server
  imports Search_Engine File_System Discovery
begin

text \<open>
  Searching and launching across devices: the server that answers trusted peers
  (\<^verbatim>\<open>network/search_server.rs\<close>), and the commands that search here, search there and launch
  applications (\<^verbatim>\<open>commands.rs\<close>, Linux).  Starting a process and connecting are calls of the system:
  their outcomes are scheduled in the state.
\<close>

section \<open>Messages, errors, state\<close>

datatype search_msg =
    SearchRequest string "64 word"
  | SearchResults "search_result list"
  | LaunchRequest string
  | LaunchResult bool "string option"

datatype search_server_error = VIo | VSession session_error | VJson | VSearch search_error | VDb db_error

record search_json = handshake_json +
  j_smsg :: "search_msg \<Rightarrow> bytes"
  j_unsmsg :: "bytes \<Rightarrow> search_msg option"

text \<open>The \<^verbatim>\<open>Display\<close> of errors, and of a failing \<^verbatim>\<open>spawn\<close> or \<^verbatim>\<open>connect\<close>.\<close>

record err_text =
  et_db :: "db_error \<Rightarrow> string"
  et_trust :: "trust_error \<Rightarrow> string"
  et_search :: "search_error \<Rightarrow> string"
  et_session :: "session_error \<Rightarrow> string"
  et_json :: string
  et_io :: string

record 'c srv_world = "'c search_world" +
  sv_fs :: fs
  sv_spawned :: "(string \<times> string list) list"
  sv_spawn_faults :: "bool list"
  sv_dials :: "conn option list"
  sv_dialed :: "(string \<times> 16 word) list"

type_synonym ('c, 'a) v_act = "('c srv_world, search_server_error, 'a) act"
type_synonym ('c, 'a) cmd_act = "('c srv_world, string, 'a) act"

definition v_fs :: "'a fs_act \<Rightarrow> ('c srv_world, unit, 'a) act" where
  "v_fs m w = (case m (sv_fs w) of (r, s) \<Rightarrow> (r, w\<lparr>sv_fs := s\<rparr>))"

definition v_db :: "(db_error \<Rightarrow> 'e) \<Rightarrow> 'a db_act \<Rightarrow> ('c srv_world, 'e, 'a) act" where
  "v_db g m w = (case m (w_db w) of (r, d) \<Rightarrow> (map_err g r, w\<lparr>w_db := d\<rparr>))"

definition v_send :: "ext \<Rightarrow> bytes \<Rightarrow> bytes \<Rightarrow> ('c srv_world, session_error, unit) act" where
  "v_send x key b = act_bind draw (\<lambda>seed. on_conn (write_enc x seed key b))"

definition v_recv :: "ext \<Rightarrow> bytes \<Rightarrow> ('c srv_world, session_error, bytes) act" where
  "v_recv x key = on_conn (read_enc x key)"

section \<open>The server\<close>

definition launch_app :: "err_text \<Rightarrow> string \<Rightarrow> ('c, unit) cmd_act" where
  "launch_app et exec w = (case split_whitespace exec of
       [] \<Rightarrow> (Inl ''empty exec'', w)
     | prog # args \<Rightarrow> let w' = w\<lparr>sv_spawn_faults := tl (sv_spawn_faults w)\<rparr> in
         if sv_spawn_faults w \<noteq> [] \<and> hd (sv_spawn_faults w) then (Inl (et_io et), w')
         else (Inr (), w'\<lparr>sv_spawned := sv_spawned w @ [(prog, args)]\<rparr>))"

definition resolve_launch_exec :: "err_text \<Rightarrow> string \<Rightarrow> ('c, string) cmd_act" where
  "resolve_launch_exec et source_path = act_bind (v_db (et_db et) (app_exec_by_source_path source_path))
     (\<lambda>e. act_lift (ok_or ''App not found in local index'' e))"

definition handle_launch_request :: "err_text \<Rightarrow> string \<Rightarrow> ('c, unit) cmd_act" where
  "handle_launch_request et source_path = act_bind (resolve_launch_exec et source_path) (launch_app et)"

definition SERVER_MAX_ICON_BYTES :: nat where "SERVER_MAX_ICON_BYTES = 256 * 1024"

definition data_uri :: "ext \<Rightarrow> string \<Rightarrow> bytes \<Rightarrow> string" where
  "data_uri x mime b = ''data:'' @ mime @ '';base64,'' @ to_b64 x b"

definition set_icon :: "string option \<Rightarrow> search_result \<Rightarrow> search_result" where
  "set_icon i r = r\<lparr>sr_icon := i\<rparr>"

definition embed_app_icon :: "ext \<Rightarrow> search_result \<Rightarrow> ('c srv_world, 'e, search_result) act" where
  "embed_app_icon x r = (if sr_type r \<noteq> AppResult then act_ret r
     else case sr_icon r of None \<Rightarrow> act_ret r
     | Some p \<Rightarrow>
         let lower = to_lowercase p;
             mime = (if ends_with ''.png'' lower then Some ''image/png''
               else if ends_with ''.svg'' lower then Some ''image/svg+xml'' else None) in
         (case mime of None \<Rightarrow> act_ret (set_icon None r)
          | Some m \<Rightarrow> act_bind (act_try (v_fs (file_metadata p))) (\<lambda>meta. case meta of
              Inl _ \<Rightarrow> act_ret (set_icon None r)
            | Inr n \<Rightarrow> if node_len n \<le> SERVER_MAX_ICON_BYTES
                then act_bind (act_try (v_fs (file_read p))) (\<lambda>content. case content of
                    Inr b \<Rightarrow> act_ret (set_icon (Some (data_uri x m b)) r)
                  | Inl _ \<Rightarrow> act_ret (set_icon None r))
                else act_ret (set_icon None r))))"

fun embed_each :: "ext \<Rightarrow> search_result list \<Rightarrow> ('c srv_world, 'e, search_result list) act" where
  "embed_each x [] = act_ret []"
| "embed_each x (r # rs) = act_bind (embed_app_icon x r) (\<lambda>r'. act_bind (embed_each x rs) (\<lambda>rs'. act_ret (r' # rs')))"

text \<open>The results a peer gets: applications, and files the gate lets through.\<close>

definition permitted :: "(path \<Rightarrow> path option) \<Rightarrow> string list \<Rightarrow> search_result \<Rightarrow> bool" where
  "permitted canon dirs r \<longleftrightarrow> sr_type r = AppResult \<or> is_path_allowed canon (sr_path r) dirs"

definition answer_search :: "'c search_lib \<Rightarrow> ext \<Rightarrow> string \<Rightarrow> 64 word \<Rightarrow> ('c, search_result list) v_act" where
  "answer_search l x q max_results =
     act_bind (act_map_err VSearch (search l q max_results)) (\<lambda>results.
     act_bind (v_db VDb get_shared_dirs) (\<lambda>shared_dirs.
     act_bind (act_get (\<lambda>w. filter (permitted (fs_canon (sv_fs w)) shared_dirs) results)) (embed_each x)))"

definition launch_answer :: "(string, unit) res \<Rightarrow> search_msg" where
  "launch_answer r = (case r of Inr _ \<Rightarrow> LaunchResult True None | Inl e \<Rightarrow> LaunchResult False (Some e))"

definition answer_request :: "'c search_lib \<Rightarrow> ext \<Rightarrow> search_json \<Rightarrow> err_text \<Rightarrow> bytes \<Rightarrow> search_msg \<Rightarrow> ('c, unit) v_act" where
  "answer_request l x j et key m = (case m of
       SearchRequest q max_results \<Rightarrow> act_bind (answer_search l x q max_results) (\<lambda>rs.
         act_map_err VSession (v_send x key (j_smsg j (SearchResults rs))))
     | LaunchRequest source_path \<Rightarrow> act_bind (act_try (handle_launch_request et source_path)) (\<lambda>r.
         act_map_err VSession (v_send x key (j_smsg j (launch_answer r))))
     | _ \<Rightarrow> act_ret ())"

definition handle_search_conn :: "'c search_lib \<Rightarrow> ext \<Rightarrow> search_json \<Rightarrow> err_text \<Rightarrow> local_identity \<Rightarrow> ('c, unit) v_act" where
  "handle_search_conn l x j et identity =
     act_bind (act_map_err VSession (session_handshake_server x (handshake_json.truncate j) identity)) (\<lambda>(key, peer_id).
     act_bind (act_map_err VSession (v_recv x key)) (\<lambda>b.
     act_bind (act_lift (ok_or VJson (j_unsmsg j b))) (answer_request l x j et key)))"

section \<open>Commands\<close>

text \<open>\<^verbatim>\<open>str::parse::<usize>\<close>\<close>

definition parse_usize :: "string \<Rightarrow> 64 word option" where
  "parse_usize s = (let t = (case s of [] \<Rightarrow> [] | c # r \<Rightarrow> if c = CHR ''+'' then r else s);
       n = foldl (\<lambda>n c. 10 * n + (code c - 48)) 0 t
     in if t \<noteq> [] \<and> list_all is_digit t \<and> n < 2 ^ 64 then Some (word_of_nat n) else None)"

definition max_results_setting :: "err_text \<Rightarrow> ('c, 64 word) cmd_act" where
  "max_results_setting et = act_bind (v_db (et_db et) (get_setting ''max_results'')) (\<lambda>v.
     act_ret (case Option.bind v parse_usize of Some n \<Rightarrow> n | None \<Rightarrow> 50))"

definition search_local :: "'c search_lib \<Rightarrow> err_text \<Rightarrow> string \<Rightarrow> ('c, search_result list) cmd_act" where
  "search_local l et q = act_bind (max_results_setting et) (\<lambda>n. act_map_err (et_search et) (search l q n))"

text \<open>Dialling a peer's search port.\<close>

definition v_connect :: "err_text \<Rightarrow> string \<Rightarrow> ('c, unit) cmd_act" where
  "v_connect et ip w0 = (let w = w0\<lparr>sv_dialed := sv_dialed w0 @ [(ip, SEARCH_PORT)]\<rparr> in case sv_dials w of
       Some c # ds \<Rightarrow> (Inr (), w\<lparr>w_conn := c, sv_dials := ds\<rparr>)
     | None # ds \<Rightarrow> (Inl (et_io et), w\<lparr>sv_dials := ds\<rparr>)
     | [] \<Rightarrow> (Inl (et_io et), w))"

definition online_ip :: "peer_map \<Rightarrow> string \<Rightarrow> string \<Rightarrow> (string, string) res" where
  "online_ip pm device_id offline = ok_or offline (map_option (\<lambda>e. pe_ip (en_peer e)) (map_of pm device_id))"

text \<open>Handshake, one request, one response.\<close>

definition exchange :: "ext \<Rightarrow> search_json \<Rightarrow> err_text \<Rightarrow> local_identity \<Rightarrow> string \<Rightarrow> search_msg \<Rightarrow> ('c, search_msg) cmd_act" where
  "exchange x j et identity peer_pubkey request =
     act_bind (act_map_err (et_session et)
       (session_handshake_client x (handshake_json.truncate j) (id_device_id identity) identity peer_pubkey)) (\<lambda>key.
     act_then (act_map_err (et_session et) (v_send x key (j_smsg j request)))
     (act_bind (act_map_err (et_session et) (v_recv x key)) (\<lambda>b.
       act_lift (ok_or (et_json et) (j_unsmsg j b)))))"

definition trusted_peer_of :: "ext \<Rightarrow> err_text \<Rightarrow> string \<Rightarrow> string \<Rightarrow> ('c, trusted_peer) cmd_act" where
  "trusted_peer_of x et untrusted device_id w = (case list_trusted_peers x (w_db w) of
       (Inl e, d) \<Rightarrow> (Inl (et_trust et e), w\<lparr>w_db := d\<rparr>)
     | (Inr peers, d) \<Rightarrow> (ok_or untrusted (List.find (\<lambda>p. pr_device_id p = device_id) peers), w\<lparr>w_db := d\<rparr>))"

definition remote_result :: "string \<Rightarrow> search_result \<Rightarrow> search_result" where
  "remote_result device_name r = r\<lparr>sr_source := Remote device_name\<rparr>"

definition search_remote :: "ext \<Rightarrow> search_json \<Rightarrow> err_text \<Rightarrow> local_identity \<Rightarrow> peer_map \<Rightarrow> string \<Rightarrow> string
    \<Rightarrow> ('c, search_result list) cmd_act" where
  "search_remote x j et identity pm device_id q =
     act_bind (trusted_peer_of x et ''peer not trusted'' device_id) (\<lambda>peer.
     act_bind (act_lift (online_ip pm device_id ''peer not online'')) (\<lambda>ip.
     act_bind (max_results_setting et) (\<lambda>max_results.
     act_then (v_connect et ip)
     (act_bind (exchange x j et identity (pr_pubkey_b64 peer) (SearchRequest q max_results)) (\<lambda>response.
     case response of
       SearchResults results \<Rightarrow> act_ret (map (remote_result (pr_device_name peer)) results)
     | _ \<Rightarrow> act_err ''unexpected response from peer'')))))"

definition remote_launch_app :: "ext \<Rightarrow> search_json \<Rightarrow> err_text \<Rightarrow> local_identity \<Rightarrow> peer_map \<Rightarrow> string \<Rightarrow> string
    \<Rightarrow> ('c, unit) cmd_act" where
  "remote_launch_app x j et identity pm device_id app_source_path =
     act_bind (trusted_peer_of x et ''Device is not trusted'' device_id) (\<lambda>peer.
     act_bind (act_lift (online_ip pm device_id ''Device is not online'')) (\<lambda>ip.
     act_then (v_connect et ip)
     (act_bind (exchange x j et identity (pr_pubkey_b64 peer) (LaunchRequest app_source_path)) (\<lambda>response.
     case response of
       LaunchResult ok err \<Rightarrow> if ok then act_ret ()
         else act_err (case err of Some e \<Rightarrow> e | None \<Rightarrow> ''remote launch failed'')
     | _ \<Rightarrow> act_err ''unexpected response from peer''))))"

definition GET_MAX_ICON_BYTES :: nat where "GET_MAX_ICON_BYTES = 512 * 1024"

definition get_app_icon :: "ext \<Rightarrow> err_text \<Rightarrow> string \<Rightarrow> ('c, string) cmd_act" where
  "get_app_icon x et icon_path =
     (let lower = to_lowercase icon_path in
      act_bind (if ends_with ''.svg'' lower then act_ret ''image/svg+xml''
        else if ends_with ''.png'' lower then act_ret ''image/png''
        else act_err ''unsupported icon format'') (\<lambda>mime.
      act_bind (act_map_err (\<lambda>_. et_io et) (v_fs (file_metadata icon_path))) (\<lambda>meta.
      if GET_MAX_ICON_BYTES < node_len meta then act_err ''icon file too large''
      else act_bind (act_map_err (\<lambda>_. et_io et) (v_fs (file_read icon_path))) (\<lambda>b. act_ret (data_uri x mime b)))))"

end
