(* ===== verification/Search_Safety.thy ===== *)
theory Search_Safety
  imports Search_Server Search_Ranking Action_Rules
begin

text \<open>What a peer can and cannot obtain from the search server (\<^verbatim>\<open>network/search_server.rs\<close>): only
  applications and files behind the gate are listed, only programs indexed here are started, and
  only for trusted peers.\<close>

section \<open>Searching leaves the machine alone\<close>

text \<open>A search changes the cache, the use of the fault schedules and nothing else.\<close>

definition calm :: "'c srv_world \<Rightarrow> 'c srv_world \<Rightarrow> bool" where
  "calm w0 w \<longleftrightarrow> applications (w_db w) = applications (w_db w0) \<and> shared_dirs (w_db w) = shared_dirs (w_db w0)
     \<and> trusted_peers (w_db w) = trusted_peers (w_db w0) \<and> fs_canon (sv_fs w) = fs_canon (sv_fs w0)
     \<and> sv_spawned w = sv_spawned w0"

definition undisturbed :: "'c srv_world \<Rightarrow> 'c srv_world \<Rightarrow> bool" where
  "undisturbed w0 w \<longleftrightarrow> calm w0 w \<and> w_conn w = w_conn w0"

lemma undisturbed_refl: "undisturbed w w"
  by (simp add: undisturbed_def calm_def)

lemma s_db_undisturbed: "keeps (undisturbed w0) (s_db (sql_query g))"
  by (auto simp: keeps_def undisturbed_def calm_def s_db_def sql_query_def db_exec_def act_simps Let_def)

lemma s_index_undisturbed [keeps_intros]: "keeps (undisturbed w0) (s_index m)"
  by (auto simp: keeps_def undisturbed_def calm_def s_index_def split: prod.splits)

lemma queries_undisturbed [keeps_intros]:
  "keeps (undisturbed w0) (s_db (search_dirs_by_name q n))" "keeps (undisturbed w0) (s_db (search_files_by_name q n))"
  "keeps (undisturbed w0) (s_db (search_apps_by_name q))"
  unfolding search_dirs_by_name_def search_files_by_name_def search_apps_by_name_def by (rule s_db_undisturbed)+

lemma cache_undisturbed [keeps_intros]:
  "keeps (undisturbed w0) (act_mod (\<lambda>w. w\<lparr>sw_cache := f w\<rparr>))" "keeps (undisturbed w0) (cached l q)"
  by (auto simp: keeps_def undisturbed_def calm_def act_simps cached_def split: prod.splits)

lemma stages_undisturbed [keeps_intros]: "keeps (undisturbed w0) (stages l q n)"
  unfolding stages_def trie_stage_def text_stage_def wildcard_stage_def app_stage_def fuzzy_stage_def
  by (auto intro!: keeps_intros)

lemma search_undisturbed [keeps_intros]: "keeps (undisturbed w0) (search l q n)"
  unfolding search_def folder_search_def star_search_def ranked_search_def Let_def
  by (auto intro!: keeps_intros)

lemma v_fs_undisturbed [keeps_intros]:
  "keeps (undisturbed w0) (v_fs (file_metadata p))" "keeps (undisturbed w0) (v_fs (file_read p))"
  by (auto simp: keeps_def undisturbed_def calm_def v_fs_def file_metadata_def file_read_def fs_call_def Let_def
      split: option.splits node.splits)

lemma v_db_undisturbed [keeps_intros]: "keeps (undisturbed w0) (v_db g get_shared_dirs)"
  by (auto simp: keeps_def undisturbed_def calm_def v_db_def get_shared_dirs_def sql_query_def db_exec_def act_simps Let_def)

lemma embed_undisturbed [keeps_intros]: "keeps (undisturbed w0) (embed_each x rs)"
proof (induction rs)
  case (Cons r rs)
  have "keeps (undisturbed w0) (embed_app_icon x r)"
    unfolding embed_app_icon_def Let_def by (auto intro!: keeps_intros)
  with Cons show ?case by (auto intro!: keeps_intros)
qed (auto intro!: keeps_intros)

lemma answer_undisturbed: "keeps (undisturbed w0) (answer_search l x q n)"
  unfolding answer_search_def by (auto intro!: keeps_intros)

section \<open>What is listed\<close>

lemma embed_permitted:
  assumes "embed_app_icon x r w = (Inr r', w')"
  shows "sr_type r' = sr_type r \<and> sr_path r' = sr_path r"
  using assms
  by (auto simp: embed_app_icon_def act_simps set_icon_def Let_def split: if_splits option.splits prod.splits sum.splits)

lemma embed_each_permitted:
  "(embed_each x rs :: ('c srv_world, 'e, search_result list) act) w = (Inr rs', w') \<Longrightarrow> map (\<lambda>r. (sr_type r, sr_path r)) rs' = map (\<lambda>r. (sr_type r, sr_path r)) rs"
proof (induction rs arbitrary: rs' w w')
  case (Cons r rs)
  from Cons.prems have "act_bind (embed_app_icon x r) (\<lambda>r'. act_bind (embed_each x rs) (\<lambda>rs'. act_ret (r' # rs')) ::
      ('c srv_world, 'e, search_result list) act) w = (Inr rs', w')" by simp
  then obtain r1 w1 rs1 w2 where s: "(embed_app_icon x r :: ('c srv_world, 'e, search_result) act) w = (Inr r1, w1)" "(embed_each x rs :: ('c srv_world, 'e, search_result list) act) w1 = (Inr rs1, w2)"
    "(act_ret (r1 # rs1) :: ('c srv_world, 'e, search_result list) act) w2 = (Inr rs', w')"
    by (elim act_bind_Inr) (rule that)
  from s(3) have "rs' = r1 # rs1" by (simp add: act_ret_def)
  with Cons.IH [OF s(2)] embed_permitted [OF s(1)] show ?case by simp
qed (simp add: act_simps)

lemma answer_permitted:
  fixes w :: "'c srv_world"
  assumes "answer_search l x q n w = (Inr rs, w')"
  shows "list_all (permitted (fs_canon (sv_fs w)) (shared_dirs (w_db w))) rs"
proof -
  from assms obtain found w1 dirs w2 fs w3 where s: "act_map_err VSearch (search l q n) w = (Inr found, w1)"
    and d: "v_db VDb get_shared_dirs w1 = (Inr dirs, w2)"
    and f: "(act_get (\<lambda>w. filter (permitted (fs_canon (sv_fs w)) dirs) found) :: ('c, search_result list) v_act) w2 = (Inr fs, w3)"
    and e3: "(embed_each x fs :: ('c, search_result list) v_act) w3 = (Inr rs, w')"
    unfolding answer_search_def by (elim act_bind_Inr) (rule that)
  from e3 f have e: "(embed_each x (filter (permitted (fs_canon (sv_fs w2)) dirs) found) :: ('c, search_result list) v_act) w2 = (Inr rs, w')"
    by (auto simp: act_get_def)
  have "keeps (undisturbed w) (act_map_err VSearch (search l q n))" by (auto intro!: keeps_intros)
  note u1 = keepsE [OF this s undisturbed_refl]
  note u2 = keepsE [OF v_db_undisturbed d u1]
  have "set dirs = set (shared_dirs (w_db w))"
    using d u1 by (auto simp: v_db_def get_shared_dirs_def sql_query_def db_exec_def act_simps Let_def order_by_def undisturbed_def calm_def
        split: prod.splits if_splits)
  note gs = gate_set [OF this]
  have "fs_canon (sv_fs w2) = fs_canon (sv_fs w)" using u2 by (simp only: undisturbed_def calm_def)
  then have g: "permitted (fs_canon (sv_fs w2)) dirs = permitted (fs_canon (sv_fs w)) (shared_dirs (w_db w))"
    by (intro ext) (simp only: permitted_def gs)
  have p: "permitted c ds r = permitted c ds r'" if "(sr_type r, sr_path r) = (sr_type r', sr_path r')" for c ds r r'
    using that by (simp add: permitted_def)
  show ?thesis
  proof (unfold list_all_iff, rule ballI)
    fix r assume "r \<in> set rs"
    then have "(sr_type r, sr_path r) \<in> (\<lambda>r. (sr_type r, sr_path r)) ` set rs" by blast
    also have "\<dots> = (\<lambda>r. (sr_type r, sr_path r)) ` set (filter (permitted (fs_canon (sv_fs w)) (shared_dirs (w_db w))) found)"
      using arg_cong [OF embed_each_permitted [OF e], of set] unfolding g by simp
    finally obtain r' where r': "r' \<in> set (filter (permitted (fs_canon (sv_fs w)) (shared_dirs (w_db w))) found)"
      "(sr_type r, sr_path r) = (sr_type r', sr_path r')" unfolding image_iff by (elim bexE) (rule that)
    from r'(1) show "permitted (fs_canon (sv_fs w)) (shared_dirs (w_db w)) r" unfolding p [OF r'(2)] set_filter by simp
  qed
qed

lemma v_send_out:
  assumes "act_map_err g (v_send x key b) w = (r, w')"
  shows "calm w w' \<and> (\<exists>n ct. c_out (w_conn w') = c_out (w_conn w) @ take n (frame_of ct)
    \<and> (encrypt x (w_seed w) key b = Inr ct \<or> n = 0))"
proof -
  obtain q c where c: "write_enc x (w_seed w) key b (w_conn w) = (q, c)" by fastforce
  with assms have "w' = w\<lparr>w_seed := w_seed w + 1, w_conn := c\<rparr>"
    by (simp add: v_send_def draw_def on_conn_def act_simps)
  then show ?thesis using write_enc_out [OF c] by (simp add: calm_def)
qed

lemma net_calm [keeps_intros]:
  "keeps (calm w0) (on_conn m)" "keeps (calm w0) draw" "keeps (calm w0) (on_db get_trusted_peers)"
  by (auto simp: keeps_def calm_def on_conn_def draw_def on_db_def get_trusted_peers_def sql_query_def db_exec_def act_simps Let_def
      split: prod.splits)

lemma handshake_calm [keeps_intros]: "keeps (calm w0) (session_handshake_server x j identity)"
  unfolding session_handshake_server_def Let_def by (auto intro!: keeps_intros)

lemma v_recv_calm: "act_map_err g (v_recv x key) w = (r, w') \<Longrightarrow> calm w w' \<and> c_out (w_conn w') = c_out (w_conn w)"
  using read_plain_out
  by (auto simp: v_recv_def on_conn_def act_simps calm_def read_enc_def split: prod.splits sum.splits)



section \<open>What is started\<close>

lemma launch_spawns:
  assumes "handle_launch_request et p w = (r, w')"
  shows "sv_spawned w' = sv_spawned w \<or> (\<exists>a prog args. a \<in> set (applications (w_db w)) \<and> ar_source_path a = p
    \<and> split_whitespace (ar_exec a) = prog # args \<and> sv_spawned w' = sv_spawned w @ [(prog, args)])"
proof -
  obtain q v where q: "resolve_launch_exec et p w = (q, v)" by fastforce
  then have v: "sv_spawned v = sv_spawned w"
    by (auto simp: resolve_launch_exec_def v_db_def act_simps split: prod.splits sum.splits)
  show ?thesis
  proof (cases q)
    case (Inl e)
    with assms q v show ?thesis by (simp add: handle_launch_request_def act_bind_run)
  next
    case (Inr exec)
    with q obtain a where a: "a \<in> set (applications (w_db w))" "ar_source_path a = p" "ar_exec a = exec"
      by (auto simp: resolve_launch_exec_def v_db_def app_exec_by_source_path_def sql_query_def db_exec_def act_simps Let_def
          dest!: find_Some_mem split: if_splits)
    have "launch_app et exec v = (r, w')" using assms q Inr by (simp add: handle_launch_request_def act_bind_run)
    then have "sv_spawned w' = sv_spawned v \<or> (\<exists>prog args. split_whitespace exec = prog # args \<and> sv_spawned w' = sv_spawned v @ [(prog, args)])"
      by (auto simp: launch_app_def Let_def split: list.splits if_splits)
    with a v show ?thesis by metis
  qed
qed

lemma answer_spawns:
  assumes "answer_request l x j et key m w = (r, w')"
  shows "sv_spawned w' = sv_spawned w \<or> (\<exists>a prog args. a \<in> set (applications (w_db w))
    \<and> split_whitespace (ar_exec a) = prog # args \<and> sv_spawned w' = sv_spawned w @ [(prog, args)])"
proof (cases m)
  case (SearchRequest q n)
  obtain a v where av: "answer_search l x q n w = (a, v)" by fastforce
  note u = keepsE [OF answer_undisturbed av undisturbed_refl]
  show ?thesis
  proof (cases a)
    case (Inl e)
    with assms av u SearchRequest show ?thesis by (simp add: answer_request_def act_bind_run undisturbed_def calm_def)
  next
    case (Inr rs)
    with assms av SearchRequest have "act_map_err VSession (v_send x key (j_smsg j (SearchResults rs))) v = (r, w')"
      by (simp add: answer_request_def act_bind_run)
    from v_send_out [OF this] u show ?thesis by (simp add: undisturbed_def calm_def)
  qed
next
  case (LaunchRequest p)
  obtain a v where av: "handle_launch_request et p w = (a, v)" by fastforce
  with assms LaunchRequest have "act_map_err VSession (v_send x key (j_smsg j (launch_answer a))) v = (r, w')"
    by (simp add: answer_request_def act_simps)
  from v_send_out [OF this] have "sv_spawned w' = sv_spawned v" by (simp add: calm_def)
  with launch_spawns [OF av] show ?thesis by metis
qed (use assms in \<open>simp_all add: answer_request_def act_simps\<close>)



section \<open>On a concrete machine\<close>

text \<open>A trusted peer asks for the folders named like \<^verbatim>\<open>d\<close>; one of the two is shared.\<close>

definition toy_search_json :: search_json where
  "toy_search_json = \<lparr> j_init = j_init toy_json, j_uninit = j_uninit toy_json, j_hello = j_hello toy_json,
     j_unhello = j_unhello toy_json, j_smsg = (\<lambda>_. [7]), j_unsmsg = (\<lambda>_. Some (SearchRequest ''/d'' 5)) \<rparr>"

lemma toy_search_json_truncate: "handshake_json.truncate toy_search_json = toy_json"
  by (simp add: handshake_json.truncate_def toy_search_json_def toy_json_def)

definition toy_sealed :: bytes where
  "toy_sealed = replicate 12 0 @ replicate 32 3 @ [7]"

definition toy_srv :: "recency srv_world" where
  "toy_srv = \<lparr> w_conn = idle (frame_of (chars ''alice'') @ frame_of toy_sealed),
     w_db = db_empty\<lparr>trusted_peers := [toy_peer], shared_dirs := [''/srv''],
       files := [(1, (toy_row ''d1'')\<lparr>fr_path := ''/srv/d1'', fr_file_type := ''dir''\<rparr>),
                 (2, (toy_row ''d2'')\<lparr>fr_path := ''/etc/d2'', fr_file_type := ''dir''\<rparr>)]\<rparr>, w_seed = 5,
     sw_trie = trie_new, sw_bloom = \<lparr> bit_words = [0], hashes = 1, size_bits = 64, bloom_capacity = 1 \<rparr>,
     sw_cache = (200, []), sw_index = \<lparr> ix_writer = [], ix_committed = [], ix_docs = [], ix_faults = [] \<rparr>,
     sv_fs = \<lparr> fs_nodes = (\<lambda>_. None), fs_canon = Some, fs_faults = [] \<rparr>, sv_spawned = [], sv_spawn_faults = [],
     sv_dials = [], sv_dialed = [] \<rparr>"

definition toy_text :: err_text where
  "toy_text = \<lparr> et_db = (\<lambda>_. ''database''), et_trust = (\<lambda>_. ''trust''), et_search = (\<lambda>_. ''search''),
     et_session = (\<lambda>_. ''session''), et_json = ''json'', et_io = ''io'' \<rparr>"


end
