(* ===== verification/Indexer.thy ===== *)
theory Indexer
  imports Search_Server
begin

text \<open>
  The file indexer (\<^verbatim>\<open>search/indexer.rs\<close>) and the operations that drive it: the reindex commands of
  \<^verbatim>\<open>commands.rs\<close> and the start-up task of \<^verbatim>\<open>main.rs\<close>.  What \<^verbatim>\<open>read_dir\<close> and the metadata calls answer
  under an indexed directory is a finite tree in the state, errors included; the walk over it, the
  batching of rows, the progress counters and the events are the code's.
\<close>

section \<open>Directory trees\<close>

text \<open>Modification times in whole seconds since the epoch, rounded down.\<close>

record file_meta =
  mt_len :: nat
  mt_modified :: "int option"

datatype dir_item = EntryError | Entry string entry_type
and entry_type = TypeError | Symlink | Directory listing | Regular "file_meta option" | Special
and listing = Unreadable | Listing "dir_item list"

definition MAX_FILE_SIZE_BYTES :: nat where "MAX_FILE_SIZE_BYTES = 10 * 1024 * 1024"
definition EMIT_EVERY_N_FILES :: nat where "EMIT_EVERY_N_FILES = 250"
definition WRITE_BATCH_SIZE :: nat where "WRITE_BATCH_SIZE = 2000"

section \<open>Progress\<close>

datatype scan_error = ScanIo | ScanDb db_error

datatype index_phase = Starting | Scanning | BuildingIndex | Complete nat | Failed string

record index_progress =
  ip_phase :: index_phase
  ip_files_scanned :: nat
  ip_current_dir :: string
  ip_total_dirs :: nat
  ip_dirs_done :: nat

text \<open>The state of a scan: the database, the queue of rows, the counters of \<^verbatim>\<open>ScanState\<close>, the events.\<close>

record scanner =
  sc_db :: db
  sc_pending :: "file_row list"
  sc_total_dirs :: nat
  sc_files_scanned :: nat
  sc_dirs_done :: nat
  sc_current_dir :: string
  sc_events :: "index_progress list"

type_synonym 'a scan_act = "(scanner, scan_error, 'a) act"

definition sc_run :: "'a db_act \<Rightarrow> 'a scan_act" where
  "sc_run m s = (case m (sc_db s) of (r, d) \<Rightarrow> (map_err ScanDb r, s\<lparr>sc_db := d\<rparr>))"

definition snapshot :: "index_phase \<Rightarrow> scanner \<Rightarrow> index_progress" where
  "snapshot ph s = \<lparr> ip_phase = ph, ip_files_scanned = sc_files_scanned s, ip_current_dir = sc_current_dir s,
     ip_total_dirs = sc_total_dirs s, ip_dirs_done = sc_dirs_done s \<rparr>"

definition sc_emit :: "index_phase \<Rightarrow> unit scan_act" where
  "sc_emit ph = act_mod (\<lambda>s. s\<lparr>sc_events := sc_events s @ [snapshot ph s]\<rparr>)"

section \<open>The walk\<close>

definition queue_row :: "file_row \<Rightarrow> unit scan_act" where
  "queue_row row = act_then (act_mod (\<lambda>s. s\<lparr>sc_pending := sc_pending s @ [row]\<rparr>))
     (act_bind (act_get sc_pending) (\<lambda>pending.
        if WRITE_BATCH_SIZE \<le> length pending
        then act_then (sc_run (upsert_files pending)) (act_mod (\<lambda>s. s\<lparr>sc_pending := []\<rparr>))
        else act_ret ()))"

definition hidden_name :: "string \<Rightarrow> bool" where
  "hidden_name name = starts_with ''.'' name"

definition parent_text :: "path \<Rightarrow> string" where
  "parent_text p = (case path_parent p of Some q \<Rightarrow> q | None \<Rightarrow> [])"

definition dir_row :: "path \<Rightarrow> string \<Rightarrow> file_row" where
  "dir_row dir name = \<lparr> fr_name = name, fr_path = path_join dir name, fr_parent_path = parent_text (path_join dir name),
     fr_file_type = ''dir'', fr_size = None, fr_last_modified = None, fr_extension = None,
     fr_is_hidden = (if hidden_name name then 1 else 0) \<rparr>"

definition regular_row :: "path \<Rightarrow> string \<Rightarrow> file_meta \<Rightarrow> file_row" where
  "regular_row dir name meta = \<lparr> fr_name = name, fr_path = path_join dir name,
     fr_parent_path = parent_text (path_join dir name), fr_file_type = ''file'', fr_size = Some (int (mt_len meta)),
     fr_last_modified = (case mt_modified meta of Some t \<Rightarrow> if 0 \<le> t then Some t else None | None \<Rightarrow> None),
     fr_extension = path_extension (path_join dir name), fr_is_hidden = (if hidden_name name then 1 else 0) \<rparr>"

definition count_scanned :: "unit scan_act" where
  "count_scanned = act_then (act_mod (\<lambda>s. s\<lparr>sc_files_scanned := sc_files_scanned s + 1\<rparr>))
     (act_bind (act_get sc_files_scanned) (\<lambda>scanned.
        if scanned mod EMIT_EVERY_N_FILES = 0 then sc_emit Scanning else act_ret ()))"

text \<open>A database error in a subdirectory ends the walk of that subdirectory only: its count is taken
  as zero (\<^verbatim>\<open>unwrap_or(0)\<close>).\<close>

fun walk_dir :: "bool \<Rightarrow> path \<Rightarrow> listing \<Rightarrow> nat scan_act"
  and walk_entries :: "bool \<Rightarrow> path \<Rightarrow> dir_item list \<Rightarrow> nat \<Rightarrow> nat scan_act"
where
  "walk_dir h dir Unreadable = act_ret 0"
| "walk_dir h dir (Listing xs) = walk_entries h dir xs 0"
| "walk_entries h dir [] n = act_ret n"
| "walk_entries h dir (EntryError # xs) n = walk_entries h dir xs n"
| "walk_entries h dir (Entry name t # xs) n =
     (if hidden_name name \<and> \<not> h then walk_entries h dir xs n
      else case t of
        Directory l \<Rightarrow> act_then (queue_row (dir_row dir name))
          (act_bind (act_try (walk_dir h (path_join dir name) l)) (\<lambda>r.
             walk_entries h dir xs (n + (case r of Inr m \<Rightarrow> m | Inl _ \<Rightarrow> 0))))
      | Regular (Some meta) \<Rightarrow>
          if MAX_FILE_SIZE_BYTES < mt_len meta then walk_entries h dir xs n
          else act_then (queue_row (regular_row dir name meta))
            (act_then count_scanned (walk_entries h dir xs (n + 1)))
      | _ \<Rightarrow> walk_entries h dir xs n)"

definition scan_dir :: "bool \<Rightarrow> path \<Rightarrow> listing \<Rightarrow> nat scan_act" where
  "scan_dir h dir l = act_then (act_mod (\<lambda>s. s\<lparr>sc_pending := []\<rparr>))
     (act_bind (walk_dir h dir l) (\<lambda>n.
      act_bind (act_get sc_pending) (\<lambda>pending.
        act_then (sc_run (upsert_files pending)) (act_ret n))))"

fun scan_each :: "int \<Rightarrow> bool \<Rightarrow> (path \<Rightarrow> listing) \<Rightarrow> path list \<Rightarrow> nat \<Rightarrow> nat scan_act" where
  "scan_each now h tree [] acc = act_ret acc"
| "scan_each now h tree (dir # dirs) acc =
     act_then (act_mod (\<lambda>s. s\<lparr>sc_current_dir := dir\<rparr>)) (act_then (sc_emit Scanning)
     (act_bind (scan_dir h dir (tree dir)) (\<lambda>n.
     act_then (sc_run (update_indexed_dir_count now dir (int n)))
     (act_then (act_mod (\<lambda>s. s\<lparr>sc_dirs_done := sc_dirs_done s + 1\<rparr>))
       (scan_each now h tree dirs (acc + n))))))"

definition scan_all :: "int \<Rightarrow> bool \<Rightarrow> (path \<Rightarrow> listing) \<Rightarrow> nat scan_act" where
  "scan_all now h tree = act_bind (sc_run get_indexed_dirs) (\<lambda>dirs.
     act_then (act_mod (\<lambda>s. s\<lparr>sc_total_dirs := length dirs, sc_files_scanned := 0, sc_dirs_done := 0, sc_current_dir := []\<rparr>))
     (act_then (sc_emit Starting)
     (act_bind (scan_each now h tree (map ix_path dirs) 0) (\<lambda>total.
        act_then (sc_emit BuildingIndex) (act_ret total)))))"

section \<open>The application's state\<close>

text \<open>Added to the server's world: the indexing flags, the progress events, other notices to the
  frontend, the tree the scans see, and the clock.\<close>

record 'c app_world = "'c srv_world" +
  aw_indexing :: bool
  aw_ready :: bool
  aw_events :: "index_progress list"
  aw_notices :: "string list"
  aw_tree :: "path \<Rightarrow> listing"
  aw_clock :: int

type_synonym ('c, 'a) app_act = "('c app_world, string, 'a) act"

record app_text = err_text +
  et_scan :: "scan_error \<Rightarrow> string"
  et_index :: "index_error \<Rightarrow> string"

definition a_db :: "(db_error \<Rightarrow> 'e) \<Rightarrow> 'a db_act \<Rightarrow> ('c app_world, 'e, 'a) act" where
  "a_db g m w = (case m (w_db w) of (r, d) \<Rightarrow> (map_err g r, w\<lparr>w_db := d\<rparr>))"

definition a_fs :: "'a fs_act \<Rightarrow> ('c app_world, unit, 'a) act" where
  "a_fs m w = (case m (sv_fs w) of (r, s) \<Rightarrow> (r, w\<lparr>sv_fs := s\<rparr>))"

definition a_emit :: "index_progress \<Rightarrow> ('c app_world, 'e, unit) act" where
  "a_emit p = act_mod (\<lambda>w. w\<lparr>aw_events := aw_events w @ [p]\<rparr>)"

definition set_indexing :: "bool \<Rightarrow> ('c app_world, 'e, unit) act" where
  "set_indexing b = act_mod (\<lambda>w. w\<lparr>aw_indexing := b\<rparr>)"

definition bare_progress :: "index_phase \<Rightarrow> nat \<Rightarrow> index_progress" where
  "bare_progress ph n = \<lparr> ip_phase = ph, ip_files_scanned = n, ip_current_dir = [], ip_total_dirs = 0, ip_dirs_done = 0 \<rparr>"

definition emit_bare :: "index_phase \<Rightarrow> ('c app_world, 'e, unit) act" where
  "emit_bare ph = a_emit (bare_progress ph 0)"

definition finish_ok :: "nat \<Rightarrow> ('c app_world, 'e, unit) act" where
  "finish_ok n = act_then (a_emit (bare_progress (Complete n) n)) (set_indexing False)"

definition finish_err :: "string \<Rightarrow> ('c app_world, 'e, unit) act" where
  "finish_err reason = act_then (emit_bare (Failed reason)) (set_indexing False)"

definition on_scanner :: "'a scan_act \<Rightarrow> ('c app_world, scan_error, 'a) act" where
  "on_scanner m w = (case m \<lparr> sc_db = w_db w, sc_pending = [], sc_total_dirs = 0, sc_files_scanned = 0, sc_dirs_done = 0,
       sc_current_dir = [], sc_events = aw_events w \<rparr> of
     (r, s) \<Rightarrow> (r, w\<lparr>w_db := sc_db s, aw_events := sc_events s\<rparr>))"

definition run_full_scan :: "app_text \<Rightarrow> bool \<Rightarrow> ('c app_world, scan_error, nat) act" where
  "run_full_scan et h = act_then (set_indexing True)
     (act_bind (act_try (\<lambda>w. on_scanner (scan_all (aw_clock w) h (aw_tree w)) w)) (\<lambda>r. case r of
        Inr n \<Rightarrow> act_ret n
      | Inl e \<Rightarrow> act_then (emit_bare (Failed (et_scan et e))) (act_then (set_indexing False) (act_err e))))"

section \<open>Pruning\<close>

text \<open>\<^verbatim>\<open>Path::exists\<close> is a metadata call; an error counts as missing.\<close>

fun missing_of :: "path list \<Rightarrow> ('c app_world, 'e, path list) act" where
  "missing_of [] = act_ret []"
| "missing_of (p # ps) = act_bind (act_try (a_fs (file_metadata p))) (\<lambda>r.
     act_bind (missing_of ps) (\<lambda>ms. act_ret (if is_ok r then ms else p # ms)))"

fun delete_chunks :: "path list list \<Rightarrow> ('c app_world, scan_error, unit) act" where
  "delete_chunks [] = act_ret ()"
| "delete_chunks (c # cs) = act_then (a_db ScanDb (delete_files_by_path c)) (delete_chunks cs)"

definition prune_deleted :: "('c app_world, scan_error, nat) act" where
  "prune_deleted = act_bind (a_db ScanDb get_all_file_paths) (\<lambda>paths.
     act_bind (missing_of paths) (\<lambda>missing.
       act_then (delete_chunks (chunks_of WRITE_BATCH_SIZE missing)) (act_ret (length missing))))"

section \<open>Rebuilding the indexes\<close>

definition rebuild_from_db :: "(('c, 'z) search_world_scheme, index_error, nat) act" where
  "rebuild_from_db = act_bind (\<lambda>w. case get_all_files_for_index (w_db w) of (r, d) \<Rightarrow> (map_err IDb r, w\<lparr>w_db := d\<rparr>)) (\<lambda>fs w.
     case rebuild_docs fs (sw_index w) of (r, s) \<Rightarrow> (r, w\<lparr>sw_index := s\<rparr>))"

definition include_hidden_setting :: "app_text \<Rightarrow> ('c, bool) app_act" where
  "include_hidden_setting et = act_bind (a_db (et_db et) (get_setting ''include_hidden''))
     (\<lambda>v. act_ret (v = Some ''true''))"

definition scan_cmd :: "app_text \<Rightarrow> bool \<Rightarrow> ('c, nat) app_act" where
  "scan_cmd et h = act_map_err (et_scan et) (run_full_scan et h)"

definition rebuild_both :: "'c search_lib \<Rightarrow> app_text \<Rightarrow> ('c, unit) app_act" where
  "rebuild_both l et = act_then (act_map_err (et_index et) rebuild_from_db) (act_map_err (et_search et) (engine_rebuild l))"

definition or_finish_err :: "('c, 'a) app_act \<Rightarrow> ('c, 'a) app_act" where
  "or_finish_err m = act_bind (act_try m) (\<lambda>r. case r of
     Inr a \<Rightarrow> act_ret a | Inl e \<Rightarrow> act_then (finish_err e) (act_err e))"

definition set_ready :: "('c app_world, 'e, unit) act" where
  "set_ready = act_mod (\<lambda>w. w\<lparr>aw_ready := True\<rparr>)"

definition record_full_index :: "('c app_world, 'e, unit) act" where
  "record_full_index = (\<lambda>w. act_ignore (a_db (\<lambda>e. e) (set_setting ''last_full_index'' (show_int (aw_clock w)))) w)"

definition trigger_reindex :: "'c search_lib \<Rightarrow> app_text \<Rightarrow> ('c, nat) app_act" where
  "trigger_reindex l et = act_bind (include_hidden_setting et) (\<lambda>h.
     act_bind (scan_cmd et h) (\<lambda>total.
     act_then (or_finish_err (act_then (act_map_err (et_scan et) prune_deleted) (rebuild_both l et)))
     (act_then set_ready (act_then record_full_index (act_then (finish_ok total) (act_ret total))))))"

definition is_dir :: "path \<Rightarrow> ('c app_world, 'e, bool) act" where
  "is_dir p = act_bind (act_try (a_fs (file_metadata p))) (\<lambda>r. act_ret (case r of Inr (DirNode _) \<Rightarrow> True | _ \<Rightarrow> False))"

definition add_indexed_dir_cmd :: "'c search_lib \<Rightarrow> app_text \<Rightarrow> path \<Rightarrow> ('c, unit) app_act" where
  "add_indexed_dir_cmd l et p = act_bind (is_dir p) (\<lambda>ok.
     if \<not> ok then act_err (''not a directory: '' @ p)
     else act_then (a_db (et_db et) (add_indexed_dir p))
       (act_bind (include_hidden_setting et) (\<lambda>h.
        act_bind (scan_cmd et h) (\<lambda>total.
        act_then (or_finish_err (rebuild_both l et))
        (act_then set_ready (finish_ok total))))))"

definition remove_indexed_dir_cmd :: "app_text \<Rightarrow> path \<Rightarrow> ('c, unit) app_act" where
  "remove_indexed_dir_cmd et p = a_db (et_db et) (remove_indexed_dir p)"

section \<open>Status\<close>

record index_status =
  is_indexed_dirs_count :: nat
  is_file_count :: int
  is_tantivy_ready :: bool
  is_last_scan :: "int option"

definition get_index_status :: "app_text \<Rightarrow> ('c, index_status) app_act" where
  "get_index_status et = act_bind (a_db (et_db et) get_indexed_dirs) (\<lambda>dirs.
     act_bind (a_db (et_db et) count_files) (\<lambda>n.
     act_bind (a_db (et_db et) get_last_scan) (\<lambda>ls.
     act_bind (act_get aw_ready) (\<lambda>ready.
     act_ret \<lparr> is_indexed_dirs_count = length dirs, is_file_count = n, is_tantivy_ready = ready, is_last_scan = ls \<rparr>))))"

definition get_is_indexing :: "('c, bool) app_act" where
  "get_is_indexing = act_get aw_indexing"

definition dirs_indexed :: "app_text \<Rightarrow> ('c, bool) app_act" where
  "dirs_indexed et = act_bind (a_db (et_db et) count_dirs) (\<lambda>c. act_ret (0 < c))"

section \<open>Start-up\<close>

definition a_or :: "'a \<Rightarrow> ('c app_world, 'e, 'a) act \<Rightarrow> ('c app_world, 'f, 'a) act" where
  "a_or d m = act_bind (act_try m) (\<lambda>r. act_ret (case r of Inr a \<Rightarrow> a | Inl _ \<Rightarrow> d))"

definition should_run_startup_scan :: "bool \<Rightarrow> ('c app_world, 'e, bool) act" where
  "should_run_startup_scan index_on_disk = (if \<not> index_on_disk then act_ret True
     else act_bind (a_or 0 (a_db id count_files)) (\<lambda>file_count.
       if file_count = 0 then act_ret True
       else act_bind (a_or None (a_db id (get_setting ''last_full_index''))) (\<lambda>v. act_ret (v = None))))"

text \<open>The task \<^verbatim>\<open>main.rs\<close> spawns; \<open>Inl ()\<close> is its early return after an error.\<close>

definition startup_scan :: "app_text \<Rightarrow> bool \<Rightarrow> ('c app_world, unit, nat) act" where
  "startup_scan et h = act_bind (act_map_err (\<lambda>_. ()) (run_full_scan et h)) (\<lambda>total.
     act_then (act_ignore prune_deleted) (act_ret total))"

definition startup_text_index :: "app_text \<Rightarrow> bool \<Rightarrow> ('c app_world, unit, unit) act" where
  "startup_text_index et needs_scan = act_bind (a_or 0 (a_db id count_files)) (\<lambda>row_count.
     act_bind (act_get (\<lambda>w. num_docs (sw_index w))) (\<lambda>indexed_docs.
     if needs_scan \<or> int indexed_docs \<noteq> row_count
     then act_bind (act_try rebuild_from_db) (\<lambda>r. case r of
         Inr _ \<Rightarrow> act_ret ()
       | Inl e \<Rightarrow> act_then (if needs_scan then finish_err (et_index et e) else act_ret ()) (act_err ()))
     else act_ret ()))"

definition startup_engine :: "'c search_lib \<Rightarrow> app_text \<Rightarrow> bool \<Rightarrow> ('c app_world, unit, unit) act" where
  "startup_engine l et needs_scan = (if needs_scan
     then act_bind (act_try (engine_rebuild l)) (\<lambda>r. case r of
         Inr _ \<Rightarrow> act_ret ()
       | Inl e \<Rightarrow> act_then (finish_err (et_search et e)) (act_err ()))
     else act_ret ())"

definition startup_refresh :: "'c search_lib \<Rightarrow> app_text \<Rightarrow> bool \<Rightarrow> bool \<Rightarrow> ('c app_world, unit, unit) act" where
  "startup_refresh l et h needs_scan = act_bind (if needs_scan then startup_scan et h else act_ret 0) (\<lambda>n.
     act_then (startup_text_index et needs_scan)
     (act_then (startup_engine l et needs_scan)
     (act_then set_ready
       (if needs_scan then act_then record_full_index (finish_ok n) else act_ret ()))))"

definition no_indexed_dirs :: "('c app_world, 'e, unit) act" where
  "no_indexed_dirs = act_then (act_mod (\<lambda>w. w\<lparr>aw_notices := aw_notices w @ [''no-indexed-dirs'']\<rparr>)) set_ready"

definition startup_index :: "'c search_lib \<Rightarrow> app_text \<Rightarrow> bool \<Rightarrow> ('c app_world, unit, unit) act" where
  "startup_index l et index_on_disk = act_bind (a_or [] (a_db id get_indexed_dirs)) (\<lambda>dirs.
     if dirs = [] then no_indexed_dirs
     else act_bind (a_or None (a_db id (get_setting ''include_hidden''))) (\<lambda>v.
       act_bind (should_run_startup_scan index_on_disk) (startup_refresh l et (v = Some ''true''))))"

end
