(* ===== verification/Index_Scan.thy ===== *)
theory Index_Scan
  imports Indexer Action_Rules
begin

text \<open>
  A full scan writes what the directory tree holds: the rows a scan should produce, stated without
  queues or batches, and the proof that the batched walk leaves the same tables.
\<close>

section \<open>The rows of a tree\<close>

fun tree_rows :: "bool \<Rightarrow> path \<Rightarrow> listing \<Rightarrow> file_row list"
  and item_rows :: "bool \<Rightarrow> path \<Rightarrow> dir_item list \<Rightarrow> file_row list"
where
  "tree_rows h dir Unreadable = []"
| "tree_rows h dir (Listing xs) = item_rows h dir xs"
| "item_rows h dir [] = []"
| "item_rows h dir (EntryError # xs) = item_rows h dir xs"
| "item_rows h dir (Entry name t # xs) = (if hidden_name name \<and> \<not> h then [] else case t of
        Directory l \<Rightarrow> dir_row dir name # tree_rows h (path_join dir name) l
      | Regular (Some meta) \<Rightarrow> if mt_len meta \<le> MAX_FILE_SIZE_BYTES then [regular_row dir name meta] else []
      | _ \<Rightarrow> []) @ item_rows h dir xs"

definition files_in :: "file_row list \<Rightarrow> nat" where
  "files_in rs = length (filter (\<lambda>r. fr_file_type r = ''file'') rs)"

lemma files_in_simps [simp]:
  "files_in [] = 0"
  "files_in (rs @ rs') = files_in rs + files_in rs'"
  "files_in (dir_row d n # rs) = files_in rs"
  "files_in (regular_row d n m # rs) = Suc (files_in rs)"
  by (simp_all add: files_in_def dir_row_def regular_row_def)

section \<open>Without faults\<close>

lemma blind_faults: "blind g \<Longrightarrow> faults (g d) = faults d"
proof -
  assume "blind g"
  then have "g (d\<lparr>faults := faults d\<rparr>) = (g d)\<lparr>faults := faults d\<rparr>" by (rule blindD)
  then have "g d = (g d)\<lparr>faults := faults d\<rparr>" by simp
  then show ?thesis by (metis db.select_convs(12) db.update_convs(12) db.surjective)
qed

lemma fold_faults: "(\<And>r. blind (f r)) \<Longrightarrow> faults (fold f rs d) = faults d"
  by (induction rs arbitrary: d) (simp_all add: blind_faults)

lemma exec_each_no_faults:
  "(\<And>r. blind (f r)) \<Longrightarrow> faults d = [] \<Longrightarrow> exec_each f rs d = (Inr (), fold f rs d)"
  by (induction rs arbitrary: d) (simp_all add: act_simps execute_no_faults blind_faults)

lemma batch_no_faults:
  assumes "\<And>r. blind (f r)" "faults d = []"
  shows "db_transaction (act_then (sql_execute id) (act_then (exec_each f rs) (sql_execute id))) d = (Inr (), fold f rs d)"
  using assms by (simp add: db_transaction_def act_simps execute_no_faults exec_each_no_faults fold_faults)

lemma upsert_files_no_faults: "faults d = [] \<Longrightarrow> upsert_files rs d = (Inr (), fold upsert_file_row rs d)"
  by (simp add: upsert_files_def batch_no_faults blind_file_ops act_simps)

lemma delete_files_no_faults: "faults d = [] \<Longrightarrow> delete_files_by_path ps d = (Inr (), fold delete_file_row ps d)"
  by (simp add: delete_files_by_path_def batch_no_faults blind_file_ops act_simps)

text \<open>What the tables hold once the queue is written.\<close>

definition flushed :: "scanner \<Rightarrow> db" where
  "flushed s = fold upsert_file_row (sc_pending s) (sc_db s)"

text \<open>The part of a walk's effect a caller relies on.\<close>

definition walked :: "file_row list \<Rightarrow> scanner \<Rightarrow> scanner \<Rightarrow> bool" where
  "walked rs s t \<longleftrightarrow> flushed t = fold upsert_file_row rs (flushed s) \<and> faults (sc_db t) = []
     \<and> sc_total_dirs t = sc_total_dirs s \<and> sc_dirs_done t = sc_dirs_done s \<and> sc_current_dir t = sc_current_dir s
     \<and> sc_files_scanned t = sc_files_scanned s + files_in rs \<and> prefix (sc_events s) (sc_events t)"

lemma walked_refl: "faults (sc_db s) = [] \<Longrightarrow> walked [] s s"
  by (simp add: walked_def)

lemma walked_trans: "walked rs s t \<Longrightarrow> walked rs' t u \<Longrightarrow> walked (rs @ rs') s u"
  by (auto simp: walked_def)

lemma queue_row_ok:
  assumes "faults (sc_db s) = []"
  obtains t where "queue_row r s = (Inr (), t)" "flushed t = upsert_file_row r (flushed s)" "faults (sc_db t) = []"
    "sc_total_dirs t = sc_total_dirs s" "sc_dirs_done t = sc_dirs_done s" "sc_current_dir t = sc_current_dir s"
    "sc_files_scanned t = sc_files_scanned s" "sc_events t = sc_events s"
proof -
  have "faults (fold upsert_file_row (sc_pending s @ [r]) (sc_db s)) = []"
    using assms by (simp only: fold_faults [OF blind_file_ops(1)])
  then show ?thesis using assms
    by (intro that [of "snd (queue_row r s)"])
      (auto simp: queue_row_def act_simps sc_run_def upsert_files_no_faults flushed_def)
qed

lemma count_scanned_ok:
  obtains t where "count_scanned s = (Inr (), t)" "sc_db t = sc_db s" "sc_pending t = sc_pending s"
    "sc_total_dirs t = sc_total_dirs s" "sc_dirs_done t = sc_dirs_done s" "sc_current_dir t = sc_current_dir s"
    "sc_files_scanned t = sc_files_scanned s + 1" "prefix (sc_events s) (sc_events t)"
  by (rule that [of "snd (count_scanned s)"]) (auto simp: count_scanned_def act_simps sc_emit_def)

lemma queue_dir_walked:
  assumes "faults (sc_db s) = []"
  obtains t where "queue_row (dir_row d n) s = (Inr (), t)" "walked [dir_row d n] s t"
  using assms by (rule queue_row_ok [where r = "dir_row d n"]) (rule that, auto simp: walked_def)

lemma queue_file_walked:
  assumes "faults (sc_db s) = []"
  obtains t where "act_then (queue_row (regular_row d n m)) count_scanned s = (Inr (), t)" "walked [regular_row d n m] s t"
proof -
  obtain t where t: "queue_row (regular_row d n m) s = (Inr (), t)" "flushed t = upsert_file_row (regular_row d n m) (flushed s)"
    "faults (sc_db t) = []" "sc_total_dirs t = sc_total_dirs s" "sc_dirs_done t = sc_dirs_done s"
    "sc_current_dir t = sc_current_dir s" "sc_files_scanned t = sc_files_scanned s" "sc_events t = sc_events s"
    using assms by (rule queue_row_ok)
  obtain u where u: "count_scanned t = (Inr (), u)" "sc_db u = sc_db t" "sc_pending u = sc_pending t"
    "sc_total_dirs u = sc_total_dirs t" "sc_dirs_done u = sc_dirs_done t" "sc_current_dir u = sc_current_dir t"
    "sc_files_scanned u = sc_files_scanned t + 1" "prefix (sc_events t) (sc_events u)"
    by (rule count_scanned_ok)
  show ?thesis
  proof (rule that)
    show "act_then (queue_row (regular_row d n m)) count_scanned s = (Inr (), u)" by (simp add: act_simps t(1) u(1))
    show "walked [regular_row d n m] s u" using t u by (simp add: walked_def flushed_def)
  qed
qed

lemma act_then_assoc: "act_then a (act_then b c) = act_then (act_then a b) c"
  by (rule ext) (simp add: act_simps split: prod.splits sum.splits)

lemma walk_ok:
  "faults (sc_db s) = [] \<Longrightarrow> \<exists>t. walk_dir h dir l s = (Inr (files_in (tree_rows h dir l)), t) \<and> walked (tree_rows h dir l) s t"
  "faults (sc_db s) = [] \<Longrightarrow> \<exists>t. walk_entries h dir xs n s = (Inr (n + files_in (item_rows h dir xs)), t)
      \<and> walked (item_rows h dir xs) s t"
proof (induction h dir l and h dir xs n arbitrary: s and s rule: walk_dir_walk_entries.induct)
  case (5 h dir name t xs n)
  note IH = 5(1-9) and nf = 5(10)
  show ?case
  proof (cases "hidden_name name \<and> \<not> h")
    case True
    then show ?thesis using IH(1) [OF True nf] by (simp del: not_False_eq_True)
  next
    case shown: False
    show ?thesis
    proof (cases t)
      case (Directory l)
      let ?r = "dir_row dir name" and ?sub = "tree_rows h (path_join dir name) l"
      obtain u where u: "queue_row ?r s = (Inr (), u)" "walked [?r] s u" using nf by (rule queue_dir_walked)
      then have "faults (sc_db u) = []" by (simp add: walked_def)
      from IH(4) [OF shown Directory this] obtain v where
        v: "walk_dir h (path_join dir name) l u = (Inr (files_in ?sub), v)" "walked ?sub u v" by blast
      then have "faults (sc_db v) = []" by (simp add: walked_def)
      from IH(5) [OF shown Directory this, of "Inr (files_in ?sub)"] obtain x where
        x: "walk_entries h dir xs (n + files_in ?sub) v = (Inr (n + files_in ?sub + files_in (item_rows h dir xs)), x)"
        "walked (item_rows h dir xs) v x" by auto
      have "walked (?r # ?sub @ item_rows h dir xs) s x"
        using walked_trans [OF walked_trans [OF u(2) v(2)] x(2)] by simp
      with u(1) v(1) x(1) shown Directory show ?thesis by (auto simp: act_simps)
    next
      case (Regular m)
      show ?thesis
      proof (cases "m = None \<or> MAX_FILE_SIZE_BYTES < mt_len (the m)")
        case True
        have "\<exists>u. walk_entries h dir xs n s = (Inr (n + files_in (item_rows h dir xs)), u) \<and> walked (item_rows h dir xs) s u"
        proof (cases m)
          case None
          then show ?thesis by (rule IH(6) [OF shown Regular _ nf])
        next
          case (Some meta)
          with True have "MAX_FILE_SIZE_BYTES < mt_len meta" by simp
          then show ?thesis by (rule IH(7) [OF shown Regular Some _ nf])
        qed
        with True shown Regular show ?thesis by (cases m) auto
      next
        case False
        then obtain meta where m: "m = Some meta" "\<not> MAX_FILE_SIZE_BYTES < mt_len meta" by auto
        obtain u where u: "act_then (queue_row (regular_row dir name meta)) count_scanned s = (Inr (), u)"
          "walked [regular_row dir name meta] s u" using nf by (rule queue_file_walked)
        then have "faults (sc_db u) = []" by (simp add: walked_def)
        from IH(8) [OF shown Regular m(1) m(2) this] obtain x where
          x: "walk_entries h dir xs (n + 1) u = (Inr (n + 1 + files_in (item_rows h dir xs)), x)"
          "walked (item_rows h dir xs) u x" by blast
        have "walked (regular_row dir name meta # item_rows h dir xs) s x"
          using walked_trans [OF u(2) x(2)] by simp
        moreover have "act_then (act_then (queue_row (regular_row dir name meta)) count_scanned) (walk_entries h dir xs (n + 1)) s
            = (Inr (n + 1 + files_in (item_rows h dir xs)), x)"
          by (subst act_bind_run(2), subst u(1)) (simp add: x(1) del: One_nat_def)
        ultimately show ?thesis using m shown Regular by (auto simp: act_then_assoc)
      qed
    qed (use IH nf shown in auto)
  qed
qed (auto simp: act_simps walked_refl)

section \<open>A scan of one directory, and of all\<close>

lemma scan_dir_ok:
  assumes "faults (sc_db s) = []"
  obtains t where "scan_dir h dir l s = (Inr (files_in (tree_rows h dir l)), t)"
    "sc_db t = fold upsert_file_row (tree_rows h dir l) (sc_db s)" "faults (sc_db t) = []"
proof -
  let ?s = "s\<lparr>sc_pending := []\<rparr>"
  have "faults (sc_db ?s) = []" using assms by simp
  from walk_ok(1) [OF this] obtain t where t: "walk_dir h dir l ?s = (Inr (files_in (tree_rows h dir l)), t)"
    "walked (tree_rows h dir l) ?s t" by blast
  then have "faults (sc_db t) = []" "flushed t = fold upsert_file_row (tree_rows h dir l) (sc_db s)"
    by (simp_all add: walked_def flushed_def)
  with t(1) assms show ?thesis
    by (intro that [of "t\<lparr>sc_db := flushed t\<rparr>"])
      (simp_all add: scan_dir_def act_simps sc_run_def upsert_files_no_faults flushed_def fold_faults blind_file_ops)
qed

definition write_count :: "int \<Rightarrow> string \<Rightarrow> nat \<Rightarrow> db \<Rightarrow> db" where
  "write_count now p n d = d\<lparr>indexed_dirs :=
     update_first (\<lambda>r. ix_path r = p) (\<lambda>r. r\<lparr>ix_file_count := int n, ix_last_indexed := Some now\<rparr>) (indexed_dirs d)\<rparr>"

text \<open>What a directory contributes: its rows, then its count.\<close>

definition scanned :: "int \<Rightarrow> (path \<Rightarrow> file_row list) \<Rightarrow> path list \<Rightarrow> db \<Rightarrow> db" where
  "scanned now rows dirs = fold (\<lambda>p d. write_count now p (files_in (rows p)) (fold upsert_file_row (rows p) d)) dirs"

lemma scan_each_ok:
  "faults (sc_db s) = [] \<Longrightarrow> \<exists>t. scan_each now h tree dirs n s
      = (Inr (n + sum_list (map (\<lambda>p. files_in (tree_rows h p (tree p))) dirs)), t)
    \<and> sc_db t = scanned now (\<lambda>p. tree_rows h p (tree p)) dirs (sc_db s) \<and> faults (sc_db t) = []"
proof (induction dirs arbitrary: n s)
  case (Cons p dirs)
  let ?rs = "tree_rows h p (tree p)"
  obtain e where s: "sc_emit Scanning (s\<lparr>sc_current_dir := p\<rparr>) = (Inr (), e)" "sc_db e = sc_db s"
    by (simp add: sc_emit_def act_simps)
  with Cons.prems have "faults (sc_db e) = []" by simp
  then obtain t where t: "scan_dir h p (tree p) e = (Inr (files_in ?rs), t)"
    "sc_db t = fold upsert_file_row ?rs (sc_db e)" "faults (sc_db t) = []" by (rule scan_dir_ok)
  have c: "sc_run (update_indexed_dir_count now p (int (files_in ?rs))) t
      = (Inr (), t\<lparr>sc_db := write_count now p (files_in ?rs) (sc_db t)\<rparr>)"
    using t(3) by (simp add: sc_run_def update_indexed_dir_count_def execute_no_faults write_count_def)
  let ?t = "t\<lparr>sc_db := write_count now p (files_in ?rs) (sc_db t), sc_dirs_done := sc_dirs_done t + 1\<rparr>"
  have "faults (sc_db ?t) = []" using t(3) by (simp add: write_count_def)
  from Cons.IH [OF this] obtain u where u: "scan_each now h tree dirs (n + files_in ?rs) ?t
      = (Inr (n + files_in ?rs + sum_list (map (\<lambda>p. files_in (tree_rows h p (tree p))) dirs)), u)"
    "sc_db u = scanned now (\<lambda>p. tree_rows h p (tree p)) dirs (sc_db ?t)" "faults (sc_db u) = []" by blast
  have "scan_each now h tree (p # dirs) n s = (Inr (n + files_in ?rs + sum_list (map (\<lambda>p. files_in (tree_rows h p (tree p))) dirs)), u)"
    by (simp add: act_simps s(1) t(1) c u(1) del: One_nat_def)
  with u(2,3) t(2) s(2) show ?case by (auto simp: scanned_def add.assoc)
qed (simp add: act_simps scanned_def)

lemma at_write_count [simp]: "file_store.at (write_count now p n d) q = file_store.at d q"
  by (simp add: file_store.at_def write_count_def)

lemma at_scanned:
  "map_option snd (file_store.at (scanned now rows dirs d) q)
     = (case List.find (\<lambda>r. fr_path r = q) (rev (concat (map rows dirs))) of Some r \<Rightarrow> Some r
        | None \<Rightarrow> map_option snd (file_store.at d q))"
  by (induction dirs arbitrary: d) (simp_all add: scanned_def at_upserts find_append split: option.split)

lemma indexed_dirs_upsert [simp]: "indexed_dirs (fold upsert_file_row rs d) = indexed_dirs d"
  by (induction rs arbitrary: d) (simp_all add: upsert_file_row_def split: option.split)

definition counted :: "int \<Rightarrow> (path \<Rightarrow> file_row list) \<Rightarrow> indexed_dir_row \<Rightarrow> indexed_dir_row" where
  "counted now rows r = r\<lparr>ix_file_count := int (files_in (rows (ix_path r))), ix_last_indexed := Some now\<rparr>"

lemma update_first_distinct:
  "distinct (map key xs) \<Longrightarrow> update_first (\<lambda>x. key x = k) f xs = map (\<lambda>x. if key x = k then f x else x) xs"
proof (induction xs)
  case (Cons x xs)
  have "map (\<lambda>x. if key x = k then f x else x) xs = xs" if "key x = k"
  proof (rule map_idI)
    fix y assume "y \<in> set xs"
    then have "key y \<in> key ` set xs" by (rule imageI)
    with Cons.prems that show "(if key y = k then f y else y) = y" by auto
  qed
  with Cons show ?case by auto
qed simp

lemma indexed_dirs_scanned:
  assumes "distinct (map ix_path (indexed_dirs d))" "distinct dirs"
  shows "indexed_dirs (scanned now rows dirs d)
    = map (\<lambda>r. if ix_path r \<in> set dirs then counted now rows r else r) (indexed_dirs d)"
  using assms
proof (induction dirs arbitrary: d)
  case (Cons p dirs)
  let ?d = "write_count now p (files_in (rows p)) (fold upsert_file_row (rows p) d)"
  have d: "indexed_dirs ?d = map (\<lambda>r. if ix_path r = p then counted now rows r else r) (indexed_dirs d)"
    using Cons.prems(1) by (simp add: write_count_def update_first_distinct) (auto simp: counted_def)
  have "map ix_path (indexed_dirs ?d) = map ix_path (indexed_dirs d)" unfolding d by (simp add: counted_def)
  with Cons have "indexed_dirs (scanned now rows dirs ?d)
      = map (\<lambda>r. if ix_path r \<in> set dirs then counted now rows r else r) (indexed_dirs ?d)" by simp
  also have "\<dots> = map (\<lambda>r. if ix_path r \<in> set (p # dirs) then counted now rows r else r) (indexed_dirs d)"
    unfolding d map_map using Cons.prems(2) by (intro map_cong refl) (auto simp: counted_def)
  finally show ?case by (simp add: scanned_def)
qed (simp add: scanned_def)

section \<open>A full scan\<close>

text \<open>The directories in the order the database lists them.\<close>

definition scan_roots :: "db \<Rightarrow> path list" where
  "scan_roots d = map ix_path (order_by ix_path (indexed_dirs d))"

lemma set_scan_roots: "set (scan_roots d) = ix_path ` set (indexed_dirs d)"
  by (simp add: scan_roots_def order_by_def)

lemma distinct_scan_roots: "distinct (map ix_path (indexed_dirs d)) \<Longrightarrow> distinct (scan_roots d)"
proof -
  assume "distinct (map ix_path (indexed_dirs d))"
  moreover have "mset (scan_roots d) = mset (map ix_path (indexed_dirs d))"
    by (simp add: scan_roots_def order_by_def)
  ultimately show ?thesis by (metis mset_eq_imp_distinct_iff)
qed

lemma full_scan_run:
  fixes w :: "'c app_world" and h
  assumes "faults (w_db w) = []"
  obtains u where "run_full_scan et h w = (Inr (sum_list (map (\<lambda>p. files_in (tree_rows h p (aw_tree w p))) (scan_roots (w_db w)))), u)"
    "faults (w_db u) = []" "sv_fs u = sv_fs w" "sw_index u = sw_index w" "aw_indexing u"
    "w_db u = scanned (aw_clock w) (\<lambda>p. tree_rows h p (aw_tree w p)) (scan_roots (w_db w)) (w_db w)"
proof -
  let ?w = "w\<lparr>aw_indexing := True\<rparr>" and ?rows = "\<lambda>p. tree_rows h p (aw_tree w p)" and ?roots = "scan_roots (w_db w)"
  define s where "s = \<lparr> sc_db = w_db w, sc_pending = [], sc_total_dirs = 0, sc_files_scanned = 0, sc_dirs_done = 0,
    sc_current_dir = [], sc_events = aw_events w \<rparr>"
  define v where "v = snd (sc_emit Starting (s\<lparr>sc_total_dirs := length (order_by ix_path (indexed_dirs (w_db w))),
    sc_files_scanned := 0, sc_dirs_done := 0, sc_current_dir := []\<rparr>))"
  have v: "sc_db v = w_db w" by (simp add: v_def sc_emit_def act_simps s_def)
  with assms have "faults (sc_db v) = []" by simp
  from scan_each_ok [OF this, of "aw_clock w" h "aw_tree w" ?roots 0] obtain t where
    t: "scan_each (aw_clock w) h (aw_tree w) ?roots 0 v = (Inr (sum_list (map (\<lambda>p. files_in (?rows p)) ?roots)), t)"
    "sc_db t = scanned (aw_clock w) ?rows ?roots (w_db w)" "faults (sc_db t) = []" by (auto simp: v)
  let ?u = "t\<lparr>sc_events := sc_events t @ [snapshot BuildingIndex t]\<rparr>"
  have "sc_run get_indexed_dirs s = (Inr (order_by ix_path (indexed_dirs (w_db w))), s)"
    using assms by (simp add: sc_run_def get_indexed_dirs_def query_no_faults s_def)
  with t(1) have "scan_all (aw_clock w) h (aw_tree w) s = (Inr (sum_list (map (\<lambda>p. files_in (?rows p)) ?roots)), ?u)"
    by (simp add: scan_all_def act_simps sc_emit_def v_def scan_roots_def)
  then have "run_full_scan et h w = (Inr (sum_list (map (\<lambda>p. files_in (?rows p)) ?roots)),
      ?w\<lparr>w_db := sc_db t, aw_events := sc_events ?u\<rparr>)"
    by (simp add: run_full_scan_def set_indexing_def act_simps on_scanner_def s_def)
  then show ?thesis by (rule that) (use t(2,3) in simp_all)
qed

text \<open>
  C21.  A full scan is exact: unless a statement fails, whatever the sizes of the directories and
  however the rows fall into batches, it reports the number of files in the trees; each path then has
  the row of the last entry for it in the trees, every other path its old row; each directory gets
  its own file count and the time of the scan; and the indexing flag stays raised for the caller.
\<close>

theorem full_scan_exact:
  fixes w :: "'c app_world" and h
  assumes "faults (w_db w) = []" "distinct (map ix_path (indexed_dirs (w_db w)))"
  defines "rows \<equiv> \<lambda>p. tree_rows h p (aw_tree w p)" and "roots \<equiv> scan_roots (w_db w)"
  shows "\<exists>w'. run_full_scan et h w = (Inr (sum_list (map (\<lambda>p. files_in (rows p)) roots)), w')
    \<and> map_option snd (file_store.at (w_db w') p) = (case List.find (\<lambda>r. fr_path r = p) (rev (concat (map rows roots))) of
        Some r \<Rightarrow> Some r | None \<Rightarrow> map_option snd (file_store.at (w_db w) p))
    \<and> indexed_dirs (w_db w') = map (counted (aw_clock w) rows) (indexed_dirs (w_db w))
    \<and> aw_indexing w' \<and> faults (w_db w') = []"
proof -
  obtain u where u: "run_full_scan et h w = (Inr (sum_list (map (\<lambda>p. files_in (tree_rows h p (aw_tree w p))) (scan_roots (w_db w)))), u)"
    "faults (w_db u) = []" "sv_fs u = sv_fs w" "sw_index u = sw_index w" "aw_indexing u"
    "w_db u = scanned (aw_clock w) (\<lambda>p. tree_rows h p (aw_tree w p)) (scan_roots (w_db w)) (w_db w)"
    using assms(1) by (rule full_scan_run)
  have "indexed_dirs (w_db u) = map (counted (aw_clock w) rows) (indexed_dirs (w_db w))"
    unfolding u(6) using assms(2) distinct_scan_roots [OF assms(2)]
    by (simp add: indexed_dirs_scanned set_scan_roots rows_def)
  with u show ?thesis
    using at_scanned [of "aw_clock w" rows roots "w_db w" p] by (auto simp: rows_def roots_def)
qed

section \<open>On a concrete machine\<close>

text \<open>A shared home directory with a document, a hidden folder, an unreadable folder, a link and a
  file over the size limit.\<close>

definition toy_tree :: listing where
  "toy_tree = Listing [Entry ''notes.txt'' (Regular (Some \<lparr> mt_len = 5, mt_modified = Some 7 \<rparr>)), EntryError,
     Entry ''.cache'' (Directory (Listing [Entry ''x'' (Regular (Some \<lparr> mt_len = 1, mt_modified = None \<rparr>))])),
     Entry ''secret'' (Directory Unreadable), Entry ''link'' Symlink,
     Entry ''disk.img'' (Regular (Some \<lparr> mt_len = 10485761, mt_modified = None \<rparr>))]"

definition toy_machine :: "'c \<Rightarrow> 'c app_world" where
  "toy_machine cache = \<lparr> w_conn = idle [], w_db = db_empty\<lparr>indexed_dirs := [\<lparr> ix_path = ''/h'', ix_file_count = 0, ix_last_indexed = None \<rparr>]\<rparr>,
     w_seed = 0, sw_trie = trie_new, sw_bloom = \<lparr> bit_words = [0], hashes = 1, size_bits = 64, bloom_capacity = 1 \<rparr>,
     sw_cache = cache, sw_index = \<lparr> ix_writer = [], ix_committed = [], ix_docs = [], ix_faults = [] \<rparr>,
     sv_fs = \<lparr> fs_nodes = (\<lambda>p. if p = ''/h/notes.txt'' then Some (FileNode [1, 2, 3, 4, 5])
       else if p = ''/h'' \<or> p = ''/h/secret'' then Some (DirNode 0) else None), fs_canon = Some, fs_faults = [] \<rparr>, sv_spawned = [], sv_spawn_faults = [],
     sv_dials = [], sv_dialed = [], aw_indexing = False, aw_ready = False, aw_events = [], aw_notices = [],
     aw_tree = (\<lambda>p. if p = ''/h'' then toy_tree else Unreadable), aw_clock = 100 \<rparr>"

definition toy_app_text :: app_text where
  "toy_app_text = \<lparr> et_db = (\<lambda>_. ''database''), et_trust = (\<lambda>_. ''trust''), et_search = (\<lambda>_. ''search''),
     et_session = (\<lambda>_. ''session''), et_json = ''json'', et_io = ''io'', et_scan = (\<lambda>_. ''scan''), et_index = (\<lambda>_. ''index'') \<rparr>"

lemma toy_tree_rows:
  "tree_rows False ''/h'' toy_tree = [regular_row ''/h'' ''notes.txt'' \<lparr> mt_len = 5, mt_modified = Some 7 \<rparr>, dir_row ''/h'' ''secret'']"
  by (simp add: toy_tree_def hidden_name_def starts_with_def MAX_FILE_SIZE_BYTES_def)

lemma full_scan_exact_witness:
  "\<exists>w'. run_full_scan toy_app_text False (toy_machine ()) = (Inr 1, w')
    \<and> map_option snd (file_store.at (w_db w') ''/h/notes.txt'') = Some (regular_row ''/h'' ''notes.txt'' \<lparr> mt_len = 5, mt_modified = Some 7 \<rparr>)
    \<and> file_store.at (w_db w') ''/h/disk.img'' = None
    \<and> indexed_dirs (w_db w') = [\<lparr> ix_path = ''/h'', ix_file_count = 1, ix_last_indexed = Some 100 \<rparr>]"
proof -
  let ?rows = "\<lambda>p. tree_rows False p (aw_tree (toy_machine ()) p)"
  have pre: "faults (w_db (toy_machine ())) = []" "distinct (map ix_path (indexed_dirs (w_db (toy_machine ()))))"
    by (simp_all add: toy_machine_def db_empty_def)
  have roots: "scan_roots (w_db (toy_machine ())) = [''/h'']" by (simp add: toy_machine_def scan_roots_def order_by_def)
  have rows: "?rows ''/h'' = [regular_row ''/h'' ''notes.txt'' \<lparr> mt_len = 5, mt_modified = Some 7 \<rparr>, dir_row ''/h'' ''secret'']"
    using toy_tree_rows by (simp add: toy_machine_def)
  have paths: "fr_path (regular_row ''/h'' ''notes.txt'' m) = ''/h/notes.txt''" "fr_path (dir_row ''/h'' ''secret'') = ''/h/secret''" for m
    by (simp_all add: regular_row_def dir_row_def path_join_def is_absolute_def)
  have none: "file_store.at (w_db (toy_machine ())) p = None" for p
    by (simp add: file_store.at_def toy_machine_def db_empty_def)
  have dirs: "map (counted (aw_clock (toy_machine ())) ?rows) (indexed_dirs (w_db (toy_machine ())))
      = [\<lparr> ix_path = ''/h'', ix_file_count = 1, ix_last_indexed = Some 100 \<rparr>]"
  proof -
    have "indexed_dirs (w_db (toy_machine ())) = [\<lparr> ix_path = ''/h'', ix_file_count = 0, ix_last_indexed = None \<rparr>]"
      "aw_clock (toy_machine ()) = 100" by (simp_all add: toy_machine_def)
    with rows show ?thesis by (simp add: counted_def)
  qed
  note ex = full_scan_exact [OF pre, of toy_app_text False, unfolded roots dirs none, simplified rows]
  show ?thesis
    using ex [of "''/h/notes.txt''"] ex [of "''/h/disk.img''"] by (auto simp: rows paths)
qed

end
