(* ===== verification/Index_Refresh.thy ===== *)
theory Index_Refresh
  imports Index_Scan Search_Ranking
begin

text \<open>
  What the operations around a scan guarantee: pruning, the agreement of tables and indexes after a
  refresh, the end of every refresh, and that an unfinished first scan is repeated.
\<close>

section \<open>Pruning\<close>

definition on_disk :: "'c app_world \<Rightarrow> path \<Rightarrow> bool" where
  "on_disk w p \<longleftrightarrow> fs_nodes (sv_fs w) p \<noteq> None"

lemma metadata_no_faults:
  "fs_faults (sv_fs w) = [] \<Longrightarrow> a_fs (file_metadata p) w = (case fs_nodes (sv_fs w) p of None \<Rightarrow> Inl () | Some n \<Rightarrow> Inr n, w)"
proof -
  assume f: "fs_faults (sv_fs w) = []"
  then have "(sv_fs w)\<lparr>fs_faults := tl (fs_faults (sv_fs w))\<rparr> = sv_fs w" by simp
  with f have "file_metadata p (sv_fs w) = (case fs_nodes (sv_fs w) p of None \<Rightarrow> Inl () | Some n \<Rightarrow> Inr n, sv_fs w)"
    unfolding file_metadata_def fs_call_def Let_def by (simp split: option.split)
  then show ?thesis by (simp add: a_fs_def)
qed

lemma missing_of_ok:
  "fs_faults (sv_fs w) = [] \<Longrightarrow>
     (missing_of ps :: ('c app_world, 'e, path list) act) w = (Inr (filter (\<lambda>p. \<not> on_disk w p) ps), w)"
  by (induction ps) (simp_all add: act_simps metadata_no_faults on_disk_def split: option.split)

lemma at_deletes: "file_store.at (fold delete_file_row ps d) q = (if q \<in> set ps then None else file_store.at d q)"
  by (rule file_store.at_dels)

lemma delete_batch:
  assumes "delete_files_by_path ps d = (r, d')"
  shows "(case r of Inl _ \<Rightarrow> file_store.at d' q = file_store.at d q
    | Inr _ \<Rightarrow> file_store.at d' q = (if q \<in> set ps then None else file_store.at d q))"
proof (cases "ps = []")
  case False
  with assms have "db_transaction (act_then (sql_execute id) (act_then (exec_each delete_file_row ps) (sql_execute id))) d = (r, d')"
    by (simp add: delete_files_by_path_def)
  from batch_cases [OF blind_file_ops(2) this] show ?thesis by (auto simp: at_deletes split: sum.splits)
qed (use assms in \<open>auto simp: delete_files_by_path_def act_simps\<close>)

lemma delete_chunks_at:
  "delete_chunks cs w = (r, w') \<Longrightarrow> sv_fs w' = sv_fs w
     \<and> (q \<notin> set (concat cs) \<longrightarrow> file_store.at (w_db w') q = file_store.at (w_db w) q)
     \<and> (file_store.at (w_db w') q \<in> {None, file_store.at (w_db w) q})
     \<and> (is_ok r \<longrightarrow> q \<in> set (concat cs) \<longrightarrow> file_store.at (w_db w') q = None)"
proof (induction cs arbitrary: w)
  case (Cons c cs)
  obtain x d where b: "delete_files_by_path c (w_db w) = (x, d)" by fastforce
  note D = delete_batch [OF b, of q]
  show ?case
  proof (cases x)
    case (Inl e)
    with Cons.prems b D show ?thesis by (auto simp: act_simps a_db_def)
  next
    case (Inr u)
    with Cons.prems b have "delete_chunks cs (w\<lparr>w_db := d\<rparr>) = (r, w')" by (simp add: act_simps a_db_def)
    from Cons.IH [OF this] D Inr show ?thesis by (auto split: if_splits)
  qed
qed (auto simp: act_simps)


section \<open>Every refresh ends\<close>

definition final_phase :: "index_phase \<Rightarrow> bool" where
  "final_phase ph \<longleftrightarrow> (case ph of Complete _ \<Rightarrow> True | Failed _ \<Rightarrow> True | _ \<Rightarrow> False)"

text \<open>\<open>quiet\<close>: nothing was signalled; \<open>settled\<close>: the flag is down and the last event is a final one.\<close>

definition quiet :: "'c app_world \<Rightarrow> 'c app_world \<Rightarrow> bool" where
  "quiet w0 w \<longleftrightarrow> aw_indexing w = aw_indexing w0 \<and> aw_events w = aw_events w0"

definition settled :: "'c app_world \<Rightarrow> bool" where
  "settled w \<longleftrightarrow> \<not> aw_indexing w \<and> aw_events w \<noteq> [] \<and> final_phase (ip_phase (last (aw_events w)))"

lemma quiet_refl: "quiet w w"
  by (simp add: quiet_def)

lemma refresh_quiet_primitives [keeps_intros]:
  "keeps (quiet w0) (a_db g m)" "keeps (quiet w0) (a_fs k)" "keeps (quiet w0) set_ready" "keeps (quiet w0) rebuild_from_db"
  "keeps (quiet w0) (engine_rebuild l)" "keeps (quiet w0) record_full_index"
  by (auto simp: keeps_def quiet_def a_db_def a_fs_def set_ready_def rebuild_from_db_def engine_rebuild_def s_db_def
      invalidate_cache_def record_full_index_def act_simps split: prod.splits sum.splits)

lemma quiet_steps [keeps_intros]:
  "keeps (quiet w0) (include_hidden_setting et)" "keeps (quiet w0) (is_dir p)"
  "keeps (quiet w0) no_indexed_dirs"
  unfolding include_hidden_setting_def is_dir_def no_indexed_dirs_def
  by (intro keeps_intros keeps_mod; simp add: quiet_def)+

lemma keeps_or [keeps_intros]: "keeps P m \<Longrightarrow> keeps P (a_or d m)"
  unfolding a_or_def by (intro keeps_intros)

text \<open>An action that settles whenever it fails, and one that settles however it ends.\<close>

definition settles_error :: "('c app_world, 'e, 'a) act \<Rightarrow> bool" where
  "settles_error m \<longleftrightarrow> (\<forall>w e w'. m w = (Inl e, w') \<longrightarrow> settled w')"

definition settles :: "('c app_world, 'e, 'a) act \<Rightarrow> bool" where
  "settles m \<longleftrightarrow> (\<forall>w. settled (snd (m w)))"

named_theorems settle_intros

lemma settles_bind [settle_intros]: "settles_error m \<Longrightarrow> (\<And>a. settles (f a)) \<Longrightarrow> settles (act_bind m f)"
  by (fastforce simp: settles_error_def settles_def act_simps split: prod.splits sum.splits)

lemma settles_then [settle_intros]: "settles_error m \<Longrightarrow> settles n \<Longrightarrow> settles (act_then m n)"
  unfolding act_then_def by (rule settles_bind)

lemma settles_error_bind: "settles_error m \<Longrightarrow> (\<And>a. settles_error (f a)) \<Longrightarrow> settles_error (act_bind m f)"
  unfolding settles_error_def act_bind_def by (auto split: prod.splits sum.splits)

lemma settles_error_then: "settles_error m \<Longrightarrow> settles_error n \<Longrightarrow> settles_error (act_then m n)"
  unfolding act_then_def by (rule settles_error_bind)

lemma settles_ends [settle_intros]:
  "settles (finish_ok n)" "settles (finish_err e)"
  by (simp_all add: settles_def settled_def finish_ok_def finish_err_def emit_bare_def a_emit_def set_indexing_def act_simps
      final_phase_def bare_progress_def)

lemma settles_ret [settle_intros]: "settles m \<Longrightarrow> settles (act_then m (act_ret a))"
  by (auto simp: settles_def act_simps split: prod.splits sum.splits)  (metis snd_conv)+

lemma settles_err_ret: "settles m \<Longrightarrow> settles_error (act_then m (act_err e))"
  by (auto simp: settles_def settles_error_def act_simps split: prod.splits sum.splits) (metis snd_conv)+

lemma settles_error_never [settle_intros]:
  "settles_error (act_ret a)" "settles_error set_ready" "settles_error record_full_index" "settles_error (act_ignore m)"
  by (simp_all add: settles_error_def act_simps set_ready_def record_full_index_def)

lemma settles_error_map [settle_intros]: "settles_error m \<Longrightarrow> settles_error (act_map_err g m)"
  by (auto simp: settles_error_def act_simps map_err_eq_Inl split: prod.splits)

lemma settles_scan [settle_intros]: "settles_error (run_full_scan et h)" "settles_error (scan_cmd et h)"
proof -
  show s: "settles_error (run_full_scan et h)"
    by (auto simp: settles_error_def settled_def run_full_scan_def emit_bare_def a_emit_def set_indexing_def act_simps
        final_phase_def bare_progress_def split: prod.splits sum.splits)
  show "settles_error (scan_cmd et h)" unfolding scan_cmd_def using s by (rule settles_error_map)
qed

lemma settles_or_finish [settle_intros]: "settles_error (or_finish_err m)"
  by (auto simp: settles_error_def settled_def or_finish_err_def finish_err_def emit_bare_def a_emit_def set_indexing_def act_simps
      final_phase_def bare_progress_def split: prod.splits sum.splits)

lemma settles_startup [settle_intros]:
  "settles_error (startup_scan et h)" "settles_error (startup_text_index et True)" "settles_error (startup_engine l et True)"
proof -
  show "settles_error (startup_scan et h)"
    unfolding startup_scan_def by (intro settles_error_bind settles_error_then settle_intros)
  have never: "settles_error (a_or d m)" "settles_error (act_get g)" "settles_error (act_try m)"
    for d :: 'x and m :: "('y app_world, 'e, 'x) act" and g :: "'y app_world \<Rightarrow> 'z"
    by (auto simp: settles_error_def a_or_def act_simps split: prod.splits)
  show "settles_error (startup_text_index et True)"
    unfolding startup_text_index_def
    by (auto intro!: settles_error_bind never settle_intros settles_err_ret split: sum.split)
  show "settles_error (startup_engine l et True)"
    unfolding startup_engine_def
    by (auto intro!: settles_error_bind never settle_intros settles_err_ret split: sum.split)
qed

lemma quiet_or_settled_bind:
  assumes "keeps (quiet w0) m" "quiet w0 w" "\<And>a v. quiet w0 v \<Longrightarrow> quiet w0 (snd (f a v)) \<or> settled (snd (f a v))"
  shows "quiet w0 (snd (act_bind m f w)) \<or> settled (snd (act_bind m f w))"
proof -
  obtain r v where m: "m w = (r, v)" by fastforce
  with keepsD [OF assms(1,2)] have "quiet w0 v" by simp
  with m assms(3) show ?thesis by (cases r) (simp_all add: act_bind_run)
qed

lemma settlesD: "settles m \<Longrightarrow> settled (snd (m w))"
  by (simp add: settles_def)


section \<open>Tables and indexes agree after a refresh\<close>

text \<open>The rows in index order; the full-text index, the trie, the filter and the cache all serve them.\<close>

definition index_rows :: "db \<Rightarrow> file_row list" where
  "index_rows d = order_by fr_name (map snd (files d))"

definition indexes_agree :: "'c search_lib \<Rightarrow> 'c app_world \<Rightarrow> bool" where
  "indexes_agree l w \<longleftrightarrow> ix_docs (sw_index w) = map make_doc (index_rows (w_db w)) \<and> engine_serves l (index_rows (w_db w)) w"

lemma rebuild_from_db_Inr:
  assumes "rebuild_from_db w = (Inr n, w')"
  shows "ix_docs (sw_index w') = map make_doc (index_rows (w_db w)) \<and> files (w_db w') = files (w_db w)"
proof -
  obtain q d where g: "get_all_files_for_index (w_db w) = (q, d)" by fastforce
  then have d: "d = (w_db w)\<lparr>faults := tl (faults (w_db w))\<rparr>" and q: "q = Inr (index_rows (w_db w)) \<or> (\<exists>e. q = Inl e)"
    by (auto simp: get_all_files_for_index_def sql_query_def db_exec_def act_get_def Let_def index_rows_def split: if_splits)
  from q assms g have q': "q = Inr (index_rows (w_db w))" by (auto simp: rebuild_from_db_def act_simps)
  obtain r s where b: "rebuild_docs (index_rows (w_db w)) (sw_index (w\<lparr>w_db := d\<rparr>)) = (r, s)" by fastforce
  with assms g q' have "r = Inr n" "w' = w\<lparr>w_db := d, sw_index := s\<rparr>"
    by (auto simp: rebuild_from_db_def act_simps)
  with b d show ?thesis using rebuild_docs_Inr [of "index_rows (w_db w)" "sw_index (w\<lparr>w_db := d\<rparr>)" n s] by simp
qed

lemma rebuilds_agree:
  assumes "lru_ok (sl_lru l)" "rebuild_from_db w = (Inr n, u)" "engine_rebuild l u = (Inr (), v)"
  shows "indexes_agree l v"
proof -
  from rebuild_from_db_Inr [OF assms(2)] engine_rebuild_serves [OF assms(1,3)]
  show ?thesis by (simp add: indexes_agree_def index_rows_def)
qed

lemma rebuild_both_agree:
  assumes "lru_ok (sl_lru l)" "rebuild_both l et w = (Inr u, v)"
  shows "indexes_agree l v"
proof -
  obtain n x where x: "(act_map_err (et_index et) rebuild_from_db :: ('a, nat) app_act) w = (Inr n, x)"
    "(act_map_err (et_search et) (engine_rebuild l) :: ('a, unit) app_act) x = (Inr u, v)"
    using assms(2) unfolding rebuild_both_def by (elim act_then_Inr) (rule that)
  from x have "rebuild_from_db w = (Inr n, x)" "engine_rebuild l x = (Inr (), v)"
    by (auto simp: act_simps split: prod.splits)
  with assms(1) show ?thesis by (rule rebuilds_agree)
qed

text \<open>Raising the ready flag, recording the scan and announcing its end change neither.\<close>

lemma set_setting_files: "files (snd (set_setting k v d)) = files d"
  by (simp add: set_setting_def sql_execute_def db_exec_def act_mod_def Let_def)

definition recorded :: "'c app_world \<Rightarrow> 'c app_world" where
  "recorded w = w\<lparr>w_db := snd (set_setting ''last_full_index'' (show_int (aw_clock w)) (w_db w))\<rparr>"

definition ended :: "nat \<Rightarrow> 'c app_world \<Rightarrow> 'c app_world" where
  "ended n w = w\<lparr>aw_ready := True, aw_events := aw_events w @ [bare_progress (Complete n) n], aw_indexing := False\<rparr>"

lemma recorded_agree: "indexes_agree l w \<Longrightarrow> indexes_agree l (recorded w)"
  by (simp add: indexes_agree_def engine_serves_def index_rows_def recorded_def set_setting_files)

text \<open>The state in which a refresh that reports success leaves the machine.\<close>

definition refreshed :: "'c search_lib \<Rightarrow> 'c app_world \<Rightarrow> bool" where
  "refreshed l w \<longleftrightarrow> indexes_agree l w \<and> aw_ready w \<and> settled w"

lemma ended_refreshed: "indexes_agree l w \<Longrightarrow> refreshed l (ended n w)"
  by (simp add: refreshed_def indexes_agree_def engine_serves_def ended_def settled_def final_phase_def bare_progress_def)

lemma or_finish_Inr: "or_finish_err m w = (Inr a, w') \<Longrightarrow> m w = (Inr a, w')"
  by (auto simp: or_finish_err_def finish_err_def emit_bare_def a_emit_def set_indexing_def act_simps split: prod.splits sum.splits)

lemma after_rebuild [act_simps]:
  "act_then set_ready (act_then record_full_index (act_then (finish_ok n) (act_ret n))) w = (Inr n, ended n (recorded w))"
  "act_then set_ready (finish_ok n) w = (Inr (), ended n w)"
  "act_then set_ready (act_then record_full_index (finish_ok n)) w = (Inr (), ended n (recorded w))"
  by (simp_all add: act_simps set_ready_def record_full_index_def finish_ok_def a_emit_def set_indexing_def a_db_def
      ended_def recorded_def split: prod.splits)

text \<open>
  C19.  A refresh that reports success leaves everything in agreement, under every schedule of
  failures: after the reindex command or the command that adds a directory, the full-text index holds
  exactly one document per row of the files table, the trie, the filter and the cache serve exactly
  these rows, the index is marked ready, and the indexing flag is down.
\<close>

theorem refresh_consistent:
  assumes "lru_ok (sl_lru l)" "trigger_reindex l et w = (Inr n, w') \<or> add_indexed_dir_cmd l et p w = (Inr (), w')"
  shows "ix_docs (sw_index w') = map make_doc (index_rows (w_db w')) \<and> engine_serves l (index_rows (w_db w')) w'
    \<and> aw_ready w' \<and> \<not> aw_indexing w'"
proof -
  have "refreshed l w'"
    using assms(2)
  proof
    assume run: "trigger_reindex l et w = (Inr n, w')"
    obtain h w1 m w2 u w3 where s: "or_finish_err (act_then (act_map_err (et_scan et) prune_deleted) (rebuild_both l et)) w2 = (Inr u, w3)"
      "(act_then set_ready (act_then record_full_index (act_then (finish_ok m) (act_ret m))) :: ('a, nat) app_act) w3 = (Inr n, w')"
      using run unfolding trigger_reindex_def by (elim act_bind_Inr act_then_Inr [of "or_finish_err _"]) (rule that)
    from or_finish_Inr [OF s(1)] obtain v w4 where "(rebuild_both l et :: ('a, unit) app_act) w4 = (Inr v, w3)"
      by (elim act_then_Inr) (rule that)
    with assms(1) have "indexes_agree l w3" by (rule rebuild_both_agree)
    with s(2) show ?thesis unfolding after_rebuild by (auto intro: ended_refreshed recorded_agree)
  next
    assume run: "add_indexed_dir_cmd l et p w = (Inr (), w')"
    then obtain m w2 u w3 where s: "or_finish_err (rebuild_both l et) w2 = (Inr u, w3)"
      "(act_then set_ready (finish_ok m) :: ('a, unit) app_act) w3 = (Inr (), w')"
      unfolding add_indexed_dir_cmd_def
      by (auto elim!: act_bind_Inr act_then_Inr [of "or_finish_err _"] act_then_Inr [of "a_db _ _"] split: if_splits simp: act_err_def)
    from rebuild_both_agree [OF assms(1) or_finish_Inr [OF s(1)]] s(2) show ?thesis
      unfolding after_rebuild by (auto intro: ended_refreshed)
  qed
  then show ?thesis by (simp add: refreshed_def indexes_agree_def settled_def)
qed

section \<open>An unfinished scan is repeated\<close>

text \<open>No step of a refresh but the last touches the settings.\<close>

definition same_settings :: "db \<Rightarrow> 'c app_world \<Rightarrow> bool" where
  "same_settings d w \<longleftrightarrow> settings (w_db w) = settings d"

lemma query_settings: "settings (snd (sql_query g d)) = settings d"
  by (simp add: query_state)

lemma execute_settings: "(\<And>d. settings (g d) = settings d) \<Longrightarrow> settings (snd (sql_execute g d)) = settings d"
  by (simp add: sql_execute_def db_exec_def act_mod_def Let_def)

lemma fold_settings:
  assumes "\<And>r d. settings (f r d) = settings d"
  shows "settings (fold f rs d) = settings d"
  by (induction rs arbitrary: d) (simp_all add: assms)

lemma file_op_settings: "settings (upsert_file_row r d) = settings d" "settings (delete_file_row p d) = settings d"
  by (simp_all add: upsert_file_row_def delete_file_row_def split: option.split)

lemma batch_op_settings:
  assumes "\<And>r. blind (f r)" "\<And>r d. settings (f r d) = settings d"
  shows "settings (snd (db_transaction (act_then (sql_execute id) (act_then (exec_each f rs) (sql_execute id))) d)) = settings d"
proof -
  obtain r t where run: "db_transaction (act_then (sql_execute id) (act_then (exec_each f rs) (sql_execute id))) d = (r, t)" by fastforce
  from batch_cases [OF assms(1) run] run show ?thesis by (auto simp: fold_settings assms(2) split: sum.splits)
qed

lemma batch_settings:
  "settings (snd (upsert_files rs d)) = settings d" "settings (snd (delete_files_by_path ps d)) = settings d"
  by (simp_all add: upsert_files_def delete_files_by_path_def act_simps batch_op_settings blind_file_ops file_op_settings)

lemma sc_run_settings:
  "(\<And>d. settings (snd (m d)) = settings d) \<Longrightarrow> keeps (\<lambda>s. settings (sc_db s) = S) (sc_run m)"
  by (auto simp: keeps_def sc_run_def split: prod.splits) (metis snd_conv)

lemma sc_mod_settings:
  "(\<And>s. sc_db (g s) = sc_db s) \<Longrightarrow> keeps (\<lambda>s. settings (sc_db s) = S) (act_mod g)"
  by (rule keeps_mod) simp

lemma queue_settings [keeps_intros]: "keeps (\<lambda>s. settings (sc_db s) = S) (queue_row r)"
  unfolding queue_row_def by (intro keeps_intros sc_run_settings sc_mod_settings batch_settings) simp_all

lemma count_settings [keeps_intros]: "keeps (\<lambda>s. settings (sc_db s) = S) count_scanned"
  unfolding count_scanned_def sc_emit_def by (intro keeps_intros sc_mod_settings) simp_all

lemma walk_settings:
  "keeps (\<lambda>s. settings (sc_db s) = S) (walk_dir h dir l)" "keeps (\<lambda>s. settings (sc_db s) = S) (walk_entries h dir xs n)"
proof (induction h dir l and h dir xs n rule: walk_dir_walk_entries.induct)
  case (5 h dir name t xs n)
  then show ?case
    by (cases t) (auto intro!: keeps_intros split: option.split)
qed (auto intro!: keeps_intros)

lemma scan_settings [keeps_intros]: "keeps (\<lambda>s. settings (sc_db s) = S) (scan_all now h tree)"
proof -
  have dir: "keeps (\<lambda>s. settings (sc_db s) = S) (scan_dir h p l)" for p l
    unfolding scan_dir_def by (intro keeps_intros walk_settings sc_run_settings sc_mod_settings batch_settings) simp_all
  have "keeps (\<lambda>s. settings (sc_db s) = S) (scan_each now h tree ps n)" for ps n
    by (induction ps arbitrary: n)
      (auto intro!: keeps_intros dir sc_run_settings sc_mod_settings execute_settings simp: sc_emit_def update_indexed_dir_count_def)
  then show ?thesis
    unfolding scan_all_def sc_emit_def get_indexed_dirs_def
    by (intro keeps_intros sc_run_settings sc_mod_settings query_settings) simp_all
qed

lemma a_db_settings:
  "(\<And>d. settings (snd (m d)) = settings d) \<Longrightarrow> keeps (same_settings d0) (a_db g m)"
  by (auto simp: keeps_def same_settings_def a_db_def split: prod.splits) (metis snd_conv)

lemma reads_settings [keeps_intros]:
  "keeps (same_settings d0) (a_db g (get_setting k))" "keeps (same_settings d0) (a_db g get_indexed_dirs)"
  "keeps (same_settings d0) (a_db g count_files)" "keeps (same_settings d0) (a_db g get_all_file_paths)"
  "keeps (same_settings d0) (a_db g (delete_files_by_path ps))"
  by (rule a_db_settings; simp add: get_setting_def get_indexed_dirs_def count_files_def get_all_file_paths_def
      query_settings batch_settings)+

lemma flags_settings [keeps_intros]:
  "keeps (same_settings d0) (set_indexing b)" "keeps (same_settings d0) (emit_bare ph)" "keeps (same_settings d0) (finish_err e)"
  "keeps (same_settings d0) set_ready" "keeps (same_settings d0) no_indexed_dirs" "keeps (same_settings d0) (a_fs m)"
  by (auto simp: keeps_def same_settings_def set_indexing_def emit_bare_def a_emit_def finish_err_def set_ready_def
      no_indexed_dirs_def a_fs_def act_simps split: prod.splits)

lemma rebuilds_settings [keeps_intros]:
  "keeps (same_settings d0) rebuild_from_db" "keeps (same_settings d0) (engine_rebuild l)"
  by (auto simp: keeps_def same_settings_def rebuild_from_db_def engine_rebuild_def s_db_def invalidate_cache_def act_simps
      get_all_files_for_index_def sql_query_def db_exec_def Let_def split: prod.splits sum.splits)

lemma full_scan_settings [keeps_intros]:
  "keeps (same_settings d0) (run_full_scan et h :: ('c app_world, scan_error, nat) act)"
proof -
  have "keeps (same_settings d0) (\<lambda>w :: 'c app_world. on_scanner (scan_all (aw_clock w) h (aw_tree w)) w)"
  proof (unfold keeps_def, intro allI impI)
    fix w :: "'c app_world" assume w: "same_settings d0 w"
    define s where "s = \<lparr> sc_db = w_db w, sc_pending = [], sc_total_dirs = 0, sc_files_scanned = 0, sc_dirs_done = 0,
      sc_current_dir = [], sc_events = aw_events w \<rparr>"
    have "settings (sc_db s) = settings d0" using w by (simp add: s_def same_settings_def)
    from keepsD [OF scan_settings this] have "settings (sc_db (snd (scan_all (aw_clock w) h (aw_tree w) s))) = settings d0" .
    then show "same_settings d0 (snd (on_scanner (scan_all (aw_clock w) h (aw_tree w)) w))"
      unfolding same_settings_def on_scanner_def s_def [symmetric]
      by (cases "scan_all (aw_clock w) h (aw_tree w) s") simp
  qed
  then show ?thesis unfolding run_full_scan_def by (intro keeps_intros)
qed

lemma missing_settings [keeps_intros]: "keeps (same_settings d0) (missing_of ps)"
  by (induction ps) (auto intro!: keeps_intros)

lemma chunks_settings [keeps_intros]: "keeps (same_settings d0) (delete_chunks cs)"
  by (induction cs) (auto intro!: keeps_intros)

lemma startup_settings [keeps_intros]:
  "keeps (same_settings d0) (startup_scan et h)" "keeps (same_settings d0) (startup_text_index et b)"
  "keeps (same_settings d0) (startup_engine l et b)" "keeps (same_settings d0) (should_run_startup_scan disk)"
  unfolding startup_scan_def prune_deleted_def startup_text_index_def startup_engine_def should_run_startup_scan_def
  by (intro keeps_intros)+

lemma no_record_scans:
  assumes "map_of (settings (w_db w)) ''last_full_index'' = None"
  shows "fst (should_run_startup_scan disk w) = Inr True"
proof -
  obtain c d where c: "count_files (w_db w) = (c, d)" by fastforce
  obtain v d' where v: "get_setting ''last_full_index'' d = (v, d')" by fastforce
  have "settings d = settings (w_db w)"
    using c query_settings [of "\<lambda>d. int (length (files d))" "w_db w"] by (simp add: count_files_def)
  with v assms have "v = Inr None \<or> (\<exists>e. v = Inl e)"
    by (auto simp: get_setting_def sql_query_def db_exec_def act_get_def Let_def split: if_splits)
  then show ?thesis
    by (cases c) (auto simp: should_run_startup_scan_def a_or_def a_db_def act_bind_run act_run_simps c v)
qed

lemma startup_rebuilds_agree:
  assumes "lru_ok (sl_lru l)" "startup_text_index et True w = (Inr a, u)" "startup_engine l et True u = (Inr b, v)"
  shows "indexes_agree l v"
proof -
  have "\<exists>x n. rebuild_from_db x = (Inr n, u)"
    using assms(2) unfolding startup_text_index_def
    by (auto simp: act_bind_run act_run_simps a_or_def finish_err_def emit_bare_def a_emit_def set_indexing_def split: prod.splits sum.splits)
  moreover have "engine_rebuild l u = (Inr (), v)"
    using assms(3) unfolding startup_engine_def
    by (auto simp: act_bind_run act_run_simps finish_err_def emit_bare_def a_emit_def set_indexing_def split: prod.splits sum.splits)
  ultimately show ?thesis using rebuilds_agree [OF assms(1)] by blast
qed

lemma startup_refresh_outcome:
  assumes "lru_ok (sl_lru l)" "startup_refresh l et h b w = (r, w')" "same_settings d w"
  shows "same_settings d w' \<or> refreshed l w'"
proof (cases b)
  case False
  then have b: "b = False" by simp
  have "keeps (same_settings d) (startup_refresh l et h False)"
    unfolding startup_refresh_def if_False by (intro keeps_intros)
  from keepsE [OF this assms(2) [unfolded b] assms(3)] show ?thesis by simp
next
  case True
  then have b: "b = True" by simp
  let ?fin = "\<lambda>n. act_then set_ready (act_then record_full_index (finish_ok n)) :: ('a app_world, unit, unit) act"
  obtain x1 w1 where x1: "startup_scan et h w = (x1, w1)" by fastforce
  obtain x2 w2 where x2: "startup_text_index et True w1 = (x2, w2)" by fastforce
  obtain x3 w3 where x3: "startup_engine l et True w2 = (x3, w3)" by fastforce
  have k1: "same_settings d w1" using startup_settings(1) x1 assms(3) by (rule keepsE)
  have k2: "same_settings d w2" using startup_settings(2) x2 k1 by (rule keepsE)
  have k3: "same_settings d w3" using startup_settings(3) x3 k2 by (rule keepsE)
  have run: "startup_refresh l et h True w = (case x1 of Inl e \<Rightarrow> (Inl e, w1) | Inr n \<Rightarrow>
      (case x2 of Inl e \<Rightarrow> (Inl e, w2) | Inr _ \<Rightarrow> (case x3 of Inl e \<Rightarrow> (Inl e, w3) | Inr _ \<Rightarrow> ?fin n w3)))"
    unfolding startup_refresh_def if_True act_bind_run(1,2) [of "startup_scan et h"] x1
    by (cases x1; cases x2; cases x3) (simp_all add: act_bind_run(2) [of "startup_text_index et True"]
        act_bind_run(2) [of "startup_engine l et True"] x2 x3)
  show ?thesis
  proof (cases "is_ok x1 \<and> is_ok x2 \<and> is_ok x3")
    case True
    then obtain n a c where ok: "x1 = Inr n" "x2 = Inr a" "x3 = Inr c" by (auto simp: is_ok_iff)
    have "indexes_agree l w3" using assms(1) x2 [unfolded ok] x3 [unfolded ok] by (rule startup_rebuilds_agree)
    moreover have "w' = ended n (recorded w3)"
      using run assms(2) b unfolding ok by (simp add: after_rebuild)
    ultimately show ?thesis by (simp add: ended_refreshed recorded_agree)
  next
    case False
    with run assms(2) b k1 k2 k3 show ?thesis by (auto split: sum.splits)
  qed
qed

text \<open>
  C24.  An unfinished first scan is repeated: from a database in which no full scan is recorded, the
  start-up task, however it ends and under every schedule of failures, either leaves the next start
  to scan again, or has refreshed everything: tables, full-text index, trie, filter and cache agree,
  the index is marked ready and the indexing flag is down.
\<close>

theorem unfinished_scan_repeated:
  assumes "lru_ok (sl_lru l)" "map_of (settings (w_db w)) ''last_full_index'' = None"
    and "startup_index l et index_on_disk w = (r, w')"
  shows "fst (should_run_startup_scan index_on_disk' w') = Inr True
    \<or> ix_docs (sw_index w') = map make_doc (index_rows (w_db w')) \<and> engine_serves l (index_rows (w_db w')) w'
      \<and> aw_ready w' \<and> \<not> aw_indexing w'"
proof -
  obtain dirs w1 where g: "(a_or [] (a_db id get_indexed_dirs) :: ('a app_world, unit, _) act) w = (Inr dirs, w1)"
    by (cases "a_db id get_indexed_dirs w") (auto simp: a_or_def act_bind_run act_run_simps)
  obtain v w2 where v: "(a_or None (a_db id (get_setting ''include_hidden'')) :: ('a app_world, unit, _) act) w1 = (Inr v, w2)"
    by (cases "a_db id (get_setting ''include_hidden'') w1") (auto simp: a_or_def act_bind_run act_run_simps)
  obtain b w3 where b: "(should_run_startup_scan index_on_disk :: ('a app_world, unit, _) act) w2 = (b, w3)" by fastforce
  have w: "same_settings (w_db w) w" by (simp add: same_settings_def)
  have "keeps (same_settings (w_db w)) (a_or [] (a_db id get_indexed_dirs) :: ('a app_world, unit, _) act)"
    by (intro keeps_intros)
  from keepsE [OF this g w] have k1: "same_settings (w_db w) w1" .
  have "keeps (same_settings (w_db w)) (a_or None (a_db id (get_setting ''include_hidden'')) :: ('a app_world, unit, _) act)"
    by (intro keeps_intros)
  from keepsE [OF this v k1] have k2: "same_settings (w_db w) w2" .
  from keepsE [OF startup_settings(4) b k2] have k3: "same_settings (w_db w) w3" .
  have "same_settings (w_db w) w' \<or> refreshed l w'"
  proof (cases "dirs = []")
    case True
    then have "(no_indexed_dirs :: ('a app_world, unit, _) act) w1 = (r, w')"
      using assms(3) g by (simp add: startup_index_def act_bind_run)
    then have "same_settings (w_db w) w'" by (rule keepsE [OF flags_settings(5) _ k1])
    then show ?thesis ..
  next
    case dirs: False
    show ?thesis
    proof (cases b)
      case (Inl e)
      with assms(3) g v b dirs have "w' = w3" by (simp add: startup_index_def act_bind_run)
      with k3 show ?thesis by simp
    next
      case (Inr n)
      with assms(3) g v b dirs have "startup_refresh l et (v = Some ''true'') n w3 = (r, w')"
        by (simp add: startup_index_def act_bind_run)
      from startup_refresh_outcome [OF assms(1) this k3] show ?thesis .
    qed
  qed
  then show ?thesis
  proof
    assume "same_settings (w_db w) w'"
    with assms(2) have "map_of (settings (w_db w')) ''last_full_index'' = None" by (simp add: same_settings_def)
    then show ?thesis by (simp add: no_record_scans)
  qed (simp add: refreshed_def indexes_agree_def settled_def)
qed

section \<open>On a concrete machine\<close>

text \<open>Without failures a reindex succeeds.\<close>

lemma delete_chunks_ok:
  "faults (w_db w) = [] \<Longrightarrow> delete_chunks cs w = (Inr (), w\<lparr>w_db := fold delete_file_row (concat cs) (w_db w)\<rparr>)"
proof (induction cs arbitrary: w)
  case (Cons c cs)
  then show ?case
    by (simp add: act_simps a_db_def delete_files_no_faults fold_faults blind_file_ops)
qed (simp add: act_simps)

lemma prune_ok:
  assumes "faults (w_db w) = []" "fs_faults (sv_fs w) = []"
  obtains n d where "prune_deleted w = (Inr n, w\<lparr>w_db := d\<rparr>)" "faults d = []"
proof -
  let ?ms = "filter (\<lambda>p. \<not> on_disk w p) (map file_key (files (w_db w)))"
  have "a_db ScanDb get_all_file_paths w = (Inr (map file_key (files (w_db w))), w)"
    using assms(1) by (simp add: a_db_def get_all_file_paths_def query_no_faults)
  then have "prune_deleted w = (Inr (length ?ms), w\<lparr>w_db := fold delete_file_row ?ms (w_db w)\<rparr>)"
    using assms by (simp add: prune_deleted_def act_simps missing_of_ok delete_chunks_ok concat_chunks_of WRITE_BATCH_SIZE_def)
  then show ?thesis by (rule that) (simp add: fold_faults blind_file_ops assms(1))
qed

lemma reindex_succeeds:
  assumes "faults (w_db w) = []" "fs_faults (sv_fs w) = []" "ix_faults (sw_index w) = []"
  shows "\<exists>n w'. trigger_reindex l et w = (Inr n, w')"
proof -
  obtain h where h: "include_hidden_setting et w = (Inr h, w)"
    using assms(1) by (simp add: include_hidden_setting_def act_simps a_db_def get_setting_def query_no_faults)
  obtain n u where u: "run_full_scan et h w = (Inr n, u)" "faults (w_db u) = []" "sv_fs u = sv_fs w" "sw_index u = sw_index w"
    using assms(1) by (rule full_scan_run)
  obtain m d where d: "prune_deleted u = (Inr m, u\<lparr>w_db := d\<rparr>)" "faults d = []"
    using prune_ok [of u] u assms(2) by auto
  let ?v = "u\<lparr>w_db := d\<rparr>"
  obtain k s where s: "rebuild_from_db ?v = (Inr k, ?v\<lparr>sw_index := s\<rparr>)"
    using d(2) u(4) assms(3) by (simp add: rebuild_from_db_def act_simps get_all_files_for_index_def query_no_faults rebuild_docs_ok)
  have "\<exists>x. engine_rebuild l (?v\<lparr>sw_index := s\<rparr>) = (Inr (), x)"
    using d(2) by (simp add: engine_rebuild_def act_simps s_db_def get_all_files_for_index_def query_no_faults invalidate_cache_def split: prod.split)
  with h u(1) d(1) s show ?thesis
    by (auto simp: trigger_reindex_def scan_cmd_def or_finish_err_def rebuild_both_def act_bind_run act_run_simps
        set_ready_def record_full_index_def finish_ok_def a_emit_def set_indexing_def)
qed

lemma refresh_consistent_witness:
  "\<exists>n w'. trigger_reindex toy_lib toy_app_text (toy_machine (200, [])) = (Inr n, w')
    \<and> ix_docs (sw_index w') = map make_doc (index_rows (w_db w')) \<and> aw_ready w' \<and> \<not> aw_indexing w'"
proof -
  have ok: "lru_ok (sl_lru toy_lib)" using list_lru_ok by (simp add: toy_lib_def)
  obtain n w' where run: "trigger_reindex toy_lib toy_app_text (toy_machine (200, [])) = (Inr n, w')"
    using reindex_succeeds [of "toy_machine (200, [])" toy_lib toy_app_text] by (auto simp: toy_machine_def db_empty_def)
  from refresh_consistent [OF ok disjI1 [OF run]] run show ?thesis by blast
qed

lemma unfinished_scan_repeated_witness:
  "let w' = snd (startup_index toy_lib toy_app_text False (toy_machine (200, []))) in
     fst (should_run_startup_scan True w' :: _ \<times> _ app_world) = (Inr True :: (string, bool) res) \<or> aw_ready w'"
proof -
  have ok: "lru_ok (sl_lru toy_lib)" using list_lru_ok by (simp add: toy_lib_def)
  have fresh: "map_of (settings (w_db (toy_machine (200, [])))) ''last_full_index'' = None"
    by (simp add: toy_machine_def db_empty_def)
  obtain r w' where run: "startup_index toy_lib toy_app_text False (toy_machine (200, [])) = (r, w')" by fastforce
  from unfinished_scan_repeated [OF ok fresh run, of True] run show ?thesis by (auto simp: Let_def)
qed


end
