(* ===== verification/Index_Open.thy ===== *)
theory Index_Open
  imports Index_Refresh
begin

text \<open>
  Opening the full-text index at start-up (\<^verbatim>\<open>FileIndex::open\<close> of \<^verbatim>\<open>search/index.rs\<close>): an index that cannot be
  opened, for instance because an older version wrote it with other fields, is deleted and made anew,
  and the start-up task fills it again.  The directory on disk holds an index or none; whether its
  fields are the program's, and which calls fail, are part of it.
\<close>

section \<open>The code\<close>

record index_disk =
  id_meta :: bool
  id_schema_ok :: bool
  id_docs :: "doc list"
  id_faults :: "bool list"

type_synonym 'a disk_act = "(index_disk, index_error, 'a) act"

definition index_dir :: "path option \<Rightarrow> path option" where
  "index_dir data_dir = map_option (\<lambda>d. path_join (path_join d ''synapt'') ''tantivy_index'') data_dir"

definition index_exists_on_disk :: "index_disk \<Rightarrow> bool" where
  "index_exists_on_disk d = id_meta d"

definition disk_call :: "index_error \<Rightarrow> 'a disk_act \<Rightarrow> 'a disk_act" where
  "disk_call e m d = (let d' = d\<lparr>id_faults := tl (id_faults d)\<rparr> in
     if id_faults d \<noteq> [] \<and> hd (id_faults d) then (Inl e, d') else m d')"

text \<open>\<^verbatim>\<open>Index::open_or_create\<close>: an existing index with other fields is an error.\<close>

definition open_or_create :: "doc list disk_act" where
  "open_or_create = act_then (disk_call IOpenDir (act_ret ()))
     (disk_call ITantivy (\<lambda>d. if \<not> id_meta d then (Inr [], d\<lparr>id_meta := True, id_schema_ok := True, id_docs := []\<rparr>)
        else if id_schema_ok d then (Inr (id_docs d), d) else (Inl ITantivy, d)))"

definition index_open :: "file_index disk_act" where
  "index_open = act_then (disk_call IIo (act_ret ()))
     (act_bind (act_bind (act_try open_or_create) (\<lambda>r. case r of
         Inr docs \<Rightarrow> act_ret docs
       | Inl _ \<Rightarrow> act_then (disk_call IIo (act_mod (\<lambda>d. d\<lparr>id_meta := False, id_schema_ok := False, id_docs := []\<rparr>)))
           (act_then (disk_call IIo (act_ret ())) open_or_create))) (\<lambda>docs.
     act_then (disk_call ITantivy (act_ret ()))
     (act_then (disk_call ITantivy (act_ret ()))
       (act_ret \<lparr> ix_writer = docs, ix_committed = docs, ix_docs = docs, ix_faults = [] \<rparr>))))"

section \<open>Nothing on disk keeps the program from starting\<close>

lemma disk_same: "id_faults d = [] \<Longrightarrow> d\<lparr>id_faults := []\<rparr> = d"
  by (cases d) simp

lemma disk_call_ok: "id_faults d = [] \<Longrightarrow> disk_call e m d = m d"
  by (simp add: disk_call_def disk_same)

text \<open>When no call fails the index opens: with its documents if its fields fit, empty otherwise.\<close>

lemma index_open_ok:
  assumes "id_faults d = []"
  shows "\<exists>ix d'. index_open d = (Inr ix, d') \<and> id_meta d' \<and> id_schema_ok d'
    \<and> ix_docs ix = (if id_meta d \<and> id_schema_ok d then id_docs d else []) \<and> id_docs d' = ix_docs ix"
  using assms by (auto simp: index_open_def open_or_create_def disk_call_ok act_simps)

text \<open>An index made anew is filled by the start-up task, although no scan is due: when its step succeeds,
  the documents are those of the table.\<close>

lemma fresh_index_filled:
  assumes "ix_docs (sw_index w) = []" "faults (w_db w) = []" "startup_text_index et False w = (Inr (), w')"
  shows "ix_docs (sw_index w') = map make_doc (index_rows (w_db w'))"
proof (cases "files (w_db w) = []")
  case True
  with assms show ?thesis
    by (auto simp: startup_text_index_def act_simps a_or_def a_db_def count_files_def query_no_faults num_docs_def index_rows_def order_by_def)
next
  case False
  have "\<exists>v n. rebuild_from_db v = (Inr n, w')"
    using assms False unfolding startup_text_index_def
    by (auto simp: act_bind_run act_run_simps a_or_def a_db_def count_files_def query_no_faults num_docs_def split: prod.splits sum.splits)
  then obtain v n where "rebuild_from_db v = (Inr n, w')" by blast
  from rebuild_from_db_Inr [OF this] show ?thesis by (simp add: index_rows_def)
qed

end
