(* ===== verification/Calculator.thy ===== *)
theory Calculator
  imports F64 Rust_Std
begin

text \<open>
  The inline calculator (\<^verbatim>\<open>search/calc.rs\<close>): tokenizer, recursive-descent parser that evaluates as
  it parses, and the overlay heuristic.  The specification is an expression tree with its own
  evaluator and a grammar relating token lists to trees; the parser is proved sound and complete
  for it, and evaluating a printed tree is evaluating the tree.
\<close>

section \<open>Tokens and the tokenizer\<close>

datatype calc_error = ParseError string | DivisionByZero

datatype token = Num f64 | Plus | Minus | Star | Slash | LParen | RParen

text \<open>\<^verbatim>\<open>str::parse::<f64>\<close> on a text of digits and dots: digits with at most one dot and at least one
  digit; the decimal value is rounded once.\<close>

definition digit_val :: "char \<Rightarrow> nat" where
  "digit_val c = code c - 48"

definition digits_val :: "string \<Rightarrow> nat" where
  "digits_val ds = foldl (\<lambda>n c. 10 * n + digit_val c) 0 ds"

definition decimal :: "string \<Rightarrow> string \<Rightarrow> f64" where
  "decimal ip fp = f_of_rat (of_nat (digits_val (ip @ fp)) / 10 ^ length fp)"

definition parse_f64 :: "string \<Rightarrow> f64 option" where
  "parse_f64 t = (let ip = takeWhile is_digit t in
     case dropWhile is_digit t of
       [] \<Rightarrow> if ip = [] then None else Some (decimal ip [])
     | c # fp \<Rightarrow> if c = CHR ''.'' \<and> list_all is_digit fp \<and> (ip \<noteq> [] \<or> fp \<noteq> [])
                then Some (decimal ip fp) else None)"

definition num_char :: "char \<Rightarrow> bool" where
  "num_char c \<longleftrightarrow> is_digit c \<or> c = CHR ''.''"

function tokenize_from :: "string \<Rightarrow> token list \<Rightarrow> (calc_error, token list) res" where
  "tokenize_from [] tokens = Inr tokens"
| "tokenize_from (c # cs) tokens =
     (if c = CHR '' '' \<or> c = CHR 0x09 \<or> c = CHR 0x0D \<or> c = CHR 0x0A then tokenize_from cs tokens
      else if c = CHR ''+'' then tokenize_from cs (tokens @ [Plus])
      else if c = CHR ''-'' then tokenize_from cs (tokens @ [Minus])
      else if c = CHR ''*'' then tokenize_from cs (tokens @ [Star])
      else if c = CHR ''/'' then tokenize_from cs (tokens @ [Slash])
      else if c = CHR ''('' then tokenize_from cs (tokens @ [LParen])
      else if c = CHR '')'' then tokenize_from cs (tokens @ [RParen])
      else if num_char c then
        (case parse_f64 (takeWhile num_char (c # cs)) of
           None \<Rightarrow> Inl (ParseError (''invalid number '' @ [CHR 0x27] @ takeWhile num_char (c # cs) @ [CHR 0x27]))
         | Some v \<Rightarrow> tokenize_from (dropWhile num_char (c # cs)) (tokens @ [Num v]))
      else Inl (ParseError (''unexpected character '' @ [CHR 0x27, c, CHR 0x27])))"
  by pat_completeness auto
termination
  by (relation "measure (\<lambda>(s, _). length s)")
    (auto simp: le_imp_less_Suc length_dropWhile_le)

definition tokenize :: "string \<Rightarrow> (calc_error, token list) res" where
  "tokenize input = tokenize_from input []"

section \<open>The parser\<close>

text \<open>
  A parser state \<^verbatim>\<open>Parser { tokens, pos }\<close> is the suffix of the tokens from \<open>pos\<close> on, the only part
  the methods look at.  \<open>expr_loop\<close> and \<open>term_loop\<close> are the \<^verbatim>\<open>while let\<close> loops of \<^verbatim>\<open>expr\<close> and \<^verbatim>\<open>term\<close>
  with the running value.
\<close>

fun token_debug :: "token \<Rightarrow> string" where
  "token_debug (Num _) = ''Num''"
| "token_debug Plus = ''Plus''"
| "token_debug Minus = ''Minus''"
| "token_debug Star = ''Star''"
| "token_debug Slash = ''Slash''"
| "token_debug LParen = ''LParen''"
| "token_debug RParen = ''RParen''"

type_synonym parse = "(calc_error, f64 \<times> token list) res"

function (sequential)
  parse_expr :: "token list \<Rightarrow> parse"
  and expr_loop :: "f64 \<Rightarrow> token list \<Rightarrow> parse"
  and parse_term :: "token list \<Rightarrow> parse"
  and term_loop :: "f64 \<Rightarrow> token list \<Rightarrow> parse"
  and parse_factor :: "token list \<Rightarrow> parse" where
  "parse_expr ts = (case parse_term ts of Inl e \<Rightarrow> Inl e | Inr (v, r) \<Rightarrow> expr_loop v r)"
| "expr_loop v (Plus # ts) = (case parse_term ts of Inl e \<Rightarrow> Inl e | Inr (w, r) \<Rightarrow> expr_loop (f_add v w) r)"
| "expr_loop v (Minus # ts) = (case parse_term ts of Inl e \<Rightarrow> Inl e | Inr (w, r) \<Rightarrow> expr_loop (f_sub v w) r)"
| "expr_loop v ts = Inr (v, ts)"
| "parse_term ts = (case parse_factor ts of Inl e \<Rightarrow> Inl e | Inr (v, r) \<Rightarrow> term_loop v r)"
| "term_loop v (Star # ts) = (case parse_factor ts of Inl e \<Rightarrow> Inl e | Inr (w, r) \<Rightarrow> term_loop (f_mul v w) r)"
| "term_loop v (Slash # ts) = (case parse_factor ts of Inl e \<Rightarrow> Inl e
     | Inr (w, r) \<Rightarrow> if f_eq w (Fin False 0) then Inl DivisionByZero else term_loop (f_div v w) r)"
| "term_loop v ts = Inr (v, ts)"
| "parse_factor (Num n # ts) = Inr (n, ts)"
| "parse_factor (Minus # ts) = (case parse_factor ts of Inl e \<Rightarrow> Inl e | Inr (v, r) \<Rightarrow> Inr (f_neg v, r))"
| "parse_factor (LParen # ts) = (case parse_expr ts of Inl e \<Rightarrow> Inl e
     | Inr (v, RParen # r) \<Rightarrow> Inr (v, r)
     | Inr (v, _) \<Rightarrow> Inl (ParseError (''expected '' @ [CHR 0x27] @ '')'' @ [CHR 0x27])))"
| "parse_factor (t # ts) = Inl (ParseError (''unexpected token '' @ token_debug t))"
| "parse_factor [] = Inl (ParseError ''unexpected end of input'')"
  by pat_completeness auto


text \<open>
  Termination: an operator's operand starts one token further on, and a parse that succeeds has
  consumed at least one token, so every loop iteration restarts on a shorter suffix.
\<close>

abbreviation pdom where
  "pdom \<equiv> parse_expr_expr_loop_parse_term_term_loop_parse_factor_dom"

lemma parse_shrinks:
  "pdom (Inl (Inl ts)) \<Longrightarrow> parse_expr ts = Inr (v, r) \<Longrightarrow> length r < length ts"
  "pdom (Inl (Inr (w, ts))) \<Longrightarrow> expr_loop w ts = Inr (v, r) \<Longrightarrow> length r \<le> length ts"
  "pdom (Inr (Inl ts)) \<Longrightarrow> parse_term ts = Inr (v, r) \<Longrightarrow> length r < length ts"
  "pdom (Inr (Inr (Inl (w, ts)))) \<Longrightarrow> term_loop w ts = Inr (v, r) \<Longrightarrow> length r \<le> length ts"
  "pdom (Inr (Inr (Inr ts))) \<Longrightarrow> parse_factor ts = Inr (v, r) \<Longrightarrow> length r < length ts"
  by (induction ts and w ts and ts and w ts and ts arbitrary: v r and v r and v r and v r and v r
      rule: parse_expr_expr_loop_parse_term_term_loop_parse_factor.pinduct)
    (fastforce simp: parse_expr.psimps expr_loop.psimps parse_term.psimps term_loop.psimps
      parse_factor.psimps split: sum.splits prod.splits if_splits list.splits token.splits)+

termination parse_expr
  by (relation "measure (\<lambda>x. case x of Inl (Inl ts) \<Rightarrow> 3 * length ts + 2 | Inl (Inr (v, ts)) \<Rightarrow> 3 * length ts
       | Inr (Inl ts) \<Rightarrow> 3 * length ts + 1 | Inr (Inr (Inl (v, ts))) \<Rightarrow> 3 * length ts
       | Inr (Inr (Inr ts)) \<Rightarrow> 3 * length ts)")
    (auto dest!: parse_shrinks)


text \<open>\<^verbatim>\<open>evaluate\<close>: the whole input must be consumed.\<close>

definition evaluate :: "string \<Rightarrow> (calc_error, f64) res" where
  "evaluate input = bind_res (tokenize input) (\<lambda>tokens.
     if tokens = [] then Inl (ParseError ''empty expression'')
     else bind_res (parse_expr tokens) (\<lambda>(value, rest).
       if rest \<noteq> [] then Inl (ParseError ''unexpected trailing input'') else Inr value))"

definition looks_like_expression :: "string \<Rightarrow> bool" where
  "looks_like_expression input = (
     let has_digit = list_ex is_digit input;
         trimmed = trim input;
         multiple_minus = 1 < length (filter (\<lambda>c. c = CHR ''-'') input);
         minus_not_at_start = CHR ''-'' \<in> set input \<and> \<not> starts_with ''-'' trimmed;
         has_op = CHR ''+'' \<in> set input \<or> CHR ''*'' \<in> set input \<or> CHR ''/'' \<in> set input
           \<or> CHR ''('' \<in> set input \<or> multiple_minus \<or> minus_not_at_start
     in has_digit \<and> has_op)"

section \<open>Specification: expression trees\<close>

datatype binop = Add | Sub | Mul | Div

datatype ast = Lit f64 | Neg ast | Bin binop ast ast

fun apply_op :: "binop \<Rightarrow> f64 \<Rightarrow> f64 \<Rightarrow> (calc_error, f64) res" where
  "apply_op Add v w = Inr (f_add v w)"
| "apply_op Sub v w = Inr (f_sub v w)"
| "apply_op Mul v w = Inr (f_mul v w)"
| "apply_op Div v w = (if f_eq w (Fin False 0) then Inl DivisionByZero else Inr (f_div v w))"

text \<open>Operands are evaluated from left to right, the first division by zero wins.\<close>

fun eval_ast :: "ast \<Rightarrow> (calc_error, f64) res" where
  "eval_ast (Lit n) = Inr n"
| "eval_ast (Neg a) = bind_res (eval_ast a) (\<lambda>v. Inr (f_neg v))"
| "eval_ast (Bin bop a b) = bind_res (eval_ast a) (\<lambda>v. bind_res (eval_ast b) (apply_op bop v))"

text \<open>The grammar: sums of products of factors, both left associative; a sign or a pair of
  parentheses makes a factor.\<close>

inductive g_expr :: "token list \<Rightarrow> ast \<Rightarrow> bool"
  and g_term :: "token list \<Rightarrow> ast \<Rightarrow> bool"
  and g_factor :: "token list \<Rightarrow> ast \<Rightarrow> bool" where
  expr_term: "g_term p a \<Longrightarrow> g_expr p a"
| expr_add: "g_expr p a \<Longrightarrow> g_term q b \<Longrightarrow> g_expr (p @ Plus # q) (Bin Add a b)"
| expr_sub: "g_expr p a \<Longrightarrow> g_term q b \<Longrightarrow> g_expr (p @ Minus # q) (Bin Sub a b)"
| term_factor: "g_factor p a \<Longrightarrow> g_term p a"
| term_mul: "g_term p a \<Longrightarrow> g_factor q b \<Longrightarrow> g_term (p @ Star # q) (Bin Mul a b)"
| term_div: "g_term p a \<Longrightarrow> g_factor q b \<Longrightarrow> g_term (p @ Slash # q) (Bin Div a b)"
| factor_lit: "g_factor [Num n] (Lit n)"
| factor_neg: "g_factor p a \<Longrightarrow> g_factor (Minus # p) (Neg a)"
| factor_paren: "g_expr p a \<Longrightarrow> g_factor (LParen # p @ [RParen]) a"

declare parse_expr.simps [simp del]
declare parse_term.simps [simp del]

section \<open>Completeness: a derivable token list is evaluated as its tree\<close>

fun mul_head :: "token list \<Rightarrow> bool" where
  "mul_head (Star # _) = True"
| "mul_head (Slash # _) = True"
| "mul_head _ = False"

fun add_head :: "token list \<Rightarrow> bool" where
  "add_head (Plus # _) = True"
| "add_head (Minus # _) = True"
| "add_head _ = False"

lemma term_loop_stop: "\<not> mul_head r \<Longrightarrow> term_loop v r = Inr (v, r)"
  by (cases "(v, r)" rule: term_loop.cases) auto

lemma expr_loop_stop: "\<not> add_head r \<Longrightarrow> expr_loop v r = Inr (v, r)"
  by (cases "(v, r)" rule: expr_loop.cases) auto

lemma parse_complete:
  "g_expr p a \<Longrightarrow> \<not> mul_head r \<Longrightarrow> parse_expr (p @ r) = bind_res (eval_ast a) (\<lambda>v. expr_loop v r)"
  "g_term p a \<Longrightarrow> parse_term (p @ r) = bind_res (eval_ast a) (\<lambda>v. term_loop v r)"
  "g_factor p a \<Longrightarrow> parse_factor (p @ r) = bind_res (eval_ast a) (\<lambda>v. Inr (v, r))"
proof (induction p a and p a and p a arbitrary: r and r and r rule: g_expr_g_term_g_factor.inducts)
  case (expr_term p a)
  then show ?case by (cases "eval_ast a") (simp_all add: parse_expr.simps term_loop_stop)
next
  case (expr_add p a q b)
  then show ?case
    by (cases "eval_ast a"; cases "eval_ast b") (simp_all add: term_loop_stop)
next
  case (expr_sub p a q b)
  then show ?case
    by (cases "eval_ast a"; cases "eval_ast b") (simp_all add: term_loop_stop)
next
  case (term_factor p a)
  then show ?case by (cases "eval_ast a") (simp_all add: parse_term.simps)
next
  case (term_mul p a q b)
  then show ?case by (cases "eval_ast a"; cases "eval_ast b") simp_all
next
  case (term_div p a q b)
  then show ?case by (cases "eval_ast a"; cases "eval_ast b") simp_all
next
  case (factor_neg p a)
  then show ?case by (cases "eval_ast a") simp_all
next
  case (factor_paren p a)
  then show ?case
    using factor_paren.IH [of "RParen # r"] by (cases "eval_ast a") (simp_all add: expr_loop_stop)
qed simp_all

section \<open>Soundness: what the parser accepts is derivable\<close>

lemma parse_sound:
  "parse_expr ts = Inr (v, r) \<Longrightarrow> \<exists>p a. ts = p @ r \<and> g_expr p a \<and> eval_ast a = Inr v"
  "expr_loop w ts = Inr (v, r) \<Longrightarrow> g_expr p0 a0 \<Longrightarrow> eval_ast a0 = Inr w
     \<Longrightarrow> \<exists>p a. p0 @ ts = p @ r \<and> g_expr p a \<and> eval_ast a = Inr v"
  "parse_term ts = Inr (v, r) \<Longrightarrow> \<exists>p a. ts = p @ r \<and> g_term p a \<and> eval_ast a = Inr v"
  "term_loop w ts = Inr (v, r) \<Longrightarrow> g_term p1 a1 \<Longrightarrow> eval_ast a1 = Inr w
     \<Longrightarrow> \<exists>p a. p1 @ ts = p @ r \<and> g_term p a \<and> eval_ast a = Inr v"
  "parse_factor ts = Inr (v, r) \<Longrightarrow> \<exists>p a. ts = p @ r \<and> g_factor p a \<and> eval_ast a = Inr v"
proof (induction ts and w ts and ts and w ts and ts
    arbitrary: v r and v r p0 a0 and v r and v r p1 a1 and v r
    rule: parse_expr_expr_loop_parse_term_term_loop_parse_factor.induct)
  case (1 ts)
  from 1(3) obtain w r' where t: "parse_term ts = Inr (w, r')" and l: "expr_loop w r' = Inr (v, r)"
    by (auto simp: parse_expr.simps split: sum.splits)
  from 1(1) [OF t] obtain p a where "ts = p @ r'" "g_term p a" "eval_ast a = Inr w" by blast
  with 1(2) [OF t refl l, of p a] show ?case by (auto intro: expr_term)
next
  case (2 w ts)
  from 2(3) obtain u r' where t: "parse_term ts = Inr (u, r')" and l: "expr_loop (f_add w u) r' = Inr (v, r)"
    by (auto split: sum.splits)
  from 2(1) [OF t] obtain q b where q: "ts = q @ r'" "g_term q b" "eval_ast b = Inr u" by blast
  with 2(4,5) have "g_expr (p0 @ Plus # q) (Bin Add a0 b)" "eval_ast (Bin Add a0 b) = Inr (f_add w u)"
    by (auto intro: expr_add)
  from 2(2) [OF t refl l this] q show ?case by simp
next
  case (3 w ts)
  from 3(3) obtain u r' where t: "parse_term ts = Inr (u, r')" and l: "expr_loop (f_sub w u) r' = Inr (v, r)"
    by (auto split: sum.splits)
  from 3(1) [OF t] obtain q b where q: "ts = q @ r'" "g_term q b" "eval_ast b = Inr u" by blast
  with 3(4,5) have "g_expr (p0 @ Minus # q) (Bin Sub a0 b)" "eval_ast (Bin Sub a0 b) = Inr (f_sub w u)"
    by (auto intro: expr_sub)
  from 3(2) [OF t refl l this] q show ?case by simp
next
  case (5 ts)
  from 5(3) obtain w r' where t: "parse_factor ts = Inr (w, r')" and l: "term_loop w r' = Inr (v, r)"
    by (auto simp: parse_term.simps split: sum.splits)
  from 5(1) [OF t] obtain p a where "ts = p @ r'" "g_factor p a" "eval_ast a = Inr w" by blast
  with 5(2) [OF t refl l, of p a] show ?case by (auto intro: term_factor)
next
  case (6 w ts)
  from 6(3) obtain u r' where t: "parse_factor ts = Inr (u, r')" and l: "term_loop (f_mul w u) r' = Inr (v, r)"
    by (auto split: sum.splits)
  from 6(1) [OF t] obtain q b where q: "ts = q @ r'" "g_factor q b" "eval_ast b = Inr u" by blast
  with 6(4,5) have "g_term (p1 @ Star # q) (Bin Mul a1 b)" "eval_ast (Bin Mul a1 b) = Inr (f_mul w u)"
    by (auto intro: term_mul)
  from 6(2) [OF t refl l this] q show ?case by simp
next
  case (7 w ts)
  from 7(3) obtain u r' where t: "parse_factor ts = Inr (u, r')" and nz: "\<not> f_eq u (Fin False 0)"
    and l: "term_loop (f_div w u) r' = Inr (v, r)"
    by (auto split: sum.splits if_splits)
  from 7(1) [OF t] obtain q b where q: "ts = q @ r'" "g_factor q b" "eval_ast b = Inr u" by blast
  with 7(4,5) nz have "g_term (p1 @ Slash # q) (Bin Div a1 b)" "eval_ast (Bin Div a1 b) = Inr (f_div w u)"
    by (auto intro: term_div)
  from 7(2) [OF t refl nz l this] q show ?case by simp
next
  case (10 ts)
  from 10(2) obtain u where t: "parse_factor ts = Inr (u, r)" and v: "v = f_neg u"
    by (auto split: sum.splits)
  from 10(1) [OF t] obtain q b where q: "ts = q @ r" "g_factor q b" "eval_ast b = Inr u" by blast
  then have "g_factor (Minus # q) (Neg b)" by (auto intro: factor_neg)
  with q v show ?case by (intro exI [where x = "Minus # q"] exI [where x = "Neg b"]) simp
next
  case (11 ts)
  from 11(2) obtain u r' where t: "parse_expr ts = Inr (u, RParen # r')" and e: "v = u" "r = r'"
    by (auto split: sum.splits list.splits token.splits)
  from 11(1) [OF t] obtain q b where q: "ts = q @ RParen # r'" "g_expr q b" "eval_ast b = Inr u" by blast
  then have "g_factor (LParen # q @ [RParen]) b" by (auto intro: factor_paren)
  with q e show ?case by (intro exI [where x = "LParen # q @ [RParen]"] exI [where x = b]) simp
qed (auto intro: factor_lit g_expr_g_term_g_factor.intros)


section \<open>Evaluation against the specification\<close>

lemma g_nonempty: "g_expr p a \<Longrightarrow> p \<noteq> []" "g_term p a \<Longrightarrow> p \<noteq> []" "g_factor p a \<Longrightarrow> p \<noteq> []"
  by (induction p a and p a and p a rule: g_expr_g_term_g_factor.inducts) auto

lemma evaluate_complete:
  assumes "tokenize s = Inr ts" and "g_expr ts a"
  shows "evaluate s = eval_ast a"
proof -
  have "parse_expr ts = bind_res (eval_ast a) (\<lambda>v. Inr (v, []))"
    using parse_complete(1) [OF assms(2), of "[]"] by simp
  with assms g_nonempty(1) [OF assms(2)] show ?thesis
    by (cases "eval_ast a") (simp_all add: evaluate_def)
qed

text \<open>
  C25.  The calculator accepts exactly the grammar and computes its meaning: \<^verbatim>\<open>evaluate\<close> returns a
  value iff the text splits into tokens that derive from the grammar (products bind tighter than
  sums, both associate to the left, signs bind tightest) by a tree whose left-to-right IEEE
  evaluation gives that value.
\<close>

theorem calc_accepts_grammar:
  "evaluate s = Inr v \<longleftrightarrow> (\<exists>ts a. tokenize s = Inr ts \<and> g_expr ts a \<and> eval_ast a = Inr v)"
proof
  assume "evaluate s = Inr v"
  then obtain ts where ts: "tokenize s = Inr ts" and p: "parse_expr ts = Inr (v, [])"
    by (auto simp: evaluate_def bind_res_eq_Inr split: if_splits prod.splits)
  from parse_sound(1) [OF p] ts show "\<exists>ts a. tokenize s = Inr ts \<and> g_expr ts a \<and> eval_ast a = Inr v"
    by auto
qed (auto simp: evaluate_complete)

section \<open>Printing trees\<close>

text \<open>
  Trees over literal texts, printed with the fewest parentheses the grammar allows.  Level 0 is a
  sum, level 1 a product, level 2 a factor.
\<close>

datatype stree = SLit string | SNeg stree | SBin binop stree stree

fun op_level :: "binop \<Rightarrow> nat" where
  "op_level Add = 0"
| "op_level Sub = 0"
| "op_level Mul = 1"
| "op_level Div = 1"

fun op_char :: "binop \<Rightarrow> char" where
  "op_char Add = CHR ''+''"
| "op_char Sub = CHR ''-''"
| "op_char Mul = CHR ''*''"
| "op_char Div = CHR ''/''"

fun op_token :: "binop \<Rightarrow> token" where
  "op_token Add = Plus"
| "op_token Sub = Minus"
| "op_token Mul = Star"
| "op_token Div = Slash"

definition show_paren :: "bool \<Rightarrow> string \<Rightarrow> string" where
  "show_paren b s = (if b then CHR ''('' # s @ [CHR '')''] else s)"

definition token_paren :: "bool \<Rightarrow> token list \<Rightarrow> token list" where
  "token_paren b s = (if b then LParen # s @ [RParen] else s)"

fun show_tree :: "nat \<Rightarrow> stree \<Rightarrow> string" where
  "show_tree n (SLit l) = l"
| "show_tree n (SNeg a) = CHR ''-'' # show_tree 2 a"
| "show_tree n (SBin bop a b) = show_paren (op_level bop < n)
     (show_tree (op_level bop) a @ op_char bop # show_tree (Suc (op_level bop)) b)"

fun tree_ast :: "stree \<Rightarrow> ast" where
  "tree_ast (SLit l) = Lit (the (parse_f64 l))"
| "tree_ast (SNeg a) = Neg (tree_ast a)"
| "tree_ast (SBin bop a b) = Bin bop (tree_ast a) (tree_ast b)"

fun tree_tokens :: "nat \<Rightarrow> stree \<Rightarrow> token list" where
  "tree_tokens n (SLit l) = [Num (the (parse_f64 l))]"
| "tree_tokens n (SNeg a) = Minus # tree_tokens 2 a"
| "tree_tokens n (SBin bop a b) = token_paren (op_level bop < n)
     (tree_tokens (op_level bop) a @ op_token bop # tree_tokens (Suc (op_level bop)) b)"

text \<open>The literals of a tree are number texts: digits and dots that \<^verbatim>\<open>parse::<f64>\<close> accepts.\<close>

definition number_text :: "string \<Rightarrow> bool" where
  "number_text l \<longleftrightarrow> list_all num_char l \<and> parse_f64 l \<noteq> None"

fun wf_tree :: "stree \<Rightarrow> bool" where
  "wf_tree (SLit l) = number_text l"
| "wf_tree (SNeg a) = wf_tree a"
| "wf_tree (SBin bop a b) = (wf_tree a \<and> wf_tree b)"

lemma num_char_cases:
  "num_char c \<Longrightarrow> c \<notin> {CHR '' '', CHR 0x09, CHR 0x0D, CHR 0x0A, CHR ''+'', CHR ''-'', CHR ''*'', CHR ''/'', CHR ''('', CHR '')''}"
  by (auto simp: num_char_def is_digit_def code_def)

lemma op_chars_not_num [simp]:
  "\<not> num_char (op_char bop)" "\<not> num_char CHR '')''"
  by (cases bop) (auto simp: num_char_def is_digit_def code_def)

lemma tokenize_number:
  assumes "number_text l" and "r = [] \<or> \<not> num_char (hd r)"
  shows "tokenize_from (l @ r) ts = tokenize_from r (ts @ [Num (the (parse_f64 l))])"
proof -
  from assms(1) obtain c l' v where l: "l = c # l'" and v: "parse_f64 l = Some v" and n: "list_all num_char l"
    by (cases l) (auto simp: number_text_def parse_f64_def)
  have tw: "takeWhile num_char (l @ r) = l" and dw: "dropWhile num_char (l @ r) = r"
    using n assms(2) by (cases r; simp add: list_all_iff)+
  have c: "num_char c" using n l by simp
  show ?thesis
    using num_char_cases [OF c] c v tw dw unfolding l by simp
qed

lemma tokenize_op:
  "tokenize_from (op_char bop # r) ts = tokenize_from r (ts @ [op_token bop])"
  by (cases bop) simp_all

lemma tokenize_paren:
  "tokenize_from (CHR ''('' # r) ts = tokenize_from r (ts @ [LParen])"
  "tokenize_from (CHR '')'' # r) ts = tokenize_from r (ts @ [RParen])"
  by simp_all

declare tokenize_from.simps(2) [simp del]

lemma tokenize_show_tree:
  "wf_tree t \<Longrightarrow> r = [] \<or> \<not> num_char (hd r) \<Longrightarrow>
   tokenize_from (show_tree n t @ r) ts = tokenize_from r (ts @ tree_tokens n t)"
proof (induction t arbitrary: n r ts)
  case (SLit l)
  then show ?case by (simp add: tokenize_number)
next
  case (SBin bop a b)
  have *: "tokenize_from (show_tree (op_level bop) a @ op_char bop # show_tree (Suc (op_level bop)) b @ r') ts'
     = tokenize_from r' (ts' @ tree_tokens (op_level bop) a @ op_token bop # tree_tokens (Suc (op_level bop)) b)"
    if "r' = [] \<or> \<not> num_char (hd r')" for r' ts'
    using SBin.prems that by (simp add: SBin.IH tokenize_op)
  show ?case
    using *[of r ts] *[of "CHR '')'' # r" "ts @ [LParen]"] SBin.prems(2)
    by (simp add: show_paren_def token_paren_def tokenize_paren)
next
  case (SNeg a)
  then show ?case
    using tokenize_op [of Sub "show_tree 2 a @ r" ts] by simp
qed

lemma factor_paren2: "g_expr (p @ x # q) a \<Longrightarrow> g_factor (LParen # p @ x # q @ [RParen]) a"
  using factor_paren [of "p @ x # q" a] by simp

lemma tree_derivation:
  "g_expr (tree_tokens 0 t) (tree_ast t) \<and> g_term (tree_tokens 1 t) (tree_ast t)
   \<and> g_factor (tree_tokens 2 t) (tree_ast t)"
proof (induction t)
  case (SBin bop a b)
  then have "g_expr (tree_tokens 0 (SBin bop a b)) (tree_ast (SBin bop a b))"
    by (cases bop) (auto simp: token_paren_def numeral_2_eq_2
        intro: g_expr_g_term_g_factor.intros factor_paren2)
  moreover have "g_term (tree_tokens 1 (SBin bop a b)) (tree_ast (SBin bop a b))"
    using SBin calculation by (cases bop) (auto simp: token_paren_def numeral_2_eq_2
        intro: g_expr_g_term_g_factor.intros factor_paren2)
  moreover have "g_factor (tree_tokens 2 (SBin bop a b)) (tree_ast (SBin bop a b))"
    using SBin calculation by (cases bop) (auto simp: token_paren_def numeral_2_eq_2
        intro: g_expr_g_term_g_factor.intros factor_paren2)
  ultimately show ?case by blast
qed (auto intro: g_expr_g_term_g_factor.intros)

text \<open>
  C26.  Print and evaluate: evaluating the text of any tree, printed with minimal parentheses,
  gives the tree's own value, or \<^verbatim>\<open>DivisionByZero\<close> when the tree divides by a zero.
\<close>

theorem calc_roundtrip:
  assumes "wf_tree t"
  shows "evaluate (show_tree 0 t) = eval_ast (tree_ast t)"
proof (rule evaluate_complete)
  show "tokenize (show_tree 0 t) = Inr (tree_tokens 0 t)"
    using tokenize_show_tree [OF assms, of "[]" 0 "[]"] by (simp add: tokenize_def)
  show "g_expr (tree_tokens 0 t) (tree_ast t)"
    using tree_derivation by blast
qed

lemma calc_roundtrip_witness:
  "evaluate (show_tree 0 (SBin Mul (SBin Add (SLit ''1.5'') (SLit ''2'')) (SNeg (SLit ''4''))))
     = eval_ast (tree_ast (SBin Mul (SBin Add (SLit ''1.5'') (SLit ''2'')) (SNeg (SLit ''4''))))"
  by (rule calc_roundtrip) code_simp

lemma calc_sample:
  "evaluate ''(1.5+2)*-4'' = Inr (Fin True 14)"
  "evaluate ''1 - 2 - 3'' = Inr (Fin True 4)"
  "evaluate ''1/(2-2)'' = Inl DivisionByZero"
  by code_simp+

end
