(* ===== verification/App_Indexer.thy ===== *)
theory App_Indexer
  imports Search_Server
begin

text \<open>
  Installed applications on Linux (\<^verbatim>\<open>search/app_indexer.rs\<close>): reading \<^verbatim>\<open>.desktop\<close> files, resolving
  icons, and replacing the applications table.  What the system answers about directories and files
  is an environment: \<open>None\<close> is an I/O error.
\<close>

section \<open>The code\<close>

datatype app_index_error = AiIo | AiDb db_error | AiParse string

text \<open>\<open>de_local\<close> is \<^verbatim>\<open>dirs::data_local_dir().unwrap_or_default()\<close>; an entry of a listing that cannot be
  read is \<open>None\<close>.\<close>

record desktop_env =
  de_local :: path
  de_exists :: "path \<Rightarrow> bool"
  de_list :: "path \<Rightarrow> string option list option"
  de_text :: "path \<Rightarrow> string option"

record desktop_scan =
  ds_name :: "string option"
  ds_exec :: "string option"
  ds_icon :: "string option"
  ds_inside :: bool

definition desktop_start :: desktop_scan where
  "desktop_start = \<lparr> ds_name = None, ds_exec = None, ds_icon = None, ds_inside = False \<rparr>"

text \<open>\<^verbatim>\<open>join(" ")\<close>\<close>

fun join_words :: "string list \<Rightarrow> string" where
  "join_words [] = []"
| "join_words [w] = w"
| "join_words (w # ws) = w @ CHR '' '' # join_words ws"

definition strip_field_codes :: "string \<Rightarrow> string" where
  "strip_field_codes raw = join_words (filter (\<lambda>s. \<not> starts_with ''%'' s) (split_whitespace raw))"

definition desktop_line :: "string \<Rightarrow> desktop_scan \<Rightarrow> (app_index_error, desktop_scan) res" where
  "desktop_line l0 s0 = (let line = trim l0 in
     if line = ''[Desktop Entry]'' then Inr (s0\<lparr>ds_inside := True\<rparr>)
     else let s = (if starts_with ''['' line then s0\<lparr>ds_inside := False\<rparr> else s0) in
       if \<not> ds_inside s then Inr s
       else case strip_prefix ''Name='' line of Some v \<Rightarrow> Inr (s\<lparr>ds_name := Some v\<rparr>)
       | None \<Rightarrow> case strip_prefix ''Exec='' line of Some raw \<Rightarrow> Inr (s\<lparr>ds_exec := Some (strip_field_codes raw)\<rparr>)
       | None \<Rightarrow> case strip_prefix ''Icon='' line of Some v \<Rightarrow> Inr (s\<lparr>ds_icon := Some v\<rparr>)
       | None \<Rightarrow> if starts_with ''NoDisplay=true'' line \<or> starts_with ''Hidden=true'' line then Inl (AiParse ''hidden app'')
         else if starts_with ''Type='' line \<and> \<not> contains ''Application'' line then Inl (AiParse ''not an application'')
         else Inr s)"

fun desktop_lines :: "string list \<Rightarrow> desktop_scan \<Rightarrow> (app_index_error, desktop_scan) res" where
  "desktop_lines [] s = Inr s"
| "desktop_lines (l # ls) s = bind_res (desktop_line l s) (desktop_lines ls)"

definition parse_desktop_content :: "string \<Rightarrow> string \<Rightarrow> (app_index_error, app_row) res" where
  "parse_desktop_content content source_path =
     bind_res (desktop_lines (str_lines content) desktop_start) (\<lambda>s.
       case (ds_name s, ds_exec s) of
         (Some n, Some e) \<Rightarrow> Inr \<lparr> ar_id = 0, ar_name = n, ar_exec = e, ar_icon_path = ds_icon s,
           ar_platform = ''linux'', ar_source_path = source_path \<rparr>
       | _ \<Rightarrow> Inl (AiParse ''missing Name or Exec''))"

definition resolve_icon :: "desktop_env \<Rightarrow> string \<Rightarrow> string option" where
  "resolve_icon e name = (if starts_with ''/'' name then (if de_exists e name then Some name else None)
     else List.find (de_exists e)
       [path_join (de_local e) (''icons/hicolor/48x48/apps/'' @ name @ ''.png''),
        path_join (de_local e) (''icons/hicolor/scalable/apps/'' @ name @ ''.svg''),
        ''/usr/share/icons/hicolor/48x48/apps/'' @ name @ ''.png'',
        ''/usr/share/icons/hicolor/scalable/apps/'' @ name @ ''.svg'',
        ''/usr/share/icons/hicolor/128x128/apps/'' @ name @ ''.png'',
        ''/usr/share/pixmaps/'' @ name @ ''.png'',
        ''/usr/share/pixmaps/'' @ name @ ''.svg''])"

definition parse_desktop_file :: "desktop_env \<Rightarrow> path \<Rightarrow> (app_index_error, app_row) res" where
  "parse_desktop_file e p = bind_res (ok_or AiIo (de_text e p)) (\<lambda>content.
     bind_res (parse_desktop_content content p) (\<lambda>app.
       Inr (app\<lparr>ar_icon_path := Option.bind (ar_icon_path app) (resolve_icon e)\<rparr>)))"

fun discover_entries :: "desktop_env \<Rightarrow> path \<Rightarrow> string option list \<Rightarrow> app_row list \<Rightarrow> (app_index_error, app_row list) res" where
  "discover_entries e dir [] apps = Inr apps"
| "discover_entries e dir (None # xs) apps = Inl AiIo"
| "discover_entries e dir (Some name # xs) apps = (let p = path_join dir name in
     if path_extension p \<noteq> Some ''desktop'' then discover_entries e dir xs apps
     else case parse_desktop_file e p of
       Inr app \<Rightarrow> discover_entries e dir xs (apps @ [app])
     | Inl _ \<Rightarrow> discover_entries e dir xs apps)"

fun discover_dirs :: "desktop_env \<Rightarrow> path list \<Rightarrow> app_row list \<Rightarrow> (app_index_error, app_row list) res" where
  "discover_dirs e [] apps = Inr apps"
| "discover_dirs e (dir # dirs) apps = (if \<not> de_exists e dir then discover_dirs e dirs apps
     else bind_res (ok_or AiIo (de_list e dir)) (\<lambda>xs.
       bind_res (discover_entries e dir xs apps) (discover_dirs e dirs)))"

definition discover :: "desktop_env \<Rightarrow> (app_index_error, app_row list) res" where
  "discover e = discover_dirs e [''/usr/share/applications'', path_join (de_local e) ''applications''] []"

type_synonym 'a apps_act = "(db, app_index_error, 'a) act"

fun store_apps :: "app_row list \<Rightarrow> unit apps_act" where
  "store_apps [] = act_ret ()"
| "store_apps (a # as) = act_then (act_ignore (upsert_app a)) (store_apps as)"

definition run_app_scan :: "desktop_env \<Rightarrow> nat apps_act" where
  "run_app_scan e = act_then (act_map_err AiDb clear_apps)
     (act_bind (act_lift (discover e)) (\<lambda>apps.
       act_then (store_apps apps) (act_ret (length apps))))"

section \<open>Words and field codes\<close>

lemma dropWhile_ws_word: "w \<noteq> [] \<Longrightarrow> \<not> is_ws (hd w) \<Longrightarrow> dropWhile is_ws (w @ r) = w @ r"
  by (cases w) auto

definition is_word :: "string \<Rightarrow> bool" where
  "is_word w \<longleftrightarrow> w \<noteq> [] \<and> list_all (\<lambda>c. \<not> is_ws c) w"

lemma split_word_rest:
  assumes "is_word w" "r = [] \<or> is_ws (hd r)"
  shows "split_whitespace (w @ r) = w # split_whitespace r"
proof -
  have d: "dropWhile is_ws (w @ r) = w @ r"
    using assms(1) by (intro dropWhile_ws_word) (auto simp: is_word_def list_all_iff)
  obtain c cs where wr: "w @ r = c # cs" using assms(1) by (cases w) (auto simp: is_word_def)
  have "takeWhile (\<lambda>x. \<not> is_ws x) (w @ r) = w" "dropWhile (\<lambda>x. \<not> is_ws x) (w @ r) = r"
    using assms by (cases r; auto simp: is_word_def list_all_iff takeWhile_append dropWhile_append)+
  moreover have "split_whitespace (w @ r)
      = takeWhile (\<lambda>x. \<not> is_ws x) (c # cs) # split_whitespace (dropWhile (\<lambda>x. \<not> is_ws x) (c # cs))"
    unfolding split_whitespace.simps [of "w @ r"] d unfolding wr by (simp only: list.case)
  ultimately show ?thesis unfolding wr by (simp only:)
qed

lemma split_whitespace_words: "list_all is_word (split_whitespace s)"
proof (induction s rule: split_whitespace.induct)
  case (1 s)
  show ?case
  proof (cases "dropWhile is_ws s")
    case Nil
    then show ?thesis unfolding split_whitespace.simps [of s] Nil by simp
  next
    case (Cons c cs)
    then have "\<not> is_ws c" by (metis hd_dropWhile list.distinct(1) list.sel(1))
    then have "is_word (takeWhile (\<lambda>x. \<not> is_ws x) (c # cs))"
      by (auto simp: is_word_def list_all_iff dest: set_takeWhileD)
    moreover have "split_whitespace s
        = takeWhile (\<lambda>x. \<not> is_ws x) (c # cs) # split_whitespace (dropWhile (\<lambda>x. \<not> is_ws x) (c # cs))"
      unfolding split_whitespace.simps [of s] Cons by (simp only: list.case)
    moreover have "list_all is_word (split_whitespace (dropWhile (\<lambda>x. \<not> is_ws x) (c # cs)))"
      by (rule 1 [OF Cons])
    ultimately show ?thesis by (simp only: list.pred_inject)
  qed
qed

lemma split_ws_space: "split_whitespace (CHR '' '' # s) = split_whitespace s"
proof -
  have "is_ws (CHR '' '')" by code_simp
  then have "dropWhile is_ws (CHR '' '' # s) = dropWhile is_ws s" by simp
  then show ?thesis by (subst (1 2) split_whitespace.simps) simp
qed

lemma split_join: "list_all is_word ws \<Longrightarrow> split_whitespace (join_words ws) = ws"
proof (induction ws rule: join_words.induct)
  case 1
  show ?case by (subst split_whitespace.simps) simp
next
  case (2 w)
  then show ?case using split_word_rest [of w "[]"] by (simp add: split_whitespace.simps [of "[]"])
next
  case (3 w v ws)
  then have "is_word w" "split_whitespace (join_words (v # ws)) = v # ws" by simp_all
  moreover have "is_ws (CHR '' '')" by code_simp
  ultimately show ?case using split_word_rest [of w "CHR '' '' # join_words (v # ws)"]
    by (simp add: split_ws_space)
qed

lemma strip_field_codes_words:
  "split_whitespace (strip_field_codes raw) = filter (\<lambda>s. \<not> starts_with ''%'' s) (split_whitespace raw)"
  unfolding strip_field_codes_def
  by (rule split_join) (use split_whitespace_words in \<open>auto simp: list_all_iff\<close>)

section \<open>What a desktop file means\<close>

text \<open>The trimmed lines of the \<^verbatim>\<open>[Desktop Entry]\<close> groups, without the headers.\<close>

fun group_lines :: "bool \<Rightarrow> string list \<Rightarrow> string list" where
  "group_lines inside [] = []"
| "group_lines inside (l # ls) = (if trim l = ''[Desktop Entry]'' then group_lines True ls
     else if starts_with ''['' (trim l) then group_lines False ls
     else if inside then trim l # group_lines inside ls
     else group_lines inside ls)"

definition last_value :: "string \<Rightarrow> string list \<Rightarrow> string option" where
  "last_value k ls = List.find (\<lambda>_. True) (rev (List.map_filter (strip_prefix k) ls))"

definition rejects :: "string \<Rightarrow> bool" where
  "rejects l \<longleftrightarrow> starts_with ''NoDisplay=true'' l \<or> starts_with ''Hidden=true'' l
     \<or> starts_with ''Type='' l \<and> \<not> contains ''Application'' l"

definition rejection :: "string \<Rightarrow> app_index_error" where
  "rejection l = AiParse (if starts_with ''Type='' l then ''not an application'' else ''hidden app'')"

definition entry_app :: "string list \<Rightarrow> string \<Rightarrow> app_row option" where
  "entry_app ls p = (case (last_value ''Name='' ls, last_value ''Exec='' ls) of
       (Some n, Some raw) \<Rightarrow> Some \<lparr> ar_id = 0, ar_name = n, ar_exec = strip_field_codes raw,
         ar_icon_path = last_value ''Icon='' ls, ar_platform = ''linux'', ar_source_path = p \<rparr>
     | _ \<Rightarrow> None)"

definition or_else :: "'a option \<Rightarrow> 'a option \<Rightarrow> 'a option" where
  "or_else a b = (case a of Some v \<Rightarrow> Some v | None \<Rightarrow> b)"

lemma or_else_simps [simp]: "or_else None b = b" "or_else (Some v) b = Some v" "or_else a None = a"
  "or_else (or_else a b) c = or_else a (or_else b c)" "map_option f (or_else a b) = or_else (map_option f a) (map_option f b)"
  by (simp_all add: or_else_def split: option.split)

lemma last_value_Nil [simp]: "last_value k [] = None"
  by (simp add: last_value_def map_filter_simps)

lemma last_value_Cons [simp]: "last_value k (l # ls) = or_else (last_value k ls) (strip_prefix k l)"
  by (simp add: last_value_def or_else_def map_filter_simps find_append split: option.split)

lemma prefixes_disjoint:
  assumes "rejects l"
  shows "strip_prefix ''Name='' l = None" "strip_prefix ''Exec='' l = None" "strip_prefix ''Icon='' l = None"
  using assms by (auto simp: rejects_def starts_with_iff strip_prefix_def)

definition set_keys :: "string \<Rightarrow> desktop_scan \<Rightarrow> desktop_scan" where
  "set_keys l s = s\<lparr>ds_name := or_else (strip_prefix ''Name='' l) (ds_name s),
     ds_exec := or_else (map_option strip_field_codes (strip_prefix ''Exec='' l)) (ds_exec s),
     ds_icon := or_else (strip_prefix ''Icon='' l) (ds_icon s)\<rparr>"

lemma keys_disjoint:
  "strip_prefix ''Name='' l = Some v \<Longrightarrow> strip_prefix ''Exec='' l = None \<and> strip_prefix ''Icon='' l = None"
  "strip_prefix ''Exec='' l = Some v \<Longrightarrow> strip_prefix ''Icon='' l = None"
  by (auto simp: strip_prefix_Some) (auto simp: strip_prefix_def starts_with_def)

lemma rejects_cases:
  assumes "strip_prefix ''Name='' l = None" "strip_prefix ''Exec='' l = None" "strip_prefix ''Icon='' l = None"
  shows "(if starts_with ''NoDisplay=true'' l \<or> starts_with ''Hidden=true'' l then Inl (AiParse ''hidden app'')
     else if starts_with ''Type='' l \<and> \<not> contains ''Application'' l then Inl (AiParse ''not an application'')
     else Inr s) = (if rejects l then Inl (rejection l) else Inr s)"
  by (auto simp: rejects_def rejection_def starts_with_iff)

lemma desktop_line_inside:
  assumes "trim l \<noteq> ''[Desktop Entry]''" "\<not> starts_with ''['' (trim l)" "ds_inside s"
  shows "desktop_line l s = (if rejects (trim l) then Inl (rejection (trim l)) else Inr (set_keys (trim l) s))"
proof -
  let ?l = "trim l"
  have start: "desktop_line l s = (case strip_prefix ''Name='' ?l of Some v \<Rightarrow> Inr (s\<lparr>ds_name := Some v\<rparr>)
     | None \<Rightarrow> case strip_prefix ''Exec='' ?l of Some raw \<Rightarrow> Inr (s\<lparr>ds_exec := Some (strip_field_codes raw)\<rparr>)
     | None \<Rightarrow> case strip_prefix ''Icon='' ?l of Some v \<Rightarrow> Inr (s\<lparr>ds_icon := Some v\<rparr>)
     | None \<Rightarrow> if starts_with ''NoDisplay=true'' ?l \<or> starts_with ''Hidden=true'' ?l then Inl (AiParse ''hidden app'')
         else if starts_with ''Type='' ?l \<and> \<not> contains ''Application'' ?l then Inl (AiParse ''not an application'')
         else Inr s)"
    unfolding desktop_line_def Let_def if_not_P [OF assms(1)] if_not_P [OF assms(2)]
    by (simp only: assms(3) not_True_eq_False if_False)
  show ?thesis
  proof (cases "strip_prefix ''Name='' ?l = None \<and> strip_prefix ''Exec='' ?l = None \<and> strip_prefix ''Icon='' ?l = None")
    case True
    then show ?thesis unfolding start using rejects_cases [of ?l s] by (simp add: set_keys_def)
  next
    case False
    then have "\<not> rejects ?l" using prefixes_disjoint by blast
    with False show ?thesis
      unfolding start set_keys_def using keys_disjoint [of ?l] by (auto split: option.split)
  qed
qed

lemma desktop_lines_spec:
  "case List.find rejects (group_lines (ds_inside s) ls) of
     Some l \<Rightarrow> desktop_lines ls s = Inl (rejection l)
   | None \<Rightarrow> \<exists>t. desktop_lines ls s = Inr t
       \<and> ds_name t = or_else (last_value ''Name='' (group_lines (ds_inside s) ls)) (ds_name s)
       \<and> ds_exec t = or_else (map_option strip_field_codes (last_value ''Exec='' (group_lines (ds_inside s) ls))) (ds_exec s)
       \<and> ds_icon t = or_else (last_value ''Icon='' (group_lines (ds_inside s) ls)) (ds_icon s)"
proof (induction ls arbitrary: s)
  case (Cons l ls)
  consider "trim l = ''[Desktop Entry]''" | "trim l \<noteq> ''[Desktop Entry]''" "starts_with ''['' (trim l)"
    | "trim l \<noteq> ''[Desktop Entry]''" "\<not> starts_with ''['' (trim l)" "\<not> ds_inside s"
    | "trim l \<noteq> ''[Desktop Entry]''" "\<not> starts_with ''['' (trim l)" "ds_inside s" by blast
  then show ?case
  proof cases
    case 1
    then have "desktop_line l s = Inr (s\<lparr>ds_inside := True\<rparr>)" by (simp add: desktop_line_def)
    with Cons.IH [of "s\<lparr>ds_inside := True\<rparr>"] 1 show ?thesis by (simp split: option.splits)
  next
    case 2
    then have "desktop_line l s = Inr (s\<lparr>ds_inside := False\<rparr>)" by (simp add: desktop_line_def Let_def)
    with Cons.IH [of "s\<lparr>ds_inside := False\<rparr>"] 2 show ?thesis by (simp split: option.splits)
  next
    case 3
    then have "desktop_line l s = Inr s" by (simp add: desktop_line_def Let_def)
    with Cons.IH [of s] 3 show ?thesis by (simp split: option.splits)
  next
    case 4
    have "ds_inside (set_keys (trim l) s) = ds_inside s" by (simp add: set_keys_def)
    with Cons.IH [of "set_keys (trim l) s"] 4 desktop_line_inside [OF 4] show ?thesis
      by (simp add: set_keys_def split: option.splits)
  qed
qed simp

lemma parse_desktop_lines:
  "parse_desktop_content content p = (case List.find rejects (group_lines False (str_lines content)) of Some l \<Rightarrow> Inl (rejection l)
     | None \<Rightarrow> ok_or (AiParse ''missing Name or Exec'') (entry_app (group_lines False (str_lines content)) p))"
  using desktop_lines_spec [of "str_lines content" desktop_start]
  by (auto simp: parse_desktop_content_def desktop_start_def entry_app_def split: option.splits)

text \<open>
  The parser of desktop files computes what the file says: over the lines of its
  \<^verbatim>\<open>[Desktop Entry]\<close> groups, the first line that hides the entry or gives it another type decides
  the rejection; otherwise the last name, the last command without its field codes and the last icon
  make the application, and a file without a name or a command is an error.
\<close>

theorem desktop_entry_spec:
  "parse_desktop_content content p = (let ls = group_lines False (str_lines content) in
     case List.find rejects ls of Some l \<Rightarrow> Inl (rejection l)
     | None \<Rightarrow> ok_or (AiParse ''missing Name or Exec'') (entry_app ls p))"
  by (simp add: Let_def parse_desktop_lines)

section \<open>Launching what was parsed\<close>

text \<open>
  C37.  What an application row launches is its file's last command: launching a parsed application
  starts the first word of that \<^verbatim>\<open>Exec\<close> line which is not a field code with the remaining such words
  as arguments, and nothing else; a command of field codes only is an error.
\<close>

theorem launch_runs_exec_line:
  fixes w :: "'c srv_world"
  assumes "parse_desktop_content content p = Inr app" "sv_spawn_faults w = []"
  shows "\<exists>raw. last_value ''Exec='' (group_lines False (str_lines content)) = Some raw
    \<and> launch_app et (ar_exec app) w = (case filter (\<lambda>s. \<not> starts_with ''%'' s) (split_whitespace raw) of
        [] \<Rightarrow> (Inl ''empty exec'', w)
      | prog # args \<Rightarrow> (Inr (), w\<lparr>sv_spawned := sv_spawned w @ [(prog, args)]\<rparr>))"
proof -
  let ?ls = "group_lines False (str_lines content)"
  have "entry_app ?ls p = Some app" using assms(1) by (auto simp: parse_desktop_lines split: option.splits)
  then obtain raw where raw: "last_value ''Exec='' ?ls = Some raw" "ar_exec app = strip_field_codes raw"
    by (auto simp: entry_app_def split: option.splits)
  have same: "w\<lparr>sv_spawn_faults := []\<rparr> = w" using assms(2) by simp
  show ?thesis
    by (rule exI [of _ raw]) (simp add: raw launch_app_def strip_field_codes_words assms(2) same Let_def split: list.split)
qed

section \<open>Replacing the table\<close>

definition store_app :: "app_row \<Rightarrow> db \<Rightarrow> db" where
  "store_app r d = d\<lparr>applications := delete_by ar_source_path (ar_source_path r) (applications d) @ [r\<lparr>ar_id := next_app d\<rparr>],
     next_app := next_app d + 1\<rparr>"

definition app_at :: "db \<Rightarrow> path \<Rightarrow> app_row option" where
  "app_at d p = map_option (\<lambda>r. r\<lparr>ar_id := 0\<rparr>) (List.find (\<lambda>r. ar_source_path r = p) (applications d))"

lemma app_at_store: "app_at (store_app r d) p = (if ar_source_path r = p then Some (r\<lparr>ar_id := 0\<rparr>) else app_at d p)"
  by (simp add: app_at_def store_app_def find_append find_delete_by split: option.split)

lemma store_apps_ok: "faults d = [] \<Longrightarrow> store_apps as d = (Inr (), fold store_app as d) \<and> faults (fold store_app as d) = []"
proof (induction as arbitrary: d)
  case (Cons a as)
  have "upsert_app a d = (Inr (), store_app a d)" "faults (store_app a d) = []"
    using Cons.prems by (simp_all add: upsert_app_def execute_no_faults store_app_def)
  with Cons.IH [of "store_app a d"] show ?case by (simp add: act_simps)
qed (simp add: act_simps)

lemma app_at_stores:
  "app_at (fold store_app as d) p = (case List.find (\<lambda>a. ar_source_path a = p) (rev as) of
     Some a \<Rightarrow> Some (a\<lparr>ar_id := 0\<rparr>) | None \<Rightarrow> app_at d p)"
  by (induction as arbitrary: d) (simp_all add: app_at_store find_append split: option.split)

text \<open>
  C38.  A scan replaces the applications: unless a statement fails, the table afterwards has for
  each source path the last application discovered there, and no other row, and the scan reports how
  many were discovered; when the discovery fails, the table is left empty.
\<close>

theorem app_scan_replaces:
  assumes "faults d = []"
  shows "case discover e of
      Inl err \<Rightarrow> run_app_scan e d = (Inl err, d\<lparr>applications := []\<rparr>)
    | Inr apps \<Rightarrow> fst (run_app_scan e d) = Inr (length apps)
        \<and> app_at (snd (run_app_scan e d)) p = map_option (\<lambda>a. a\<lparr>ar_id := 0\<rparr>) (List.find (\<lambda>a. ar_source_path a = p) (rev apps))"
proof -
  have c: "clear_apps d = (Inr (), d\<lparr>applications := []\<rparr>)"
    using assms by (simp add: clear_apps_def execute_no_faults)
  show ?thesis
  proof (cases "discover e")
    case (Inl err)
    then show ?thesis by (simp add: run_app_scan_def act_simps c)
  next
    case (Inr apps)
    have "store_apps apps (d\<lparr>applications := []\<rparr>) = (Inr (), fold store_app apps (d\<lparr>applications := []\<rparr>))"
      using store_apps_ok [of "d\<lparr>applications := []\<rparr>" apps] assms by simp
    moreover have "app_at (d\<lparr>applications := []\<rparr>) p = None" by (simp add: app_at_def)
    ultimately show ?thesis
      using Inr by (simp add: run_app_scan_def act_simps c app_at_stores split: option.split)
  qed
qed

section \<open>On a concrete machine\<close>

definition toy_desktop :: string where
  "toy_desktop = concat (map (\<lambda>l. l @ [CHR 0x0A])
     [''[Desktop Entry]'', ''Name=Editor'', ''Exec=edit --wait %F'', ''[Desktop Action new]'', ''Name=New Window''])"

definition toy_env :: desktop_env where
  "toy_env = \<lparr> de_local = ''/home/me'', de_exists = (\<lambda>p. p = ''/usr/share/applications''),
     de_list = (\<lambda>p. Some [Some ''edit.desktop'', Some ''README'']), de_text = (\<lambda>p. Some toy_desktop) \<rparr>"

definition toy_editor :: app_row where
  "toy_editor = \<lparr> ar_id = 0, ar_name = ''Editor'', ar_exec = ''edit --wait'', ar_icon_path = None, ar_platform = ''linux'',
     ar_source_path = ''/usr/share/applications/edit.desktop'' \<rparr>"

definition toy_desk :: "unit srv_world" where
  "toy_desk = \<lparr> w_conn = \<lparr> c_in = [], c_out = [], c_faults = [] \<rparr>, w_db = db_empty, w_seed = 0,
     sw_trie = trie_new, sw_bloom = \<lparr> bit_words = [0], hashes = 1, size_bits = 64, bloom_capacity = 1 \<rparr>, sw_cache = (),
     sw_index = \<lparr> ix_writer = [], ix_committed = [], ix_docs = [], ix_faults = [] \<rparr>,
     sv_fs = \<lparr> fs_nodes = (\<lambda>_. None), fs_canon = Some, fs_faults = [] \<rparr>, sv_spawned = [], sv_spawn_faults = [],
     sv_dials = [], sv_dialed = [] \<rparr>"

lemma toy_parses: "parse_desktop_content toy_desktop ''/usr/share/applications/edit.desktop'' = Inr toy_editor"
  by code_simp

lemma toy_exec: "last_value ''Exec='' (group_lines False (str_lines toy_desktop)) = Some ''edit --wait %F''"
  by code_simp

lemma launch_runs_exec_line_witness:
  "sv_spawned (snd (launch_app \<lparr> et_db = (\<lambda>_. []), et_trust = (\<lambda>_. []), et_search = (\<lambda>_. []), et_session = (\<lambda>_. []),
     et_json = [], et_io = [] \<rparr> ''edit --wait'' toy_desk)) = [(''edit'', [''--wait''])]"
proof -
  have f: "sv_spawn_faults toy_desk = []" "sv_spawned toy_desk = []" by (simp_all add: toy_desk_def)
  have e: "ar_exec toy_editor = ''edit --wait''" by (simp add: toy_editor_def)
  have w: "filter (\<lambda>s. \<not> starts_with ''%'' s) (split_whitespace ''edit --wait %F'') = [''edit'', ''--wait'']" by code_simp
  from launch_runs_exec_line [OF toy_parses f(1)] show ?thesis
    by (simp add: toy_exec w f(2) e)
qed

lemma toy_discovers: "discover toy_env = Inr [toy_editor]"
  by code_simp

lemma app_scan_replaces_witness:
  "fst (run_app_scan toy_env db_empty) = Inr 1
    \<and> app_at (snd (run_app_scan toy_env db_empty)) ''/usr/share/applications/edit.desktop'' = Some toy_editor"
proof -
  have "faults db_empty = []" by (simp add: db_empty_def)
  from app_scan_replaces [OF this, of toy_env "''/usr/share/applications/edit.desktop''"] show ?thesis
    by (simp add: toy_discovers) (simp add: toy_editor_def)
qed

text \<open>The command is split at blanks without regard to quotes, so a quoted program with a blank in its
  path is not the program that is started.\<close>

lemma quoted_exec_splits:
  "split_whitespace (strip_field_codes (CHR 0x22 # ''/opt/My App/run'' @ [CHR 0x22] @ '' %U'')) = [CHR 0x22 # ''/opt/My'', ''App/run'' @ [CHR 0x22]]"
  by code_simp

end
