(* ===== verification/Ipc_Server.thy ===== *)
theory Ipc_Server
  imports Transfer_Safety Discovery
begin

text \<open>
  The loopback HTTP server for the clipboard companion (\<^verbatim>\<open>ipc/server.rs\<close>).  Routing and body parsing are
  the web framework's: a request arrives parsed.  The answer to a clip is given at once, the transfer
  it starts is a task of its own that runs later; the temporary file belongs to the task.
\<close>

section \<open>Requests and responses\<close>

definition IPC_PORT :: "16 word" where "IPC_PORT = 57321"

datatype ip_addr = V4 byte byte byte byte | V6 "16 word list"

text \<open>\<^verbatim>\<open>IpAddr::is_loopback\<close>: 127.0.0.0/8 and ::1.\<close>

definition is_loopback :: "ip_addr \<Rightarrow> bool" where
  "is_loopback a = (case a of V4 b _ _ _ \<Rightarrow> b = 127 | V6 ws \<Rightarrow> ws = [0, 0, 0, 0, 0, 0, 0, 1])"

record clip_send_request =
  cs_peer_id :: string
  cs_content :: string
  cs_content_type :: string

datatype ipc_request = GetHealth | GetPeers | PostClip clip_send_request

record ipc_peer =
  ip_id :: string
  ip_name :: string
  ip_ip :: string
  ip_port :: "16 word"
  ip_online :: bool
  ip_last_seen :: string

text \<open>Bodies; each also carries \<^verbatim>\<open>"api_version": "1"\<close>.\<close>

datatype ipc_body =
    HealthBody string string
  | PeersBody "ipc_peer list"
  | ErrorBody string string
  | QueuedBody string string

type_synonym ipc_response = "nat \<times> ipc_body option"

record clip_task =
  ct_transfer_id :: string
  ct_peer_id :: string
  ct_path :: path
  ct_peer_name :: string

definition FORBIDDEN :: nat where "FORBIDDEN = 403"

definition check_loopback :: "ip_addr \<Rightarrow> (nat, unit) res" where
  "check_loopback a = (if is_loopback a then Inr () else Inl FORBIDDEN)"

definition health_handler :: "string \<Rightarrow> ipc_response" where
  "health_handler version = (200, Some (HealthBody version ''ok''))"

definition peers_response :: "string \<Rightarrow> peer list \<Rightarrow> string list \<Rightarrow> ipc_body" where
  "peers_response now peers trusted_ids = PeersBody (map (\<lambda>p. \<lparr> ip_id = pe_device_id p, ip_name = pe_device_name p,
     ip_ip = pe_ip p, ip_port = TRANSFER_PORT, ip_online = True, ip_last_seen = now \<rparr>)
     (filter (\<lambda>p. pe_device_id p \<in> set trusted_ids) peers))"

definition peers_handler :: "string \<Rightarrow> peer_map \<Rightarrow> string list \<Rightarrow> ipc_response" where
  "peers_handler now pm trusted_ids = (200, Some (peers_response now (list_peers pm) trusted_ids))"

definition api_error :: "nat \<Rightarrow> string \<Rightarrow> string \<Rightarrow> ipc_response" where
  "api_error st err msg = (st, Some (ErrorBody err msg))"

definition validate_and_resolve :: "ext \<Rightarrow> clip_send_request \<Rightarrow> peer_map \<Rightarrow> string list \<Rightarrow> (nat \<times> string \<times> string, peer) res" where
  "validate_and_resolve x body pm trusted_ids =
     (if cs_content_type body \<noteq> ''text''
      then Inl (422, ''unsupported_content_type'', ''Only content_type 'text' is supported in v1'')
      else if cs_peer_id body = [] \<or> cs_content body = []
      then Inl (422, ''missing_fields'', ''peer_id and content are required'')
      else bind_res (ok_or (404, ''peer_not_found'', ''Invalid peer_id format'') (x_uuid_parse x (cs_peer_id body))) (\<lambda>uuid.
        bind_res (ok_or (404, ''peer_not_found'', ''No peer with that ID is currently online'')
          (List.find (\<lambda>p. pe_device_id p = uuid) (list_peers pm))) (\<lambda>peer.
        if pe_device_id peer \<notin> set trusted_ids
        then Inl (404, ''peer_not_found'', ''Peer is not trusted. Pair the device first.'')
        else Inr peer)))"

section \<open>The temporary file\<close>

definition clip_dir :: "path \<Rightarrow> path" where
  "clip_dir tmp = path_join tmp ''synapt-clips''"

definition clip_path :: "path \<Rightarrow> string \<Rightarrow> path" where
  "clip_path tmp tid = path_join (clip_dir tmp) (tid @ ''.txt'')"

text \<open>\<^verbatim>\<open>Drop\<close>: an error is only logged.\<close>

definition clip_drop :: "path \<Rightarrow> (fs, 'e, unit) act" where
  "clip_drop p = act_ignore (remove_file p)"

text \<open>When writing fails the guard is dropped on the early return.\<close>

definition clip_create :: "path \<Rightarrow> string \<Rightarrow> string \<Rightarrow> path fs_act" where
  "clip_create tmp tid content = (let p = clip_path tmp tid in
     act_then (create_dir_all (clip_dir tmp))
     (act_then (file_create_new p)
     (act_bind (act_try (file_write p 0 (utf8 content))) (\<lambda>r. case r of
        Inr _ \<Rightarrow> act_ret p
      | Inl e \<Rightarrow> act_then (clip_drop p) (act_err e)))))"

definition send_temp_clip :: "path \<Rightarrow> unit x_act \<Rightarrow> unit x_act" where
  "send_temp_clip p transfer = act_bind (act_try transfer) (\<lambda>r.
     act_then (on_fs (clip_drop p)) (act_lift r))"

section \<open>Handlers\<close>

definition clips_send_handler :: "ext \<Rightarrow> path \<Rightarrow> peer_map \<Rightarrow> string list \<Rightarrow> clip_send_request
    \<Rightarrow> (ipc_response \<times> clip_task option) x_act" where
  "clips_send_handler x tmp pm trusted_ids body = (case validate_and_resolve x body pm trusted_ids of
       Inl (st, err, msg) \<Rightarrow> act_ret (api_error st err msg, None)
     | Inr peer \<Rightarrow> act_bind x_draw (\<lambda>seed. let tid = x_uuid_new x seed in
         act_bind (act_try (on_fs (clip_create tmp tid (cs_content body)))) (\<lambda>r. case r of
           Inl _ \<Rightarrow> act_ret (api_error 503 ''transfer_unavailable'' ''Could not prepare clip for transfer'', None)
         | Inr p \<Rightarrow> act_ret ((202, Some (QueuedBody tid ''queued'')),
             Some \<lparr> ct_transfer_id = tid, ct_peer_id = pe_device_id peer, ct_path = p, ct_peer_name = pe_device_name peer \<rparr>))))"

definition ipc_handle :: "ext \<Rightarrow> path \<Rightarrow> string \<Rightarrow> string \<Rightarrow> peer_map \<Rightarrow> string list \<Rightarrow> ip_addr \<Rightarrow> ipc_request
    \<Rightarrow> (ipc_response \<times> clip_task option) x_act" where
  "ipc_handle x tmp version now pm trusted_ids addr req = (case check_loopback addr of
       Inl st \<Rightarrow> act_ret ((st, None), None)
     | Inr _ \<Rightarrow> (case req of
         GetHealth \<Rightarrow> act_ret (health_handler version, None)
       | GetPeers \<Rightarrow> act_ret (peers_handler now pm trusted_ids, None)
       | PostClip body \<Rightarrow> clips_send_handler x tmp pm trusted_ids body))"

text \<open>The spawned task; \<open>timed_out\<close> and \<open>expire\<close> are those of \<open>push_clip_file\<close>.\<close>

definition run_clip_task :: "ext \<Rightarrow> transfer_json \<Rightarrow> local_identity \<Rightarrow> bool \<Rightarrow> (xfer \<Rightarrow> xfer) \<Rightarrow> clip_task \<Rightarrow> unit x_act" where
  "run_clip_task x j identity timed_out expire t = act_ignore (send_temp_clip (ct_path t)
     (push_clip_file x j identity timed_out expire (ct_transfer_id t) (ct_peer_id t) (ct_path t) (ct_peer_name t)))"

section \<open>Who is served, and to whom clips go\<close>

lemma validate_Inr:
  assumes "validate_and_resolve x body pm trusted_ids = Inr p"
  shows "cs_content_type body = ''text'' \<and> cs_content body \<noteq> [] \<and> x_uuid_parse x (cs_peer_id body) = Some (pe_device_id p)
    \<and> p \<in> set (list_peers pm) \<and> pe_device_id p \<in> set trusted_ids"
  using assms find_Some_mem
  by (auto simp: validate_and_resolve_def bind_res_eq_Inr split: if_splits dest: find_Some_mem)

lemma fs_call_Inr: "fs_call m s = (Inr a, t) \<Longrightarrow> m (s\<lparr>fs_faults := tl (fs_faults s)\<rparr>) = (Inr a, t)"
  by (auto simp: fs_call_def Let_def split: if_splits)

lemma write_new_file: "write_at 0 b [] = b"
  by (simp add: write_at_def)

text \<open>A plain id makes a file of its own in the clip directory.\<close>

definition uuid_plain :: "ext \<Rightarrow> bool" where
  "uuid_plain x \<longleftrightarrow> (\<forall>n. CHR ''/'' \<notin> set (x_uuid_new x n))"

lemma clip_path_not_dir: "CHR ''/'' \<notin> set tid \<Longrightarrow> clip_path tmp tid \<noteq> clip_dir tmp"
proof -
  assume "CHR ''/'' \<notin> set tid"
  then have "\<not> is_absolute (tid @ ''.txt'')" by (cases tid) (auto simp: is_absolute_def)
  then show ?thesis by (simp add: clip_path_def path_join_def)
qed

lemma clip_create_Inr:
  assumes "clip_create tmp tid content s = (Inr p, t)"
  shows "p = clip_path tmp tid \<and> fs_nodes t p = Some (FileNode (utf8 content))
    \<and> (q \<noteq> p \<longrightarrow> q \<noteq> clip_dir tmp \<longrightarrow> fs_nodes t q = fs_nodes s q)
    \<and> (p \<noteq> clip_dir tmp \<longrightarrow> fs_nodes s p = None)
    \<and> (fs_faults s = [] \<longrightarrow> fs_faults t = [])"
proof -
  let ?p = "clip_path tmp tid"
  obtain a u b v r w where st: "create_dir_all (clip_dir tmp) s = (Inr a, u)" "file_create_new ?p u = (Inr b, v)"
    "file_write ?p 0 (utf8 content) v = (Inr r, w)" and e: "p = ?p" "t = w"
    using assms unfolding clip_create_def Let_def
    by (auto simp: act_simps split: prod.splits sum.splits)
  have u: "fs_nodes u q = fs_nodes s q" if "q \<noteq> clip_dir tmp" for q
    using st(1) that by (auto simp: create_dir_all_def dest!: fs_call_Inr split: option.splits node.splits)
  have v: "fs_nodes u ?p = None" "fs_nodes v = (fs_nodes u)(?p \<mapsto> FileNode [])"
    using st(2) by (auto simp: file_create_new_def dest!: fs_call_Inr split: option.splits)
  have w: "fs_nodes w = (fs_nodes v)(?p \<mapsto> FileNode (utf8 content))"
    using st(3) v(2) by (auto simp: file_write_def write_new_file dest!: fs_call_Inr split: option.splits node.splits)
  have "fs_faults s = [] \<longrightarrow> fs_faults w = []"
    using st by (auto simp: create_dir_all_def file_create_new_def file_write_def dest!: fs_call_Inr split: option.splits node.splits)
  with e u v w show ?thesis by auto
qed

text \<open>
  C9.  The interface serves the local machine only and hands out only paired devices: a request from
  elsewhere is answered 403 and changes nothing; the peer list shows only peers that are online and
  trusted; and a clip is accepted only as text for a peer that is online, trusted and named by its id
  in the request, with the clip's bytes in the file the transfer will send.
\<close>

theorem ipc_guarded:
  assumes "ipc_handle x tmp version now pm trusted_ids addr req w = (Inr (resp, task), w')"
  shows "if \<not> is_loopback addr then resp = (403, None) \<and> task = None \<and> w' = w
    else (case snd resp of Some (PeersBody ps) \<Rightarrow>
        list_all (\<lambda>e. ip_id e \<in> set trusted_ids \<and> ip_id e \<in> pe_device_id ` set (list_peers pm)) ps | _ \<Rightarrow> True)
      \<and> (case task of None \<Rightarrow> True | Some t \<Rightarrow> \<exists>body p. req = PostClip body \<and> cs_content_type body = ''text''
          \<and> p \<in> set (list_peers pm) \<and> pe_device_id p \<in> set trusted_ids \<and> ct_peer_id t = pe_device_id p
          \<and> x_uuid_parse x (cs_peer_id body) = Some (pe_device_id p)
          \<and> fs_nodes (x_fs w') (ct_path t) = Some (FileNode (utf8 (cs_content body))))"
proof (cases "is_loopback addr")
  case False
  with assms show ?thesis by (auto simp: ipc_handle_def check_loopback_def FORBIDDEN_def act_simps)
next
  case lo: True
  show ?thesis
  proof (cases req)
    case (PostClip body)
    with assms lo have run: "clips_send_handler x tmp pm trusted_ids body w = (Inr (resp, task), w')"
      by (simp add: ipc_handle_def check_loopback_def)
    show ?thesis
    proof (cases "validate_and_resolve x body pm trusted_ids")
      case (Inl a)
      with run lo show ?thesis by (cases a) (auto simp: clips_send_handler_def api_error_def act_simps)
    next
      case (Inr p)
      let ?tid = "x_uuid_new x (w_seed w)"
      obtain r s where c: "clip_create tmp ?tid (cs_content body) (x_fs w) = (r, s)" by fastforce
      show ?thesis
      proof (cases r)
        case (Inl e)
        with run c \<open>validate_and_resolve x body pm trusted_ids = Inr p\<close> lo show ?thesis
          by (auto simp: clips_send_handler_def api_error_def act_simps Let_def)
      next
        case (Inr q)
        with run c \<open>validate_and_resolve x body pm trusted_ids = Inr p\<close>
        have "resp = (202, Some (QueuedBody ?tid ''queued''))" "x_fs w' = s"
          "task = Some \<lparr> ct_transfer_id = ?tid, ct_peer_id = pe_device_id p, ct_path = q, ct_peer_name = pe_device_name p \<rparr>"
          by (auto simp: clips_send_handler_def act_simps Let_def)
        with clip_create_Inr [OF c [unfolded Inr]] validate_Inr [OF \<open>validate_and_resolve x body pm trusted_ids = Inr p\<close>] PostClip lo
        show ?thesis by auto
      qed
    qed
  qed (use assms lo in \<open>auto simp: ipc_handle_def check_loopback_def health_handler_def peers_handler_def peers_response_def
      act_simps list_all_iff\<close>)
qed

section \<open>No clip is left behind\<close>

definition files_idle :: "(path \<Rightarrow> node option) \<Rightarrow> xfer \<Rightarrow> bool" where
  "files_idle f w \<longleftrightarrow> fs_nodes (x_fs w) = f \<and> fs_faults (x_fs w) = []"

lemma idle_primitives [keeps_intros]:
  "keeps (files_idle f) (x_db m)" "keeps (files_idle f) (on_queue g)" "keeps (files_idle f) (emit e)"
  "keeps (files_idle f) x_draw" "keeps (files_idle f) x_now" "keeps (files_idle f) (on_session (on_conn k))"
  "keeps (files_idle f) connect"
  by (auto simp: keeps_def files_idle_def act_simps connect_def split: prod.splits list.splits option.splits)

lemma idle_files [keeps_intros]:
  "keeps (files_idle f) (on_fs (file_open p))" "keeps (files_idle f) (on_fs (file_read p))" "keeps (files_idle f) (on_fs (file_metadata p))"
  by (auto simp: keeps_def files_idle_def act_simps file_open_def file_read_def file_metadata_def fs_call_def Let_def
      split: option.splits node.splits)

lemma idle_wire [keeps_intros]:
  "keeps (files_idle f) (send_bytes x key b)" "keeps (files_idle f) (recv_bytes x key)"
  "keeps (files_idle f) (send_msg x j key m)" "keeps (files_idle f) (recv_msg x j key)"
  "keeps (files_idle f) (sha256_of_file x p)" "keeps (files_idle f) (peer_key i)"
  unfolding send_bytes_def recv_bytes_def send_msg_def recv_msg_def sha256_of_file_def peer_key_def
  by (auto intro!: keeps_intros)

lemma idle_session [keeps_intros]: "keeps (files_idle f) m \<Longrightarrow> keeps (files_idle f) (on_session m)"
  unfolding on_session_def by (rule keeps_intros)

lemma idle_conn [keeps_intros]: "keeps (files_idle f) (on_conn m)"
  by (auto simp: keeps_def files_idle_def on_conn_def split: prod.splits)

lemma idle_handshake [keeps_intros]: "keeps (files_idle f) (session_handshake_client x j i ident k)"
  unfolding session_handshake_client_def by (auto intro!: keeps_intros split: server_hello.split)

lemma idle_push_chunks [keeps_intros]:
  "(\<And>n. keeps (files_idle f) (progress n)) \<Longrightarrow> keeps (files_idle f) (push_chunks x key progress cs n)"
  by (induction cs arbitrary: n) (auto simp: Let_def intro!: keeps_intros)

lemma idle_push [keeps_intros]: "keeps (files_idle f) (push_one_file x j identity tid p k name)"
  unfolding push_one_file_def send_push_payload_def Let_def
  by (auto intro!: keeps_intros split: node.split transfer_msg.split)

text \<open>Abandoning a push at its deadline leaves the files as they are: a push only reads them.\<close>

definition spares_files :: "(xfer \<Rightarrow> xfer) \<Rightarrow> bool" where
  "spares_files g \<longleftrightarrow> (\<forall>w. x_fs (g w) = x_fs w)"

lemma idle_push_clip [keeps_intros]:
  assumes "spares_files g"
  shows "keeps (files_idle f) (push_clip_file x j identity late g tid i p name)"
proof -
  have "keeps (files_idle f) (act_mod g)"
    using assms by (intro keeps_mod) (simp add: files_idle_def spares_files_def)
  then show ?thesis
    unfolding push_clip_file_def by (auto intro!: keeps_intros split: sum.split)
qed

text \<open>
  C10.  No clip stays on the disk: unless the file system fails, however the transfer ends (delivered,
  refused, the connection lost at any point, or abandoned at the deadline), once the task of an
  accepted clip has run its temporary file is gone and every other file is as it was before the
  request.
\<close>

theorem clip_file_removed:
  assumes "uuid_plain x" "fs_faults (x_fs w) = []" "spares_files g"
    and "ipc_handle x tmp version now pm trusted_ids addr req w = (Inr (resp, Some t), w1)"
    and "run_clip_task x j identity late g t w1 = (r, w2)"
  shows "fs_nodes (x_fs w2) (ct_path t) = None \<and> (q \<noteq> clip_dir tmp \<longrightarrow> fs_nodes (x_fs w2) q = fs_nodes (x_fs w) q)"
proof -
  let ?tid = "x_uuid_new x (w_seed w)" and ?p = "ct_path t"
  obtain body p where lo: "is_loopback addr" and req: "req = PostClip body" and v: "validate_and_resolve x body pm trusted_ids = Inr p"
    using assms(4)
    by (auto simp: ipc_handle_def check_loopback_def clips_send_handler_def act_simps split: if_splits ipc_request.splits sum.splits)
  obtain c s where c: "clip_create tmp ?tid (cs_content body) (x_fs w) = (c, s)" by fastforce
  with assms(4) lo req v have "c = Inr ?p" "x_fs w1 = s"
    by (auto simp: ipc_handle_def check_loopback_def clips_send_handler_def act_simps Let_def split: sum.splits)
  note C = clip_create_Inr [OF c [unfolded this(1)], unfolded this(2) [symmetric]]
  have p: "?p = clip_path tmp ?tid" using C by blast
  with assms(1) have "?p \<noteq> clip_dir tmp" by (simp add: uuid_plain_def clip_path_not_dir)
  with C assms(2) have f1: "fs_nodes (x_fs w1) ?p = Some (FileNode (utf8 (cs_content body)))" "fs_nodes (x_fs w) ?p = None"
    "fs_faults (x_fs w1) = []" by metis+
  then have f2: "files_idle (fs_nodes (x_fs w1)) w1" by (simp add: files_idle_def)
  let ?push = "push_clip_file x j identity late g (ct_transfer_id t) (ct_peer_id t) ?p (ct_peer_name t)"
  obtain a v where v: "?push w1 = (a, v)" by fastforce
  have "files_idle (fs_nodes (x_fs w1)) v"
    using idle_push_clip [OF assms(3)] v f2 by (rule keepsE)
  then have v': "fs_nodes (x_fs v) = fs_nodes (x_fs w1)" "fs_faults (x_fs v) = []" by (simp_all add: files_idle_def)
  have "fs_nodes (x_fs w2) = (fs_nodes (x_fs w1))(?p := None)"
    using assms(5) v v' f1(1)
    by (auto simp: run_clip_task_def send_temp_clip_def clip_drop_def remove_file_def fs_call_def act_simps Let_def
        split: prod.splits)
  moreover have "fs_nodes (x_fs w1) q = fs_nodes (x_fs w) q" if "q \<noteq> ?p" "q \<noteq> clip_dir tmp"
    using C that by blast
  ultimately show ?thesis using f1(2) by (cases "q = ?p") auto
qed

section \<open>On a concrete machine\<close>

definition toy_alice :: peer where
  "toy_alice = \<lparr> pe_device_id = ''alice'', pe_device_name = ''Alice'', pe_ip = ''10.0.0.2'', pe_pairing_port = 1, pe_status = Trusted \<rparr>"

definition toy_visible :: peer_map where
  "toy_visible = [(''alice'', \<lparr> en_peer = toy_alice, en_last_seen = 0 \<rparr>)]"

definition toy_clip :: clip_send_request where
  "toy_clip = \<lparr> cs_peer_id = ''alice'', cs_content = ''hi'', cs_content_type = ''text'' \<rparr>"

lemma toy_ids: "x_uuid_parse toy_ext ''alice'' = Some ''alice''" "uuid_plain toy_ext"
proof -
  have not_digit: "\<not> is_digit (CHR ''/'')" by code_simp
  have "CHR ''/'' \<notin> set (show_nat n)" for n
    using show_nat_digits [of n] not_digit by (auto simp: list_all_iff)
  then show "uuid_plain toy_ext" by (simp add: uuid_plain_def toy_ext_def)
qed (simp add: toy_ext_def)


definition toy_post :: "xfer \<Rightarrow> xfer" where
  "toy_post w = snd (ipc_handle toy_ext ''/tmp'' [] [] toy_visible [''alice''] (V4 127 0 0 1) (PostClip toy_clip) w)"

definition toy_task :: clip_task where
  "toy_task = \<lparr> ct_transfer_id = ''uuid-5'', ct_peer_id = ''alice'', ct_path = ''/tmp/synapt-clips/uuid-5.txt'', ct_peer_name = ''Alice'' \<rparr>"

lemma toy_accepted:
  "ipc_handle toy_ext ''/tmp'' [] [] toy_visible [''alice''] (V4 127 0 0 1) (PostClip toy_clip) (toy_xfer [] (toy_nodes []))
     = (Inr ((202, Some (QueuedBody ''uuid-5'' ''queued'')), Some toy_task), toy_post (toy_xfer [] (toy_nodes [])))"
proof -
  have n: "x_uuid_new toy_ext 5 = ''uuid-5''" by (simp add: toy_ext_def) code_simp
  have v: "validate_and_resolve toy_ext toy_clip toy_visible [''alice''] = Inr toy_alice"
    by (simp add: validate_and_resolve_def toy_clip_def toy_visible_def toy_alice_def toy_ids list_peers_def ok_or_def)
  have "clip_path ''/tmp'' ''uuid-5'' = ''/tmp/synapt-clips/uuid-5.txt''" "clip_dir ''/tmp'' = ''/tmp/synapt-clips''"
    by code_simp+
  then show ?thesis
    by (simp add: toy_post_def ipc_handle_def check_loopback_def is_loopback_def clips_send_handler_def v n act_simps Let_def
        clip_create_def create_dir_all_def file_create_new_def file_write_def fs_call_def toy_xfer_def toy_nodes_def
        toy_alice_def toy_task_def)
qed

lemma ipc_guarded_witness:
  "fs_nodes (x_fs (toy_post (toy_xfer [] (toy_nodes [])))) ''/tmp/synapt-clips/uuid-5.txt'' = Some (FileNode (utf8 ''hi''))"
  using ipc_guarded [OF toy_accepted] by (auto simp: is_loopback_def toy_clip_def toy_task_def)

lemma clip_file_removed_witness:
  "fs_nodes (x_fs (snd (run_clip_task toy_ext toy_transfer_json (toy_identity 1) False id toy_task
     (toy_post (toy_xfer [] (toy_nodes [])))))) ''/tmp/synapt-clips/uuid-5.txt'' = None"
proof -
  let ?run = "run_clip_task toy_ext toy_transfer_json (toy_identity 1) False id toy_task (toy_post (toy_xfer [] (toy_nodes [])))"
  have "fs_faults (x_fs (toy_xfer [] (toy_nodes []))) = []" "spares_files id"
    by (simp_all add: toy_xfer_def spares_files_def)
  from clip_file_removed [OF toy_ids(2) this toy_accepted, of _ _ False "fst ?run" "snd ?run"]
  show ?thesis by (simp add: toy_task_def)
qed

end
