(* ===== verification/Device_Commands.thy ===== *)
theory Device_Commands
  imports Calculator App_Indexer Pairing Ipc_Server
begin

text \<open>
  Commands of the user interface (\<^verbatim>\<open>commands.rs\<close>) that are not another component's: the device's
  identity and name, settings and directories, the transfer commands, starting other programs, and
  the automatic update check.  A command's error is the text it shows.
\<close>

section \<open>Tables\<close>

text \<open>A command that is one query or statement.\<close>

definition db_cmd :: "err_text \<Rightarrow> 'a db_act \<Rightarrow> (db, string, 'a) act" where
  "db_cmd et m = act_map_err (et_db et) m"

definition get_peers :: "peer_map \<Rightarrow> peer list" where
  "get_peers pm = list_peers pm"

definition get_trusted_peers_cmd :: "ext \<Rightarrow> err_text \<Rightarrow> (db, string, trusted_peer list) act" where
  "get_trusted_peers_cmd x et = act_map_err (et_trust et) (list_trusted_peers x)"

definition get_shared_dirs_cmd :: "err_text \<Rightarrow> (db, string, string list) act" where
  "get_shared_dirs_cmd et = db_cmd et get_shared_dirs"

text \<open>\<open>nodes\<close> is the file system; \<^verbatim>\<open>Path::is_dir\<close> is false for anything that cannot be looked at.\<close>

definition add_shared_dir_cmd :: "err_text \<Rightarrow> (path \<Rightarrow> node option) \<Rightarrow> path \<Rightarrow> (db, string, unit) act" where
  "add_shared_dir_cmd et nodes p = (case nodes p of
       Some (DirNode _) \<Rightarrow> db_cmd et (add_shared_dir p)
     | _ \<Rightarrow> act_err ''path is not a directory'')"

definition remove_shared_dir_cmd :: "err_text \<Rightarrow> path \<Rightarrow> (db, string, unit) act" where
  "remove_shared_dir_cmd et p = db_cmd et (remove_shared_dir p)"

definition get_setting_cmd :: "err_text \<Rightarrow> string \<Rightarrow> (db, string, string option) act" where
  "get_setting_cmd et key = db_cmd et (get_setting key)"

definition set_setting_cmd :: "err_text \<Rightarrow> string \<Rightarrow> string \<Rightarrow> (db, string, unit) act" where
  "set_setting_cmd et key val = db_cmd et (set_setting key val)"

definition get_all_settings_cmd :: "err_text \<Rightarrow> (db, string, string \<Rightarrow> string option) act" where
  "get_all_settings_cmd et = db_cmd et get_all_settings"

definition get_indexed_dir_stats_cmd :: "err_text \<Rightarrow> (db, string, indexed_dir_row list) act" where
  "get_indexed_dir_stats_cmd et = db_cmd et get_indexed_dir_stats"

definition get_indexed_dirs_cmd :: "err_text \<Rightarrow> (db, string, indexed_dir_row list) act" where
  "get_indexed_dirs_cmd et = db_cmd et get_indexed_dirs"

definition get_transfer_history_cmd :: "err_text \<Rightarrow> (db, string, transfer_history_row list) act" where
  "get_transfer_history_cmd et = db_cmd et get_transfer_history"

definition get_transfer_queue :: "transfer_queue \<Rightarrow> queue_entry list" where
  "get_transfer_queue q = queue_list q"

definition LAST_SEEN_VERSION_KEY :: string where "LAST_SEEN_VERSION_KEY = ''last_seen_version''"

definition get_last_seen_version :: "err_text \<Rightarrow> (db, string, string option) act" where
  "get_last_seen_version et = db_cmd et (get_setting LAST_SEEN_VERSION_KEY)"

definition set_last_seen_version :: "err_text \<Rightarrow> string \<Rightarrow> (db, string, unit) act" where
  "set_last_seen_version et version = db_cmd et (set_setting LAST_SEEN_VERSION_KEY version)"

definition ONBOARDING_COMPLETE_KEY :: string where "ONBOARDING_COMPLETE_KEY = ''onboarding_complete''"

definition onboarding_pending :: "string option \<Rightarrow> bool" where
  "onboarding_pending v \<longleftrightarrow> v \<noteq> Some ''true''"

definition is_first_launch :: "err_text \<Rightarrow> (db, string, bool) act" where
  "is_first_launch et = act_bind (db_cmd et (get_setting ONBOARDING_COMPLETE_KEY)) (\<lambda>v. act_ret (onboarding_pending v))"

definition trigger_app_scan :: "(app_index_error \<Rightarrow> string) \<Rightarrow> desktop_env \<Rightarrow> (db, string, nat) act" where
  "trigger_app_scan text e = act_map_err text (run_app_scan e)"

text \<open>\<^verbatim>\<open>Display for CalcError\<close>\<close>

definition show_calc_error :: "calc_error \<Rightarrow> string" where
  "show_calc_error e = (case e of ParseError msg \<Rightarrow> ''parse error: '' @ msg | DivisionByZero \<Rightarrow> ''division by zero'')"

definition evaluate_expr :: "string \<Rightarrow> (string, f64) res" where
  "evaluate_expr input = map_err show_calc_error (evaluate input)"

section \<open>The device\<close>

text \<open>The identity the commands share, the name cell of the discovery thread and its flag.\<close>

record device_world =
  dv_db :: db
  dv_identity :: local_identity
  dv_discovery_name :: string
  dv_rebroadcast :: bool

type_synonym 'a dev_act = "(device_world, string, 'a) act"

definition dev_db :: "err_text \<Rightarrow> 'a db_act \<Rightarrow> 'a dev_act" where
  "dev_db et m w = (case m (dv_db w) of (r, d) \<Rightarrow> (map_err (et_db et) r, w\<lparr>dv_db := d\<rparr>))"

record local_device_info =
  di_device_id :: string
  di_device_name :: string
  di_pubkey_b64 :: string
  di_fingerprint :: string

definition get_local_device_cmd :: "ext \<Rightarrow> err_text \<Rightarrow> local_device_info dev_act" where
  "get_local_device_cmd x et = act_bind (act_get dv_identity) (\<lambda>identity.
     act_bind (act_lift (map_err (et_trust et) (fingerprint x (id_pubkey_b64 identity)))) (\<lambda>fp.
     act_ret \<lparr> di_device_id = id_device_id identity, di_device_name = id_device_name identity,
       di_pubkey_b64 = id_pubkey_b64 identity, di_fingerprint = fp \<rparr>))"

record local_identity_info =
  li_device_id :: string
  li_device_name :: string
  li_fingerprint :: string

definition get_local_identity :: "ext \<Rightarrow> err_text \<Rightarrow> local_identity_info dev_act" where
  "get_local_identity x et = act_bind (act_get dv_identity) (\<lambda>identity.
     act_bind (act_lift (map_err (et_trust et) (fingerprint x (id_pubkey_b64 identity)))) (\<lambda>fp.
     act_ret \<lparr> li_device_id = id_device_id identity, li_device_name = id_device_name identity, li_fingerprint = fp \<rparr>))"

definition set_device_name :: "err_text \<Rightarrow> string \<Rightarrow> unit dev_act" where
  "set_device_name et name = (let trimmed = trim name in
     if trimmed = [] \<or> 64 < length trimmed then act_err ''device name must be between 1 and 64 characters''
     else if list_ex is_control trimmed then act_err ''device name must not contain control characters''
     else act_then (dev_db et (update_local_device_name trimmed))
       (act_then (act_mod (\<lambda>w. w\<lparr>dv_identity := (dv_identity w)\<lparr>id_device_name := trimmed\<rparr>\<rparr>))
       (act_then (act_mod (\<lambda>w. w\<lparr>dv_discovery_name := trimmed\<rparr>))
         (act_mod (\<lambda>w. w\<lparr>dv_rebroadcast := True\<rparr>)))))"


section \<open>Transfers\<close>

definition x_cmd_db :: "err_text \<Rightarrow> 'a db_act \<Rightarrow> (xfer, string, 'a) act" where
  "x_cmd_db et m w = (case m (w_db w) of (r, d) \<Rightarrow> (map_err (et_db et) r, w\<lparr>w_db := d\<rparr>))"

definition trusted_receiver :: "ext \<Rightarrow> err_text \<Rightarrow> string \<Rightarrow> (xfer, string, trusted_peer) act" where
  "trusted_receiver x et device_id w = (case list_trusted_peers x (w_db w) of
       (Inl e, d) \<Rightarrow> (Inl (et_trust et e), w\<lparr>w_db := d\<rparr>)
     | (Inr peers, d) \<Rightarrow> (ok_or ''peer not trusted'' (List.find (\<lambda>p. pr_device_id p = device_id) peers), w\<lparr>w_db := d\<rparr>))"

definition download_dir_setting :: "err_text \<Rightarrow> (xfer, string, path) act" where
  "download_dir_setting et = act_bind (x_cmd_db et (get_setting ''download_dir'')) (\<lambda>v.
     act_bind (act_get x_downloads) (\<lambda>downloads. case v of
       Some d \<Rightarrow> if d \<noteq> [] then act_ret d
         else act_ret (path_join (case downloads of None \<Rightarrow> ''.'' | Some p \<Rightarrow> p) ''Synapt'')
     | None \<Rightarrow> act_ret (path_join (case downloads of None \<Rightarrow> ''.'' | Some p \<Rightarrow> p) ''Synapt'')))"

definition request_file_cmd :: "ext \<Rightarrow> transfer_json \<Rightarrow> err_text \<Rightarrow> local_identity \<Rightarrow> peer_map \<Rightarrow> string \<Rightarrow> string
    \<Rightarrow> (xfer, string, path) act" where
  "request_file_cmd x j et identity pm device_id remote_path =
     act_bind (trusted_receiver x et device_id) (\<lambda>peer.
     act_bind (download_dir_setting et) (\<lambda>download_dir.
     act_bind (act_lift (online_ip pm device_id ''peer not online'')) (\<lambda>ip.
     act_map_err (j_errtext j) (request_transfer_with_retry x j identity device_id remote_path download_dir (pr_device_name peer)))))"

definition request_files_cmd :: "ext \<Rightarrow> transfer_json \<Rightarrow> err_text \<Rightarrow> local_identity \<Rightarrow> peer_map \<Rightarrow> string \<Rightarrow> string list
    \<Rightarrow> (xfer, string, path list) act" where
  "request_files_cmd x j et identity pm device_id remote_paths =
     act_bind (trusted_receiver x et device_id) (\<lambda>peer.
     act_bind (download_dir_setting et) (\<lambda>download_dir.
     act_bind (act_lift (online_ip pm device_id ''peer not online'')) (\<lambda>ip.
     act_map_err (j_errtext j) (request_batch_transfer_with_retry x j identity device_id remote_paths download_dir (pr_device_name peer)))))"

fun check_files :: "string \<Rightarrow> path list \<Rightarrow> (xfer, string, unit) act" where
  "check_files io [] = act_ret ()"
| "check_files io (p # ps) = act_bind (act_map_err (\<lambda>_. p @ '': '' @ io) (on_fs (file_metadata p))) (\<lambda>meta.
     case meta of DirNode _ \<Rightarrow> act_err (p @ '' is not a file'') | FileNode _ \<Rightarrow> check_files io ps)"

definition send_files_cmd :: "ext \<Rightarrow> transfer_json \<Rightarrow> err_text \<Rightarrow> local_identity \<Rightarrow> peer_map \<Rightarrow> string \<Rightarrow> path list
    \<Rightarrow> (xfer, string, unit) act" where
  "send_files_cmd x j et identity pm device_id local_paths =
     act_then (check_files (et_io et) local_paths)
     (act_bind (trusted_receiver x et device_id) (\<lambda>peer.
     act_bind (act_lift (online_ip pm device_id ''peer not online'')) (\<lambda>ip.
     act_map_err (j_errtext j) (push_files x j identity device_id local_paths (pr_device_name peer)))))"

section \<open>Other programs\<close>

text \<open>\<^verbatim>\<open>Command::spawn\<close> of the Linux build, as in \<^const>\<open>launch_app\<close>.\<close>

definition spawn_program :: "err_text \<Rightarrow> string \<Rightarrow> string list \<Rightarrow> ('c, unit) cmd_act" where
  "spawn_program et prog args w = (let w' = w\<lparr>sv_spawn_faults := tl (sv_spawn_faults w)\<rparr> in
     if sv_spawn_faults w \<noteq> [] \<and> hd (sv_spawn_faults w) then (Inl (et_io et), w')
     else (Inr (), w'\<lparr>sv_spawned := sv_spawned w @ [(prog, args)]\<rparr>))"

definition open_file_path :: "err_text \<Rightarrow> path \<Rightarrow> ('c, unit) cmd_act" where
  "open_file_path et p = spawn_program et ''xdg-open'' [p]"

definition reveal_in_files :: "err_text \<Rightarrow> path \<Rightarrow> ('c, unit) cmd_act" where
  "reveal_in_files et p = act_bind (act_lift (ok_or ''no parent dir'' (path_parent p))) (\<lambda>parent.
     spawn_program et ''xdg-open'' [parent])"

section \<open>Automatic updates\<close>

record update_info =
  up_version :: string
  up_current :: string
  up_notes :: string

text \<open>\<open>'k\<close> is the core library's status.\<close>

datatype 'k update_event = CoreUpdateStatus 'k | UpdateNotified string string | UpdateAvailable update_info

definition auto_update_enabled :: "(db, 'e, bool) act" where
  "auto_update_enabled d = (case get_setting ''auto_update_check'' d of
     (r, d') \<Rightarrow> (Inr (case r of Inr (Some v) \<Rightarrow> v \<noteq> ''false'' | _ \<Rightarrow> True), d'))"

definition update_notice :: "string \<Rightarrow> 'k update_event" where
  "update_notice version = UpdateNotified ''Update available''
     (''Synapt '' @ version @ '' is ready to install. Open Settings to update.'')"

text \<open>The two checks are the updater's and the core library's: their answers are arguments.\<close>

definition run_auto_update_check :: "(string, update_info option) res \<Rightarrow> 'k \<Rightarrow> (db, 'e, 'k update_event list) act" where
  "run_auto_update_check app_update core_update = act_bind auto_update_enabled (\<lambda>enabled.
     if \<not> enabled then act_ret []
     else case app_update of
       Inr (Some info) \<Rightarrow> (\<lambda>d. case get_setting ''notifications_enabled'' d of
           (r, d') \<Rightarrow> (Inr (CoreUpdateStatus core_update
             # (if (case r of Inr (Some v) \<Rightarrow> v \<noteq> ''false'' | _ \<Rightarrow> True) then [update_notice (up_version info)] else [])
             @ [UpdateAvailable info]), d'))
     | _ \<Rightarrow> act_ret [CoreUpdateStatus core_update])"

text \<open>The updater's answers: whether it can be had, what the check finds (with the notes as an option),
  whether the download is installed.  Installing ends the process.\<close>

definition check_for_update :: "(string, unit) res \<Rightarrow> (string, (string \<times> string \<times> string option) option) res
    \<Rightarrow> (string, update_info option) res" where
  "check_for_update updater found = bind_res updater (\<lambda>_. bind_res found (\<lambda>update. Inr (map_option (\<lambda>(v, c, notes).
     \<lparr> up_version = v, up_current = c, up_notes = (case notes of Some n \<Rightarrow> n | None \<Rightarrow> []) \<rparr>) update)))"

definition install_update :: "(string, unit) res \<Rightarrow> (string, (string \<times> string \<times> string option) option) res \<Rightarrow> (string, unit) res
    \<Rightarrow> (string, unit) res" where
  "install_update updater found installed = bind_res updater (\<lambda>_. bind_res found (\<lambda>update. case update of
       Some _ \<Rightarrow> installed
     | None \<Rightarrow> Inl ''no update available''))"

text \<open>The last status of the core library is kept in a static.\<close>

definition get_core_update_status :: "'k \<Rightarrow> ('k option, 'e, 'k) act" where
  "get_core_update_status bundled = act_get (\<lambda>cached. case cached of Some st \<Rightarrow> st | None \<Rightarrow> bundled)"

definition check_core_update :: "'k \<Rightarrow> ('k option, 'e, 'k) act" where
  "check_core_update checked = act_then (act_mod (\<lambda>_. Some checked)) (act_ret checked)"

section \<open>What's new\<close>

record version_entry =
  ve_version :: string
  ve_date :: "string option"
  ve_headline :: string
  ve_highlights :: "string list"

text \<open>\<open>parse\<close> is the JSON library's, with the text of its error.\<close>

definition parse_whats_new :: "(string \<Rightarrow> (string, version_entry list) res) \<Rightarrow> string \<Rightarrow> (string, version_entry list) res" where
  "parse_whats_new parse raw = map_err (\<lambda>e. ''invalid whatsnew.json: '' @ e) (parse raw)"

definition get_whats_new :: "(string \<Rightarrow> (string, version_entry list) res) \<Rightarrow> (string, path) res \<Rightarrow> (path \<Rightarrow> (string, string) res)
    \<Rightarrow> (string, version_entry list) res" where
  "get_whats_new parse resource_dir read = bind_res resource_dir (\<lambda>d. let p = path_join d ''whatsnew.json'' in
     bind_res (map_err (\<lambda>e. ''failed to read '' @ p @ '': '' @ e) (read p)) (parse_whats_new parse))"

section \<open>The companion\<close>

record ipc_status =
  st_api_active :: bool
  st_synaptclip_present :: bool
  st_peer_count :: nat

text \<open>\<open>health\<close>: the status of the answer of this program's own interface, if any came; \<open>clip\<close>: whether the
  companion's port takes a connection.\<close>

definition get_ipc_status :: "(string, unit) res \<Rightarrow> nat option \<Rightarrow> bool \<Rightarrow> peer_map \<Rightarrow> (string, ipc_status) res" where
  "get_ipc_status client health clip pm = bind_res client (\<lambda>_.
     Inr \<lparr> st_api_active = (case health of Some st \<Rightarrow> 200 \<le> st \<and> st < 300 | None \<Rightarrow> False), st_synaptclip_present = clip,
       st_peer_count = length (list_peers pm) \<rparr>)"

definition SYNAPTCLIP_PORT :: "16 word" where "SYNAPTCLIP_PORT = 57322"

record clip_payload =
  cp_sender_peer_id :: string
  cp_sender_name :: string
  cp_content :: string
  cp_content_type :: string
  cp_received_at :: string

text \<open>The request that is posted, if one is; its outcome is only logged.\<close>

definition deliver_clip :: "bool \<Rightarrow> (clip_payload \<Rightarrow> bytes option) \<Rightarrow> string \<Rightarrow> string \<Rightarrow> string \<Rightarrow> string \<Rightarrow> (string \<times> bytes) option" where
  "deliver_clip client encode now sender_peer_id sender_name content = (if \<not> client then None
     else case encode \<lparr> cp_sender_peer_id = sender_peer_id, cp_sender_name = sender_name, cp_content = content,
         cp_content_type = ''text'', cp_received_at = now \<rparr> of
       None \<Rightarrow> None
     | Some body \<Rightarrow> Some (''http://127.0.0.1:'' @ show_nat (unat SYNAPTCLIP_PORT) @ ''/v1/clips/receive'', body))"

section \<open>The local address\<close>

text \<open>\<open>interface\<close>: the address of the default route, when it is an IPv4 address.\<close>

definition select_interface :: "32 word option \<Rightarrow> 32 word" where
  "select_interface interface = (case interface of Some ip \<Rightarrow> ip | None \<Rightarrow> 0)"

definition local_ip_of :: "32 word option \<Rightarrow> 32 word option" where
  "local_ip_of interface = (let ip = select_interface interface in
     if ip = 0 \<or> drop_bit 24 ip = 127 then None else Some ip)"

definition get_local_ip :: "32 word option \<Rightarrow> string option" where
  "get_local_ip interface = map_option show_ipv4 (local_ip_of interface)"

section \<open>Start-up\<close>

definition startup_trusted_ids :: "(db, db_error, string set) act" where
  "startup_trusted_ids = act_bind get_trusted_peers (\<lambda>rows. act_ret (set (map tp_device_id rows)))"

section \<open>The device name\<close>

definition name_wf :: "string \<Rightarrow> bool" where
  "name_wf n \<longleftrightarrow> n \<noteq> [] \<and> length n \<le> 64 \<and> \<not> list_ex is_control n \<and> trim n = n"

text \<open>Everyone who keeps the name has the same one.\<close>

definition named :: "string \<Rightarrow> device_world \<Rightarrow> bool" where
  "named n w \<longleftrightarrow> id_device_name (dv_identity w) = n \<and> dv_discovery_name w = n
     \<and> (case local_device (dv_db w) of None \<Rightarrow> True | Some row \<Rightarrow> ld_device_name row = n)"

definition rename_all :: "err_text \<Rightarrow> string list \<Rightarrow> device_world \<Rightarrow> device_world" where
  "rename_all et names w = foldl (\<lambda>v m. snd (set_device_name et m v)) w names"

lemma dropWhile_hd: "xs \<noteq> [] \<Longrightarrow> \<not> P (hd xs) \<Longrightarrow> dropWhile P xs = xs"
  by (cases xs) auto

lemma trim_ends: "trim s \<noteq> [] \<Longrightarrow> \<not> is_ws (hd (trim s)) \<and> \<not> is_ws (last (trim s))"
proof -
  assume ne: "trim s \<noteq> []"
  let ?t = "dropWhile is_ws s" and ?r = "dropWhile is_ws (rev (dropWhile is_ws s))"
  have t: "trim s = rev ?r" by (simp add: trim_def trim_start_def trim_end_def)
  with ne have "?r \<noteq> []" by auto
  then have l: "\<not> is_ws (hd ?r)" by (rule hd_dropWhile)
  obtain p where "rev ?t = p @ ?r" by (metis takeWhile_dropWhile_id)
  then have "?t = rev ?r @ rev p" by (metis rev_append rev_rev_ident)
  moreover have "rev ?r \<noteq> []" using \<open>?r \<noteq> []\<close> unfolding rev_is_Nil_conv .
  ultimately have "hd ?t = hd (rev ?r)" "?t \<noteq> []" by (metis hd_append, metis append_is_Nil_conv)
  with l \<open>?r \<noteq> []\<close> show ?thesis by (metis t hd_dropWhile last_rev)
qed

lemma trim_idem [simp]: "trim (trim s) = trim s"
proof (cases "trim s = []")
  case False
  with trim_ends [OF this] have "dropWhile is_ws (trim s) = trim s" "dropWhile is_ws (rev (trim s)) = rev (trim s)"
    by (simp_all add: dropWhile_hd hd_rev)
  then show ?thesis by (subst trim_def) (simp add: trim_start_def trim_end_def)
qed simp

lemma set_device_name_cases:
  assumes "set_device_name et m w = (r, v)"
  obtains (unchanged) e fs where "r = Inl e" "v = w\<lparr>dv_db := (dv_db w)\<lparr>faults := fs\<rparr>\<rparr>"
    | (renamed) fs where "r = Inr ()" "name_wf (trim m)"
      "v = w\<lparr>dv_db := (dv_db w)\<lparr>local_device := map_option (\<lambda>r. r\<lparr>ld_device_name := trim m\<rparr>) (local_device (dv_db w)), faults := fs\<rparr>,
        dv_identity := (dv_identity w)\<lparr>id_device_name := trim m\<rparr>, dv_discovery_name := trim m, dv_rebroadcast := True\<rparr>"
proof (cases "trim m = [] \<or> 64 < length (trim m) \<or> list_ex is_control (trim m)")
  case True
  with assms have "\<exists>e. r = Inl e" "v = w\<lparr>dv_db := (dv_db w)\<lparr>faults := faults (dv_db w)\<rparr>\<rparr>"
    by (auto simp: set_device_name_def Let_def act_simps split: if_splits)
  then show ?thesis using unchanged by blast
next
  case False
  then have wf: "name_wf (trim m)" by (simp add: name_wf_def)
  obtain q d where u: "update_local_device_name (trim m) (dv_db w) = (q, d)" by fastforce
  have "q = Inl Sqlx \<and> d = (dv_db w)\<lparr>faults := tl (faults (dv_db w))\<rparr> \<or> q = Inr () \<and> d = (dv_db w)\<lparr>local_device :=
      map_option (\<lambda>r. r\<lparr>ld_device_name := trim m\<rparr>) (local_device (dv_db w)), faults := tl (faults (dv_db w))\<rparr>"
    using u by (auto simp: update_local_device_name_def sql_execute_def act_mod_def elim!: db_exec_cases)
  then consider (fault) "q = Inl Sqlx" "d = (dv_db w)\<lparr>faults := tl (faults (dv_db w))\<rparr>"
    | (run) "q = Inr ()" "d = (dv_db w)\<lparr>local_device :=
      map_option (\<lambda>r. r\<lparr>ld_device_name := trim m\<rparr>) (local_device (dv_db w)), faults := tl (faults (dv_db w))\<rparr>" by blast
  then show ?thesis
  proof cases
    case fault
    with False assms u show ?thesis
      by (intro unchanged) (auto simp: set_device_name_def Let_def act_simps dev_db_def)
  next
    case run
    with False assms u wf show ?thesis
      by (intro renamed [of "tl (faults (dv_db w))"]) (auto simp: set_device_name_def Let_def act_simps dev_db_def)
  qed
qed

lemma rename_named:
  assumes "name_wf n" "named n w"
  shows "\<exists>n'. name_wf n' \<and> named n' (snd (set_device_name et m w)) \<and> n' \<in> {n, trim m}"
proof -
  obtain r v where run: "set_device_name et m w = (r, v)" by fastforce
  show ?thesis
    by (cases rule: set_device_name_cases [OF run]) (use assms run in \<open>auto simp: named_def split: option.splits\<close>)
qed

lemma rename_all_named:
  "name_wf n \<Longrightarrow> named n w \<Longrightarrow> \<exists>n'. name_wf n' \<and> named n' (rename_all et names w) \<and> n' \<in> insert n (trim ` set names)"
proof (induction names arbitrary: n w)
  case (Cons m ms)
  obtain n1 where "name_wf n1" "named n1 (snd (set_device_name et m w))" "n1 \<in> {n, trim m}"
    using rename_named [OF Cons.prems] by blast
  with Cons.IH [of n1 "snd (set_device_name et m w)"] show ?case by (auto simp: rename_all_def)
qed (auto simp: rename_all_def)

lemma init_identity_name:
  assumes "init_identity x seed d = (Inr i, d')" "local_device d = Some row"
  shows "id_device_name i = ld_device_name row"
proof -
  have "get_local_device d = (Inr (Some row), d\<lparr>faults := tl (faults d)\<rparr>) \<or> (\<exists>e s. get_local_device d = (Inl e, s))"
    using assms(2) by (auto simp: get_local_device_def sql_query_def db_exec_def act_get_def Let_def)
  then have "identity_of_row x row = Inr i"
    using assms(1) by (auto simp: init_identity_def act_simps)
  then show ?thesis by (auto simp: identity_of_row_def bind_res_eq_Inr split: if_splits)
qed


section \<open>Commands that are refused\<close>

definition known_peer :: "ext \<Rightarrow> string \<Rightarrow> db \<Rightarrow> bool" where
  "known_peer x i d \<longleftrightarrow> (\<exists>p \<in> set (trusted_peers d). x_uuid_parse x (tp_device_id p) = Some i)"

text \<open>Nothing but the schedules of failures has moved.\<close>

definition unscheduled :: "xfer \<Rightarrow> xfer" where
  "unscheduled w = w\<lparr>w_db := (w_db w)\<lparr>faults := []\<rparr>, x_fs := (x_fs w)\<lparr>fs_faults := []\<rparr>\<rparr>"

definition only_looked :: "xfer \<Rightarrow> xfer \<Rightarrow> bool" where
  "only_looked w v \<longleftrightarrow> unscheduled v = unscheduled w"

lemma list_trusted_peers_Inr:
  assumes "list_trusted_peers x d = (Inr ps, d')" "p \<in> set ps"
  shows "known_peer x (pr_device_id p) d"
proof -
  obtain rows where rows: "get_trusted_peers d = (Inr rows, d')" and c: "collect_res (map (peer_of_row x) rows) = Inr ps"
    using assms(1) by (auto simp: list_trusted_peers_def act_simps split: prod.splits sum.splits)
  have "\<exists>q \<in> set rows. peer_of_row x q = Inr p"
    using c assms(2) by (induction rows arbitrary: ps) (auto simp: bind_res_eq_Inr)
  with get_trusted_peers_Inr [OF rows] show ?thesis
    by (auto simp: known_peer_def peer_of_row_def uuid_of_def bind_res_eq_Inr)
qed

lemma list_trusted_peers_state: "snd (list_trusted_peers x d) = d\<lparr>faults := tl (faults d)\<rparr>"
  by (auto simp: list_trusted_peers_def act_simps get_trusted_peers_def sql_query_def db_exec_def act_get_def Let_def)

lemma trusted_receiver_Inr: "trusted_receiver x et i w = (Inr p, v) \<Longrightarrow> known_peer x i (w_db w)"
  by (auto simp: trusted_receiver_def split: prod.splits sum.splits dest!: list_trusted_peers_Inr dest: find_Some_mem)

lemma only_looked_step:
  "only_looked w v \<Longrightarrow> only_looked w (v\<lparr>w_db := (w_db v)\<lparr>faults := fs\<rparr>\<rparr>)"
  "only_looked w v \<Longrightarrow> only_looked w (v\<lparr>x_fs := (x_fs v)\<lparr>fs_faults := ff\<rparr>\<rparr>)"
  by (simp_all add: only_looked_def unscheduled_def)

lemma looks_keep [keeps_intros]:
  "keeps (only_looked w) (trusted_receiver x et i)" "keeps (only_looked w) (x_cmd_db et (get_setting k))"
  "keeps (only_looked w) (on_fs (file_metadata p))"
proof -
  have "snd (trusted_receiver x et i v) = v\<lparr>w_db := (w_db v)\<lparr>faults := tl (faults (w_db v))\<rparr>\<rparr>" for v
    using list_trusted_peers_state [of x "w_db v"] by (auto simp: trusted_receiver_def split: prod.splits sum.splits)
  then show "keeps (only_looked w) (trusted_receiver x et i)"
    by (simp add: keeps_def only_looked_step)
  have "snd (x_cmd_db et (get_setting k) v) = v\<lparr>w_db := (w_db v)\<lparr>faults := tl (faults (w_db v))\<rparr>\<rparr>" for v
    using query_state [of "\<lambda>d. map_of (settings d) k" "w_db v"] by (simp add: x_cmd_db_def get_setting_def case_prod_unfold)
  then show "keeps (only_looked w) (x_cmd_db et (get_setting k))"
    by (simp add: keeps_def only_looked_step)
  have "snd (on_fs (file_metadata p) v) = v\<lparr>x_fs := (x_fs v)\<lparr>fs_faults := tl (fs_faults (x_fs v))\<rparr>\<rparr>" for v
    by (simp add: on_fs_def file_metadata_def fs_call_def Let_def split: option.splits)
  then show "keeps (only_looked w) (on_fs (file_metadata p))"
    by (simp add: keeps_def only_looked_step)
qed

lemma dir_keeps [keeps_intros]: "keeps (only_looked w) (download_dir_setting et)"
  unfolding download_dir_setting_def by (auto intro!: keeps_intros split: option.split)

lemma check_keeps [keeps_intros]: "keeps (only_looked w) (check_files io ps)"
  by (induction ps) (auto intro!: keeps_intros split: node.split)

lemma check_files_Inr: "check_files io ps w = (Inr (), v) \<Longrightarrow> list_all (\<lambda>p. \<exists>b. fs_nodes (x_fs w) p = Some (FileNode b)) ps"
proof (induction ps arbitrary: w)
  case (Cons p ps)
  obtain r u where m: "on_fs (file_metadata p) w = (r, u)" by fastforce
  with Cons.prems obtain b where b: "r = Inr (FileNode b)" "check_files io ps u = (Inr (), v)"
    by (auto simp: act_simps split: sum.splits node.splits)
  with m have "fs_nodes (x_fs w) p = Some (FileNode b)" "fs_nodes (x_fs u) = fs_nodes (x_fs w)"
    by (auto simp: on_fs_def file_metadata_def fs_call_def Let_def split: option.splits if_splits)
  with Cons.IH [OF b(2)] show ?case by simp
qed simp

text \<open>A step that only looks, then one that refuses.\<close>

lemma refuses_bind:
  assumes "keeps (only_looked w) m" "only_looked w v" "\<And>a u. m v = (Inr a, u) \<Longrightarrow> only_looked w u \<Longrightarrow> \<exists>e t. f a u = (Inl e, t) \<and> only_looked w t"
  shows "\<exists>e t. act_bind m f v = (Inl e, t) \<and> only_looked w t"
proof -
  obtain r u where m: "m v = (r, u)" by fastforce
  with keepsE [OF assms(1) m assms(2)] assms(3) show ?thesis by (cases r) (auto simp: act_bind_run)
qed

lemma refuses_lift:
  assumes "only_looked w v" "r = Inl e"
  shows "\<exists>e t. act_bind (act_lift r) f v = (Inl e, t) \<and> only_looked w t"
  using assms by (simp add: act_simps)

lemma known_only_looked: "only_looked w v \<Longrightarrow> known_peer x i (w_db v) = known_peer x i (w_db w)"
proof -
  assume "only_looked w v"
  then have "w_db (unscheduled v) = w_db (unscheduled w)" by (simp add: only_looked_def)
  then have "trusted_peers ((w_db v)\<lparr>faults := []\<rparr>) = trusted_peers ((w_db w)\<lparr>faults := []\<rparr>)"
    by (simp add: unscheduled_def)
  then show ?thesis by (simp add: known_peer_def)
qed

lemma refuses_receiver:
  assumes "only_looked w v" "\<not> (known_peer x i (w_db w) \<and> map_of pm i \<noteq> None)"
    and "\<And>p u. only_looked w u \<Longrightarrow> map_of pm i = None \<Longrightarrow> \<exists>e t. f p u = (Inl e, t) \<and> only_looked w t"
  shows "\<exists>e t. act_bind (trusted_receiver x et i) f v = (Inl e, t) \<and> only_looked w t"
  using assms by (intro refuses_bind) (auto intro: keeps_intros dest!: trusted_receiver_Inr simp: known_only_looked)

lemma online_ip_None: "map_of pm i = None \<Longrightarrow> online_ip pm i t = Inl t"
  by (simp add: online_ip_def)

lemma only_looked_refl: "only_looked w w"
  by (simp add: only_looked_def)

lemma refused_request:
  assumes "\<not> (known_peer x i (w_db w) \<and> map_of pm i \<noteq> None)"
  shows "\<exists>e v. request_file_cmd x j et ident pm i p w = (Inl e, v) \<and> only_looked w v"
    and "\<exists>e v. request_files_cmd x j et ident pm i ps w = (Inl e, v) \<and> only_looked w v"
  unfolding request_file_cmd_def request_files_cmd_def
  by (rule refuses_receiver [OF only_looked_refl assms], rule refuses_bind [OF dir_keeps], assumption,
      rule refuses_lift, assumption, erule online_ip_None)+

lemma refused_send:
  assumes "\<not> (known_peer x i (w_db w) \<and> map_of pm i \<noteq> None)"
  shows "\<exists>e v. send_files_cmd x j et ident pm i ps w = (Inl e, v) \<and> only_looked w v"
  unfolding send_files_cmd_def act_then_def
  by (rule refuses_bind [OF check_keeps only_looked_refl], rule refuses_receiver [OF _ assms], assumption,
      rule refuses_lift, assumption, erule online_ip_None)

lemma refused_non_file:
  assumes "\<not> list_all (\<lambda>q. \<exists>b. fs_nodes (x_fs w) q = Some (FileNode b)) ps"
  shows "\<exists>e v. send_files_cmd x j et ident pm i ps w = (Inl e, v) \<and> only_looked w v"
  unfolding send_files_cmd_def act_then_def
  by (rule refuses_bind [OF check_keeps only_looked_refl]) (use assms in \<open>auto dest: check_files_Inr\<close>)

text \<open>
  C14.  A transfer command that is refused does nothing: when the device is not trusted or not
  online, or a file to send is not a file, the command fails and nothing has changed: no
  connection was made, nothing was queued, reported or written.
\<close>

theorem refused_commands_idle:
  assumes "\<not> (known_peer x i (w_db w) \<and> map_of pm i \<noteq> None)"
  shows "(\<exists>e v. request_file_cmd x j et ident pm i p w = (Inl e, v) \<and> only_looked w v)
    \<and> (\<exists>e v. request_files_cmd x j et ident pm i ps w = (Inl e, v) \<and> only_looked w v)
    \<and> (\<exists>e v. send_files_cmd x j et ident pm i ps w = (Inl e, v) \<and> only_looked w v)
    \<and> (\<not> list_all (\<lambda>q. \<exists>b. fs_nodes (x_fs w') q = Some (FileNode b)) ps
        \<longrightarrow> (\<exists>e v. send_files_cmd x j et ident pm' i' ps w' = (Inl e, v) \<and> only_looked w' v))"
  by (intro conjI impI refused_request [OF assms] refused_send [OF assms]) (rule refused_non_file, assumption)

section \<open>On a concrete machine\<close>

definition blank_text :: err_text where
  "blank_text = \<lparr> et_db = (\<lambda>_. []), et_trust = (\<lambda>_. []), et_search = (\<lambda>_. []), et_session = (\<lambda>_. []), et_json = [], et_io = [] \<rparr>"

definition toy_device :: device_world where
  "toy_device = \<lparr> dv_db = db_empty\<lparr>local_device := Some \<lparr> ld_device_id = ''1'', ld_device_name = ''desk'', ld_pubkey_b64 = [], ld_privkey_b64 = [] \<rparr>\<rparr>, dv_identity = toy_identity 1\<lparr>id_device_name := ''desk''\<rparr>, dv_discovery_name = ''desk'', dv_rebroadcast = False \<rparr>"

lemma toy_device_named: "name_wf ''desk''" "named ''desk'' toy_device"
proof -
  show "name_wf ''desk''" by code_simp
qed (simp add: named_def toy_device_def)


lemma refused_commands_idle_witness:
  "\<exists>e v. request_file_cmd toy_ext toy_transfer_json blank_text (toy_identity 1) [] ''alice'' ''/pub/a'' (toy_xfer [] (toy_nodes [])) = (Inl e, v)
     \<and> only_looked (toy_xfer [] (toy_nodes [])) v"
proof -
  have "\<not> (known_peer toy_ext ''alice'' (w_db (toy_xfer [] (toy_nodes []))) \<and> map_of ([] :: peer_map) ''alice'' \<noteq> None)" by simp
  from refused_commands_idle [OF this] show ?thesis by metis
qed

end
