(* ===== verification/Hotkey.thy ===== *)
theory Hotkey
  imports Database
begin

text \<open>
  The global shortcut (\<^verbatim>\<open>hotkey.rs\<close>) and the commands that set it.  On Wayland the desktop portal of
  the core library keeps the binding; elsewhere the shortcut library binds the keys directly.  Both
  are parameters: the parser of shortcut texts, and the outcomes of their calls.
\<close>

section \<open>State and libraries\<close>

definition DEFAULT_HOTKEY :: string where "DEFAULT_HOTKEY = ''ctrl+space''"

text \<open>\<open>hk_bound\<close>: the texts of the keys the library has bound to this program; \<open>hk_registered\<close> and
  \<open>hk_error\<close> are the two statics.\<close>

record hotkeys =
  hk_bound :: "string set"
  hk_registered :: "string option"
  hk_error :: "string option"
  hk_db :: db

record hotkey_info =
  hi_wayland :: bool
  hi_registered :: bool
  hi_trigger :: "string option"
  hi_error :: "string option"

text \<open>What the two libraries answer to one call: whether the text parses, whether the old bindings are
  released, whether the new one is made (each with the text of the failure), and the portal's answers
  and status.\<close>

record hotkey_lib =
  hl_wayland :: bool
  hl_parse :: "string \<Rightarrow> (string, unit) res"
  hl_release :: "(string, unit) res"
  hl_bind :: "(string, unit) res"
  hl_portal_register :: "(string, unit) res"
  hl_portal_configure :: "(string, unit) res"
  hl_portal_status :: hotkey_info
  hl_db_text :: "db_error \<Rightarrow> string"

type_synonym 'a hotkey_act = "(hotkeys, string, 'a) act"

section \<open>The code\<close>

definition uses_portal :: "hotkey_lib \<Rightarrow> bool" where
  "uses_portal l = hl_wayland l"

definition unregister_hotkey :: "hotkey_lib \<Rightarrow> unit hotkey_act" where
  "unregister_hotkey l = (if uses_portal l then act_err ''Use desktop shortcut settings to change the Wayland binding''
     else act_then (act_lift (hl_release l))
       (act_mod (\<lambda>h. h\<lparr>hk_bound := {}, hk_registered := None\<rparr>)))"

definition register_native :: "hotkey_lib \<Rightarrow> string \<Rightarrow> unit hotkey_act" where
  "register_native l hotkey = (let trimmed = trim hotkey in
     if trimmed = [] then act_err ''The shortcut cannot be empty''
     else act_then (act_lift (map_err (\<lambda>e. ''Invalid shortcut: '' @ e) (hl_parse l trimmed)))
       (act_then (unregister_hotkey l)
       (act_then (act_lift (map_err (\<lambda>e. ''Could not register shortcut: '' @ e) (hl_bind l)))
       (act_then (act_mod (\<lambda>h. h\<lparr>hk_bound := insert trimmed (hk_bound h)\<rparr>))
         (act_mod (\<lambda>h. h\<lparr>hk_registered := Some trimmed\<rparr>))))))"

definition register_hotkey :: "hotkey_lib \<Rightarrow> string \<Rightarrow> unit hotkey_act" where
  "register_hotkey l hotkey = (if uses_portal l then act_lift (hl_portal_register l)
     else act_bind (act_try (register_native l hotkey)) (\<lambda>result.
       act_then (act_mod (\<lambda>h. h\<lparr>hk_error := (case result of Inl e \<Rightarrow> Some e | Inr _ \<Rightarrow> None)\<rparr>)) (act_lift result)))"

definition info :: "hotkey_lib \<Rightarrow> hotkeys \<Rightarrow> hotkey_info" where
  "info l h = (if uses_portal l
     then (hl_portal_status l)\<lparr>hi_wayland := True\<rparr>
     else \<lparr> hi_wayland = False, hi_registered = (case hk_registered h of None \<Rightarrow> False | Some k \<Rightarrow> k \<in> hk_bound h),
       hi_trigger = hk_registered h, hi_error = hk_error h \<rparr>)"

definition configure :: "hotkey_lib \<Rightarrow> string \<Rightarrow> unit hotkey_act" where
  "configure l hotkey = (if uses_portal l
     then act_then (if \<not> hi_registered (hl_portal_status l) then register_hotkey l hotkey else act_ret ())
       (act_lift (hl_portal_configure l))
     else act_err ''Desktop shortcut settings are only used on Wayland'')"

definition hk_db_cmd :: "hotkey_lib \<Rightarrow> 'a db_act \<Rightarrow> 'a hotkey_act" where
  "hk_db_cmd l m h = (case m (hk_db h) of (r, d) \<Rightarrow> (map_err (hl_db_text l) r, h\<lparr>hk_db := d\<rparr>))"

definition set_hotkey :: "hotkey_lib \<Rightarrow> string \<Rightarrow> unit hotkey_act" where
  "set_hotkey l hotkey = (if uses_portal l then act_err ''Change this shortcut through desktop shortcut settings''
     else act_then (register_hotkey l hotkey) (hk_db_cmd l (set_setting ''hotkey'' hotkey)))"

definition configure_hotkey :: "hotkey_lib \<Rightarrow> unit hotkey_act" where
  "configure_hotkey l = act_bind (hk_db_cmd l (get_setting ''hotkey'')) (\<lambda>v.
     configure l (case v of Some k \<Rightarrow> k | None \<Rightarrow> DEFAULT_HOTKEY))"

text \<open>At start-up a database error means the default.\<close>

definition startup_hotkey :: "hotkey_lib \<Rightarrow> unit hotkey_act" where
  "startup_hotkey l h = (case hk_db_cmd l (get_setting ''hotkey'') h of
     (r, h') \<Rightarrow> act_ignore (register_hotkey l (case r of Inr (Some k) \<Rightarrow> k | _ \<Rightarrow> DEFAULT_HOTKEY)) h')"

section \<open>What the settings page shows\<close>

text \<open>The shortcut the program believes it has is bound, and nothing else is.\<close>

definition hotkeys_ok :: "hotkeys \<Rightarrow> bool" where
  "hotkeys_ok h \<longleftrightarrow> hk_bound h = set_option (hk_registered h)"

lemma register_native_cases:
  assumes "register_native l k h = (r, v)"
  obtains (kept) e where "r = Inl e" "v = h"
    | (lost) e where "r = Inl e" "v = h\<lparr>hk_bound := {}, hk_registered := None\<rparr>" "hl_parse l (trim k) = Inr ()" "trim k \<noteq> []"
    | (bound) "r = Inr ()" "v = h\<lparr>hk_bound := {trim k}, hk_registered := Some (trim k)\<rparr>" "hl_parse l (trim k) = Inr ()" "trim k \<noteq> []"
proof (cases "trim k = [] \<or> \<not> is_ok (hl_parse l (trim k)) \<or> uses_portal l \<or> \<not> is_ok (hl_release l)")
  case True
  with assms have "\<not> is_ok r \<and> v = h"
    by (cases "hl_parse l (trim k)"; cases "hl_release l"; cases "uses_portal l")
      (auto simp: register_native_def unregister_hotkey_def Let_def act_simps is_ok_iff split: if_splits)
  then have "(\<exists>e. r = Inl e) \<and> v = h" by (cases r) auto
  then show ?thesis using kept by blast
next
  case False
  then have free: "trim k \<noteq> []" "hl_parse l (trim k) = Inr ()" "hl_release l = Inr ()" "\<not> uses_portal l"
    by (cases "hl_parse l (trim k)"; cases "hl_release l"; simp)+
  then show ?thesis using assms lost bound
    by (cases "hl_bind l") (auto simp: register_native_def unregister_hotkey_def Let_def act_simps)
qed

lemma register_hotkey_ok: "hotkeys_ok h \<Longrightarrow> hotkeys_ok (snd (register_hotkey l k h))"
proof -
  assume ok: "hotkeys_ok h"
  obtain r v where n: "register_native l k h = (r, v)" by fastforce
  show ?thesis
    by (cases rule: register_native_cases [OF n]) (use ok n in \<open>auto simp: hotkeys_ok_def register_hotkey_def act_simps\<close>)
qed

lemma map_of_find: "map_of xs k = map_option snd (List.find (\<lambda>x. fst x = k) xs)"
  by (induction xs) auto

lemma map_of_upsert: "map_of (upsert_by fst (k, v) xs) k = Some v"
  by (simp add: map_of_find find_upsert_by)

text \<open>
  A shortcut that is empty or does not parse leaves the binding as it was; after any attempt the
  program has at most the binding it shows.  A valid shortcut that cannot be bound leaves none.
\<close>

lemma set_hotkey_effect:
  assumes "hotkeys_ok h" "\<not> uses_portal l" "set_hotkey l k h = (r, v)"
  shows "hotkeys_ok v \<and> (r = Inr () \<longrightarrow> hk_registered v = Some (trim k) \<and> map_of (settings (hk_db v)) ''hotkey'' = Some k \<and> hk_error v = None)
    \<and> (trim k = [] \<or> hl_parse l (trim k) \<noteq> Inr () \<longrightarrow> hk_registered v = hk_registered h \<and> hk_db v = hk_db h)"
proof -
  obtain q u where n: "register_native l k h = (q, u)" by fastforce
  show ?thesis
  proof (rule register_native_cases [OF n], goal_cases kept lost bound)
    case bound
    obtain q' d where s: "set_setting ''hotkey'' k (hk_db h) = (q', d)" by fastforce
    with bound n assms show ?thesis
      by (auto simp: set_hotkey_def register_hotkey_def hk_db_cmd_def act_simps hotkeys_ok_def set_setting_def map_err_eq_Inr
          split: sum.splits dest!: execute_Inr simp: map_of_upsert)
  qed (use assms n in \<open>auto simp: set_hotkey_def register_hotkey_def act_simps hotkeys_ok_def\<close>)
qed

end
