(* ===== verification/Main_Window.thy ===== *)
theory Main_Window
  imports Prelude "HOL-Library.Word"
begin

text \<open>
  The overlay window: showing it, and hiding it after a short delay that lets the web view paint
  (\<^verbatim>\<open>entrance.rs\<close>), with everything that asks for either: the shortcut (\<^verbatim>\<open>hotkey.rs\<close>), the tray
  (\<^verbatim>\<open>share.rs\<close>), the focus and close handlers (\<^verbatim>\<open>main.rs\<close>) and the commands of the user interface
  (\<^verbatim>\<open>commands.rs\<close>).  A hide still waiting must not take away a window that was shown again meanwhile:
  the counter of shows tells.  The waiting tasks may finish in any order.  The window exists as long as the program runs, and a
  task's last look at the counter and its hide are one step.
\<close>

section \<open>The code\<close>

text \<open>\<open>mw_waiting\<close>: the generations of the hides that wait out their delay; \<open>mw_suppress\<close>: a folder
  picker is open.\<close>

record main_window =
  mw_visible :: bool
  mw_generation :: "64 word"
  mw_waiting :: "(64 word) list"
  mw_suppress :: bool

definition note_show :: "main_window \<Rightarrow> main_window" where
  "note_show w = w\<lparr>mw_generation := mw_generation w + 1\<rparr>"

definition hide :: "main_window \<Rightarrow> main_window" where
  "hide w = w\<lparr>mw_waiting := mw_waiting w @ [mw_generation w]\<rparr>"

text \<open>The \<open>n\<close>th waiting task goes on; \<open>hides\<close> tells whether the platform hides the window.\<close>

definition hide_after_delay :: "nat \<Rightarrow> bool \<Rightarrow> main_window \<Rightarrow> main_window" where
  "hide_after_delay n hides w = (if length (mw_waiting w) \<le> n then w
     else let g = mw_waiting w ! n; w' = w\<lparr>mw_waiting := take n (mw_waiting w) @ drop (Suc n) (mw_waiting w)\<rparr> in
       if mw_generation w' \<noteq> g then w'
       else if hides then w'\<lparr>mw_visible := False\<rparr> else w')"

text \<open>\<^verbatim>\<open>window.show()\<close>; \<open>shows\<close> tells whether the platform shows the window.\<close>

definition platform_show :: "bool \<Rightarrow> main_window \<Rightarrow> main_window" where
  "platform_show shows w = (if shows then w\<lparr>mw_visible := True\<rparr> else w)"

definition show_self :: "bool \<Rightarrow> main_window \<Rightarrow> main_window" where
  "show_self shows w = platform_show shows (note_show w)"

text \<open>\<open>seen\<close> is \<^verbatim>\<open>is_visible().unwrap_or(false)\<close>'s success.\<close>

definition toggle_self :: "bool \<Rightarrow> bool \<Rightarrow> main_window \<Rightarrow> main_window" where
  "toggle_self seen shows w = (if seen \<and> mw_visible w then hide w else platform_show shows (note_show w))"

text \<open>The shortcut: on Wayland the window is presented through the toolkit, elsewhere shown.\<close>

definition activate :: "bool \<Rightarrow> bool \<Rightarrow> main_window \<Rightarrow> main_window" where
  "activate seen shows w = (if seen \<and> mw_visible w then hide w else platform_show shows (note_show w))"

text \<open>\<open>centers\<close>: whether the window could be centred.\<close>

definition show_main_window :: "bool \<Rightarrow> bool \<Rightarrow> bool \<Rightarrow> main_window \<Rightarrow> (string, unit) res \<times> main_window" where
  "show_main_window centers shows focuses w0 = (let w = note_show w0 in
     if \<not> centers then (Inl ''center'', w)
     else if \<not> shows then (Inl ''show'', w)
     else let w' = platform_show shows w in if \<not> focuses then (Inl ''focus'', w') else (Inr (), w'))"

definition hide_window :: "main_window \<Rightarrow> (string, unit) res \<times> main_window" where
  "hide_window w = (Inr (), hide w)"

definition focus_lost :: "main_window \<Rightarrow> main_window" where
  "focus_lost w = (if \<not> mw_suppress w then hide w else w)"

definition close_requested :: "main_window \<Rightarrow> main_window" where
  "close_requested w = hide w"

text \<open>\<^verbatim>\<open>open_dir_picker\<close> before and after the dialog.\<close>

definition picker_opens :: "main_window \<Rightarrow> main_window" where
  "picker_opens w = w\<lparr>mw_suppress := True\<rparr>"

definition picker_closes :: "main_window \<Rightarrow> main_window" where
  "picker_closes w = w\<lparr>mw_suppress := False\<rparr>"

section \<open>Runs\<close>

datatype window_op = Show_Self bool | Toggle_Self bool bool | Activate bool bool | Show_Main bool bool bool
  | Hide_Window | Focus_Lost | Close_Requested | Picker_Opens | Picker_Closes | Delay_Over nat bool

fun window_do :: "window_op \<Rightarrow> main_window \<Rightarrow> main_window" where
  "window_do (Show_Self s) w = show_self s w"
| "window_do (Toggle_Self v s) w = toggle_self v s w"
| "window_do (Activate v s) w = activate v s w"
| "window_do (Show_Main c s f) w = snd (show_main_window c s f w)"
| "window_do Hide_Window w = snd (hide_window w)"
| "window_do Focus_Lost w = focus_lost w"
| "window_do Close_Requested w = close_requested w"
| "window_do Picker_Opens w = picker_opens w"
| "window_do Picker_Closes w = picker_closes w"
| "window_do (Delay_Over n h) w = hide_after_delay n h w"

definition window_run :: "window_op list \<Rightarrow> main_window \<Rightarrow> main_window" where
  "window_run ops w = foldl (\<lambda>v op. window_do op v) w ops"

text \<open>What the user last asked for: \<open>Some True\<close>, the window, and it was shown; \<open>Some False\<close>, no window.
  After a show or a hide that the platform refused, nothing is settled: \<open>Open\<close>.\<close>

datatype wish = Shown | Gone | Open

fun wish_of :: "window_op \<Rightarrow> main_window \<Rightarrow> wish option" where
  "wish_of (Show_Self s) w = Some (if s then Shown else Open)"
| "wish_of (Toggle_Self v s) w = Some (if v \<and> mw_visible w then Gone else if s then Shown else Open)"
| "wish_of (Activate v s) w = Some (if v \<and> mw_visible w then Gone else if s then Shown else Open)"
| "wish_of (Show_Main c s f) w = Some (if c \<and> s then Shown else Open)"
| "wish_of Hide_Window w = Some Gone"
| "wish_of Focus_Lost w = (if mw_suppress w then None else Some Gone)"
| "wish_of Close_Requested w = Some Gone"
| "wish_of (Delay_Over n h) w =
     (if n < length (mw_waiting w) \<and> mw_waiting w ! n = mw_generation w \<and> \<not> h then Some Open else None)"
| "wish_of _ w = None"

fun last_wish :: "window_op list \<Rightarrow> main_window \<Rightarrow> wish \<Rightarrow> wish" where
  "last_wish [] w d = d"
| "last_wish (op # ops) w d = last_wish ops (window_do op w) (case wish_of op w of None \<Rightarrow> d | Some s \<Rightarrow> s)"

text \<open>All delays pass.\<close>

definition settle :: "main_window \<Rightarrow> main_window" where
  "settle w = window_run (replicate (length (mw_waiting w)) (Delay_Over 0 True)) w"

section \<open>The last request wins\<close>

text \<open>After \<open>n\<close> shows: the waiting generations are not newer than the current one, and when the last
  wish is the window it is visible and no waiting hide is of its generation.  When the last wish was
  no window, either a hide of the current generation waits or the window is hidden already.\<close>

definition window_inv :: "nat \<Rightarrow> wish \<Rightarrow> main_window \<Rightarrow> bool" where
  "window_inv n d w \<longleftrightarrow> mw_generation w = word_of_nat n \<and> list_all (\<lambda>g. unat g \<le> n) (mw_waiting w)
     \<and> (d = Shown \<longrightarrow> mw_visible w \<and> mw_generation w \<notin> set (mw_waiting w))
     \<and> (d = Gone \<longrightarrow> mw_generation w \<in> set (mw_waiting w) \<or> \<not> mw_visible w)"

lemma fresh_generation:
  assumes "list_all (\<lambda>g. unat g \<le> n) gs" "Suc n < 2 ^ 64"
  shows "(word_of_nat n :: 64 word) + 1 \<notin> set gs" "unat ((word_of_nat n :: 64 word) + 1) = Suc n"
proof -
  have "(word_of_nat n :: 64 word) + 1 = word_of_nat (Suc n)" by simp
  then show u: "unat ((word_of_nat n :: 64 word) + 1) = Suc n"
    using assms(2) by (simp add: unsigned_of_nat take_bit_nat_eq_self del: of_nat_Suc)
  then show "(word_of_nat n :: 64 word) + 1 \<notin> set gs"
    using assms(1) by (auto simp: list_all_iff)
qed

lemma inv_show:
  assumes "window_inv n d w" "Suc n < 2 ^ 64"
  shows "window_inv (Suc n) (if s then Shown else Open) (platform_show s (note_show w))"
    and "window_inv (Suc n) Open (note_show w)"
  using assms fresh_generation [of n "mw_waiting w"]
  by (auto simp: window_inv_def platform_show_def note_show_def list_all_iff add.commute)

lemma inv_hide: "window_inv n d w \<Longrightarrow> n < 2 ^ 64 \<Longrightarrow> window_inv n Gone (hide w)"
  by (auto simp: window_inv_def hide_def unsigned_of_nat take_bit_nat_eq_self)

lemma take_drop_mem: "x \<in> set (take n xs @ drop (Suc n) xs) \<Longrightarrow> x \<in> set xs"
  by (auto dest: in_set_takeD in_set_dropD)

lemma waiting_others: "n < length xs \<Longrightarrow> x \<in> set xs \<Longrightarrow> xs ! n \<noteq> x \<Longrightarrow> x \<in> set (take n xs @ drop (Suc n) xs)"
  by (subst (asm) (2) id_take_nth_drop [of n xs]) auto

lemma inv_delay:
  assumes "window_inv n d w"
  shows "window_inv n (case wish_of (Delay_Over k h) w of None \<Rightarrow> d | Some s \<Rightarrow> s) (hide_after_delay k h w)"
proof (cases "k < length (mw_waiting w)")
  case True
  with assms show ?thesis
    using waiting_others [OF True, of "mw_generation w"] take_drop_mem [of _ k "mw_waiting w"] nth_mem [OF True]
    by (cases d) (auto simp: window_inv_def hide_after_delay_def Let_def list_all_iff)
qed (use assms in \<open>simp add: hide_after_delay_def\<close>)

lemma inv_suppress: "window_inv n d (w\<lparr>mw_suppress := b\<rparr>) = window_inv n d w"
  by (simp add: window_inv_def)

lemma inv_step:
  assumes "window_inv n d w" "Suc n < 2 ^ 64"
  shows "\<exists>m \<le> Suc n. window_inv m (case wish_of op w of None \<Rightarrow> d | Some s \<Rightarrow> s) (window_do op w)"
proof -
  have hide: "window_inv n Gone (hide w)" using inv_hide assms by simp
  note keep = exI [of _ n] and new = exI [of _ "Suc n"]
  note show_inv = inv_show [OF assms]
  show ?thesis
  proof (cases op)
    case (Delay_Over k h)
    then show ?thesis using inv_delay [OF assms(1), of k h] by (intro keep) (simp del: wish_of.simps)
  next
    case (Show_Self s)
    then show ?thesis using show_inv(1) [of s] by (intro new) (simp add: show_self_def)
  next
    case (Toggle_Self v s)
    then show ?thesis using show_inv(1) [of s] hide
      by (cases "v \<and> mw_visible w") (force simp: toggle_self_def intro: keep new)+
  next
    case (Activate v s)
    then show ?thesis using show_inv(1) [of s] hide
      by (cases "v \<and> mw_visible w") (force simp: activate_def intro: keep new)+
  next
    case (Show_Main c s f)
    then show ?thesis using show_inv(1) [of True] show_inv(2)
      by (intro new) (simp add: show_main_window_def Let_def)
  next
    case Focus_Lost
    then show ?thesis using hide assms(1) by (intro keep) (simp add: focus_lost_def)
  qed (use hide assms(1) in \<open>intro keep, simp add: hide_window_def close_requested_def picker_opens_def picker_closes_def inv_suppress\<close>)+
qed

lemma inv_run:
  assumes "window_inv n d w" "n + length ops < 2 ^ 64"
  shows "\<exists>m. window_inv m (last_wish ops w d) (window_run ops w)"
  using assms
proof (induction ops arbitrary: n d w)
  case (Cons op ops)
  then obtain m where "m \<le> Suc n" "window_inv m (case wish_of op w of None \<Rightarrow> d | Some s \<Rightarrow> s) (window_do op w)"
    using inv_step [of n d w op] by auto
  with Cons.IH [of m _ "window_do op w"] Cons.prems(2) show ?case by (simp add: window_run_def del: wish_of.simps)
qed (auto simp: window_run_def)

text \<open>When the delays pass nothing waits any more.\<close>

lemma delay_first:
  "mw_waiting w = g # gs \<Longrightarrow> hide_after_delay 0 True w = w\<lparr>mw_waiting := gs, mw_visible := mw_visible w \<and> mw_generation w \<noteq> g\<rparr>"
  by (simp add: hide_after_delay_def Let_def)

lemma settle_visible: "mw_visible (settle w) \<longleftrightarrow> mw_visible w \<and> mw_generation w \<notin> set (mw_waiting w)"
proof (induction "mw_waiting w" arbitrary: w)
  case (Cons g gs)
  let ?v = "w\<lparr>mw_waiting := gs, mw_visible := mw_visible w \<and> mw_generation w \<noteq> g\<rparr>"
  have "settle w = settle ?v"
    using Cons.hyps(2) delay_first [of w g gs] by (simp add: settle_def window_run_def Cons.hyps(2) [symmetric])
  with Cons.hyps(1) [of ?v] Cons.hyps(2) show ?case by (auto simp: Cons.hyps(2) [symmetric])
qed (simp add: settle_def window_run_def)

text \<open>
  C39.  The last request wins: for any sequence of shows, hides, toggles, focus changes and delays
  passing in any order (fewer than 2 to the 64), if the last thing asked for was the window it is on
  the screen and no hide still waiting takes it away, and if the last thing asked for was to hide it,
  it is gone once the delays have passed.
\<close>

theorem last_request_wins:
  assumes "length ops < 2 ^ 64" "mw_generation w = 0" "mw_waiting w = []"
  shows "case last_wish ops w Open of
      Shown \<Rightarrow> mw_visible (window_run ops w) \<and> mw_visible (settle (window_run ops w))
    | Gone \<Rightarrow> \<not> mw_visible (settle (window_run ops w))
    | Open \<Rightarrow> True"
proof -
  have "window_inv 0 Open w" using assms(2,3) by (simp add: window_inv_def)
  from inv_run [OF this, of ops] assms(1) obtain m where "window_inv m (last_wish ops w Open) (window_run ops w)" by auto
  then show ?thesis by (auto simp: window_inv_def settle_visible split: wish.split)
qed

lemma last_request_wins_witness:
  "\<exists>w. last_wish [Hide_Window, Activate True True, Focus_Lost, Show_Self True, Delay_Over 0 True] w Open = Shown \<and> mw_visible (settle
     (window_run [Hide_Window, Activate True True, Focus_Lost, Show_Self True, Delay_Over 0 True] w))"
proof -
  let ?w = "\<lparr> mw_visible = False, mw_generation = 0, mw_waiting = [], mw_suppress = False \<rparr>"
  let ?ops = "[Hide_Window, Activate True True, Focus_Lost, Show_Self True, Delay_Over 0 True]"
  have last: "last_wish ?ops ?w Open = Shown"
    by (simp add: hide_window_def hide_def activate_def platform_show_def note_show_def focus_lost_def show_self_def)
  with last_request_wins [of ?ops ?w] show ?thesis by (intro exI [of _ ?w]) simp
qed

end
