(* ===== verification/Tray.thy ===== *)
theory Tray
  imports Main_Window
begin

text \<open>
  The shared tray (\<^verbatim>\<open>share.rs\<close>): the host owns the icon, keeps the connections of the sibling
  applications and forwards what the menu asks of them; an application that is not connected is
  launched, and the show it was launched for waits until it registers.  The control channel is the
  core library's: a connection is a number, a command written to it goes to the end of a log, and
  whether writing and cloning a stream succeed are inputs.  The menu runs on the main thread and each
  connection on a thread of its own; the two halves of a forwarded show are also operations of their
  own, the handling of one command of a connection is one step.
\<close>

section \<open>The code\<close>

datatype app_kind = Synapt | SynaptClip

datatype tray_command = Show app_kind | Toggle app_kind | Quit | Register app_kind

definition SELF_KIND :: app_kind where "SELF_KIND = Synapt"

text \<open>\<open>tr_registered\<close> is the local variable of each connection's thread, \<open>tr_wrote\<close> the commands
  delivered, \<open>tr_launched\<close> the applications started, \<open>tr_exited\<close> whether this program has quit.\<close>

record tray_host =
  tr_clients :: "app_kind \<rightharpoonup> nat"
  tr_pending :: "app_kind set"
  tr_registered :: "nat \<Rightarrow> app_kind option"
  tr_wrote :: "(nat \<times> tray_command) list"
  tr_launched :: "app_kind list"
  tr_window :: main_window
  tr_exited :: bool

definition host_default :: "main_window \<Rightarrow> tray_host" where
  "host_default w = \<lparr> tr_clients = Map.empty, tr_pending = {}, tr_registered = (\<lambda>_. None), tr_wrote = [],
     tr_launched = [], tr_window = w, tr_exited = False \<rparr>"

definition write_command :: "bool \<Rightarrow> nat \<Rightarrow> tray_command \<Rightarrow> tray_host \<Rightarrow> tray_host" where
  "write_command ok c cmd h = (if ok then h\<lparr>tr_wrote := tr_wrote h @ [(c, cmd)]\<rparr> else h)"

text \<open>A command that arrives on connection \<open>c\<close>.\<close>

definition client_command :: "bool \<Rightarrow> bool \<Rightarrow> nat \<Rightarrow> tray_command \<Rightarrow> tray_host \<Rightarrow> tray_host" where
  "client_command clones writes c cmd h = (case cmd of
       Register app \<Rightarrow> if \<not> clones then h
         else let h' = h\<lparr>tr_clients := (tr_clients h)(app \<mapsto> c), tr_registered := (tr_registered h)(c := Some app)\<rparr> in
           if app \<in> tr_pending h'
           then let h'' = h'\<lparr>tr_pending := tr_pending h' - {app}\<rparr> in
             (case tr_clients h'' app of Some s \<Rightarrow> write_command writes s (Show app) h'' | None \<Rightarrow> h'')
           else h'
     | _ \<Rightarrow> h)"

text \<open>The connection ends.\<close>

definition client_gone :: "nat \<Rightarrow> tray_host \<Rightarrow> tray_host" where
  "client_gone c h = (case tr_registered h c of
       Some app \<Rightarrow> h\<lparr>tr_clients := (tr_clients h)(app := None)\<rparr>
     | None \<Rightarrow> h)"

text \<open>\<open>route\<close> to the sibling: the first step tries its connection and answers whether the command was
  sent; if not, the second notes the show and launches the application (which may fail).\<close>

definition route_try :: "bool \<Rightarrow> app_kind \<Rightarrow> tray_command \<Rightarrow> tray_host \<Rightarrow> bool \<times> tray_host" where
  "route_try writes app cmd h = (case tr_clients h app of
       Some s \<Rightarrow> (writes, write_command writes s cmd h)
     | None \<Rightarrow> (False, h))"

definition launch_sibling :: "bool \<Rightarrow> app_kind \<Rightarrow> tray_host \<Rightarrow> tray_host" where
  "launch_sibling starts app h = (if starts then h\<lparr>tr_launched := tr_launched h @ [app]\<rparr> else h)"

definition route_pend :: "bool \<Rightarrow> app_kind \<Rightarrow> tray_host \<Rightarrow> tray_host" where
  "route_pend starts app h = launch_sibling starts app (h\<lparr>tr_pending := insert app (tr_pending h)\<rparr>)"

text \<open>\<open>confirmed\<close>: the user confirmed quitting; \<open>reached\<close> the clients to whom writing succeeded, in the
  order the map yields them.\<close>

definition route :: "bool \<Rightarrow> bool \<Rightarrow> bool \<Rightarrow> bool \<Rightarrow> bool \<Rightarrow> nat list \<Rightarrow> tray_command \<Rightarrow> tray_host \<Rightarrow> tray_host" where
  "route seen shows writes starts confirmed reached cmd h = (case cmd of
       Show app \<Rightarrow> if app = SELF_KIND then h\<lparr>tr_window := show_self shows (tr_window h)\<rparr>
         else (case route_try writes app cmd h of (sent, h') \<Rightarrow> if sent then h' else route_pend starts app h')
     | Toggle app \<Rightarrow> if app = SELF_KIND then h\<lparr>tr_window := toggle_self seen shows (tr_window h)\<rparr>
         else (case route_try writes app cmd h of (sent, h') \<Rightarrow> if sent then h' else route_pend starts app h')
     | Quit \<Rightarrow> if confirmed then (foldl (\<lambda>v c. write_command True c Quit v) h reached)\<lparr>tr_exited := True\<rparr> else h
     | Register app \<Rightarrow> h)"

text \<open>The other side: what a program that is a client does with a command from the host.\<close>

definition handle_self_command :: "bool \<Rightarrow> bool \<Rightarrow> tray_command \<Rightarrow> tray_host \<Rightarrow> tray_host" where
  "handle_self_command seen shows cmd h = (case cmd of
       Show app \<Rightarrow> if app = SELF_KIND then h\<lparr>tr_window := show_self shows (tr_window h)\<rparr> else h
     | Toggle app \<Rightarrow> if app = SELF_KIND then h\<lparr>tr_window := toggle_self seen shows (tr_window h)\<rparr> else h
     | Quit \<Rightarrow> h\<lparr>tr_exited := True\<rparr>
     | Register app \<Rightarrow> h)"

section \<open>Interleavings\<close>

text \<open>Connections are numbered as they are accepted and each ends once.  The last two operations are the
  halves of a show whose halves another thread separates.\<close>

datatype tray_op = Command nat tray_command bool bool | Closed nat | Menu tray_command bool bool bool bool bool "nat list"
  | Try_Show app_kind bool | Pend_Show app_kind bool

fun tray_do :: "tray_op \<Rightarrow> tray_host \<Rightarrow> tray_host" where
  "tray_do (Command c cmd clones writes) h = client_command clones writes c cmd h"
| "tray_do (Closed c) h = client_gone c h"
| "tray_do (Menu cmd seen shows writes starts confirmed reached) h = route seen shows writes starts confirmed reached cmd h"
| "tray_do (Try_Show app writes) h = snd (route_try writes app (Show app) h)"
| "tray_do (Pend_Show app starts) h = route_pend starts app h"

definition tray_run :: "tray_op list \<Rightarrow> tray_host \<Rightarrow> tray_host" where
  "tray_run ops h = foldl (\<lambda>v op. tray_do op v) h ops"

text \<open>The operation registers \<open>app\<close>.\<close>

definition registers :: "app_kind \<Rightarrow> tray_op \<Rightarrow> bool" where
  "registers app op = (case op of Command c cmd clones writes \<Rightarrow> cmd = Register app \<and> clones | _ \<Rightarrow> False)"

section \<open>A show is not lost\<close>

lemma pending_stays: "\<not> registers app op \<Longrightarrow> app \<in> tr_pending h \<Longrightarrow> app \<in> tr_pending (tray_do op h)"
proof (induction op h rule: tray_do.induct)
  case (3 cmd seen disp writes starts confirmed reached h)
  have "tr_pending (foldl (\<lambda>v c. write_command True c Quit v) h' cs) = tr_pending h'" for h' cs
    by (induction cs arbitrary: h') (simp_all add: write_command_def)
  with 3 show ?case
    by (auto simp: route_def route_try_def route_pend_def write_command_def launch_sibling_def split: tray_command.splits option.splits)
qed (auto simp: registers_def client_command_def client_gone_def route_try_def route_pend_def write_command_def
    launch_sibling_def Let_def split: tray_command.splits option.splits)

lemma pending_run: "list_all (\<lambda>op. \<not> registers app op) ops \<Longrightarrow> app \<in> tr_pending h \<Longrightarrow> app \<in> tr_pending (tray_run ops h)"
  by (induction ops arbitrary: h) (simp_all add: tray_run_def pending_stays)


text \<open>When the application registers between the two halves of the show, nothing is delivered: the show
  stays pending on a connected application.\<close>

lemma show_between_halves_lost:
  assumes "tr_clients h app = None" "app \<notin> tr_pending h"
  shows "let v = tray_run [Try_Show app True, Command c (Register app) True True, Pend_Show app True] h in
     tr_wrote v = tr_wrote h \<and> app \<in> tr_pending v \<and> tr_clients v app = Some c"
  using assms by (simp add: tray_run_def route_try_def client_command_def route_pend_def launch_sibling_def Let_def)

text \<open>A connection that ends takes the entry of its application with it, also when a newer connection
  has registered since.\<close>

lemma closing_drops_newer:
  "tr_clients (tray_run [Command 0 (Register app) True True, Command 1 (Register app) True True, Closed 0] h) app = None"
  by (auto simp: tray_run_def client_command_def client_gone_def write_command_def Let_def)


end
