(* ===== verification/Crash_Report.thy ===== *)
theory Crash_Report
  imports File_System
begin

text \<open>
  The crash log: written by the panic hook (\<^verbatim>\<open>crash.rs\<close>), shown, mailed and dismissed by the commands of
  the next session (\<^verbatim>\<open>commands.rs\<close>).  The platform's directories, version, operating system and time are
  arguments; percent-encoding is its library's.
\<close>

section \<open>Writing\<close>

definition APP_NAME :: string where "APP_NAME = ''Synapt''"
definition DATA_DIR :: string where "DATA_DIR = ''synapt''"
definition ISSUES_URL :: string where "ISSUES_URL = ''https://github.com/aatishbagal/synapt/issues''"

datatype panic_payload = StrPayload string | StringPayload string | OtherPayload

record panic_info =
  pi_location :: "(string \<times> nat \<times> nat) option"
  pi_payload :: panic_payload

record build_env =
  be_version :: string
  be_os :: string
  be_arch :: string

definition payload_message :: "panic_info \<Rightarrow> string" where
  "payload_message i = (case pi_payload i of StrPayload s \<Rightarrow> s | StringPayload s \<Rightarrow> s
     | OtherPayload \<Rightarrow> ''unknown panic payload'')"

text \<open>The text the hook installed by \<^verbatim>\<open>install_panic_hook\<close> makes of a panic.\<close>

definition panic_report :: "build_env \<Rightarrow> string \<Rightarrow> panic_info \<Rightarrow> string" where
  "panic_report e timestamp i =
     (let location = (case pi_location i of Some (f, l, c) \<Rightarrow> f @ '':'' @ show_nat l @ '':'' @ show_nat c
        | None \<Rightarrow> ''unknown location'')
      in APP_NAME @ '' crash report'' @ nl @ ''==================='' @ nl
       @ ''Version:   '' @ be_version e @ nl @ ''Timestamp: '' @ timestamp @ nl
       @ ''OS:        '' @ be_os e @ '' '' @ be_arch e @ nl @ nl
       @ ''Panic location: '' @ location @ nl @ ''Panic message:  '' @ payload_message i @ nl @ nl
       @ ''Please report this at '' @ ISSUES_URL @ nl @ ''Attach this file when filing the report.'' @ nl @ nl)"

definition log_path :: "path option \<Rightarrow> path option" where
  "log_path data_dir = map_option (\<lambda>d. path_join (path_join d DATA_DIR) ''crash.log'') data_dir"

text \<open>A write in append mode goes to the end of the file.\<close>

definition file_append :: "path \<Rightarrow> bytes \<Rightarrow> unit fs_act" where
  "file_append p chunk = fs_call (\<lambda>s. case fs_nodes s p of
       Some (FileNode b) \<Rightarrow> (Inr (), s\<lparr>fs_nodes := (fs_nodes s)(p \<mapsto> FileNode (b @ chunk))\<rparr>)
     | _ \<Rightarrow> (Inl (), s))"

definition append_report :: "path \<Rightarrow> string \<Rightarrow> unit fs_act" where
  "append_report p report =
     act_then (case path_parent p of Some parent \<Rightarrow> create_dir_all parent | None \<Rightarrow> act_ret ())
     (act_then (file_open_write False p) (file_append p (utf8 report)))"

definition write_report :: "path option \<Rightarrow> string \<Rightarrow> path fs_act" where
  "write_report data_dir report = act_bind (act_lift (ok_or () (log_path data_dir))) (\<lambda>p.
     act_then (append_report p report) (act_ret p))"

text \<open>The hook itself: the outcome of writing is only printed.\<close>

definition panic_hook :: "build_env \<Rightarrow> path option \<Rightarrow> string \<Rightarrow> panic_info \<Rightarrow> unit fs_act" where
  "panic_hook e data_dir timestamp i = act_ignore (write_report data_dir (panic_report e timestamp i))"

section \<open>Reading\<close>

text \<open>\<^verbatim>\<open>read_to_string\<close>: UTF-8 in the range of the model's characters.\<close>

fun from_utf8 :: "bytes \<Rightarrow> string option" where
  "from_utf8 [] = Some []"
| "from_utf8 (b # bs) = (if b < 128 then map_option (\<lambda>s. char_of (unat b) # s) (from_utf8 bs)
     else case bs of [] \<Rightarrow> None
       | c # cs \<Rightarrow> if (b = 194 \<or> b = 195) \<and> 128 \<le> c \<and> c < 192
           then map_option (\<lambda>s. char_of (unat c + (if b = 195 then 64 else 0)) # s) (from_utf8 cs) else None)"

definition is_file :: "path \<Rightarrow> fs \<Rightarrow> bool" where
  "is_file p s = (case fs_nodes s p of Some (FileNode _) \<Rightarrow> True | _ \<Rightarrow> False)"

definition get_crash_log_path :: "path option \<Rightarrow> fs \<Rightarrow> path option" where
  "get_crash_log_path data_dir s = (case log_path data_dir of
       Some p \<Rightarrow> if is_file p s then Some p else None | None \<Rightarrow> None)"

definition CRASH_REPORT_ADDRESS :: string where "CRASH_REPORT_ADDRESS = ''synapt.reports@aatish.io''"
definition CRASH_REPORT_MAX_CHARS :: nat where "CRASH_REPORT_MAX_CHARS = 2000"

record crash_report =
  cr_path :: string
  cr_content :: string
  cr_version :: string
  cr_os :: string

definition os_label :: "build_env \<Rightarrow> string" where
  "os_label e = be_os e @ '' '' @ be_arch e"

definition tail_chars :: "string \<Rightarrow> nat \<Rightarrow> string" where
  "tail_chars s n = drop (length s - n) s"

definition check_crash_log :: "build_env \<Rightarrow> path option \<Rightarrow> string \<Rightarrow> (fs, string, crash_report option) act" where
  "check_crash_log e data_dir io s = (case get_crash_log_path data_dir s of
       None \<Rightarrow> (Inr None, s)
     | Some p \<Rightarrow> act_bind (act_map_err (\<lambda>_. io) (file_read p)) (\<lambda>b.
         act_bind (act_lift (ok_or io (from_utf8 b))) (\<lambda>content.
         if trim content = [] then act_ret None
         else act_ret (Some \<lparr> cr_path = p, cr_content = tail_chars content CRASH_REPORT_MAX_CHARS,
           cr_version = be_version e, cr_os = os_label e \<rparr>))) s)"

text \<open>Removing a file that does not exist fails with \<^verbatim>\<open>NotFound\<close>, which is no error here.\<close>

definition dismiss_crash_log :: "path option \<Rightarrow> string \<Rightarrow> (fs, string, unit) act" where
  "dismiss_crash_log data_dir io s = (case log_path data_dir of
       None \<Rightarrow> (Inr (), s)
     | Some p \<Rightarrow> (case remove_file p s of
           (Inr _, s') \<Rightarrow> (Inr (), s')
         | (Inl _, s') \<Rightarrow> if fs_nodes s p = None then (Inr (), s') else (Inl io, s')))"

section \<open>The report by mail\<close>

text \<open>\<^verbatim>\<open>replace("\r\n", "\n")\<close> and \<^verbatim>\<open>replace('\n', "\r\n")\<close>\<close>

fun lf_only :: "string \<Rightarrow> string" where
  "lf_only (c # d # s) = (if code c = 13 \<and> code d = 10 then d # lf_only s else c # lf_only (d # s))"
| "lf_only s = s"

definition to_crlf :: "string \<Rightarrow> string" where
  "to_crlf s = concat (map (\<lambda>c. if code c = 10 then [char_of (13 :: nat), c] else [c]) s)"

definition crash_report_mailto :: "build_env \<Rightarrow> (string \<Rightarrow> string) \<Rightarrow> string \<Rightarrow> string" where
  "crash_report_mailto e encode content0 =
     (let os = os_label e; content = tail_chars content0 CRASH_REPORT_MAX_CHARS;
          subject = ''Crash report - '' @ APP_NAME @ '' v'' @ be_version e @ '' - '' @ os;
          body = ''Hi,'' @ nl @ nl @ ''I encountered a crash in '' @ APP_NAME @ '' v'' @ be_version e @ '' on '' @ os @ ''.'' @ nl @ nl
            @ ''Crash details:'' @ nl @ nl @ content @ nl @ nl @ ''---'' @ nl
            @ ''This report was generated automatically from the crash log.'';
          body' = to_crlf (lf_only body)
      in ''mailto:'' @ CRASH_REPORT_ADDRESS @ ''?subject='' @ encode subject @ ''&body='' @ encode body')"

section \<open>From the crash to the user\<close>

lemma unat_small [simp]: "n < 256 \<Longrightarrow> unat (word_of_nat n :: 8 word) = n"
  by (simp add: unsigned_of_nat take_bit_nat_eq_self)

lemma div_64: "n < 256 \<Longrightarrow> \<not> n < 128 \<Longrightarrow> n div 64 = 2 \<or> n div 64 = (3 :: nat)"
proof -
  assume "n < 256" "\<not> n < 128"
  then have "128 div 64 \<le> n div 64" "n div 64 \<le> 255 div 64" by (intro div_le_mono; simp)+
  then show ?thesis by simp linarith
qed

lemma from_utf8_char: "from_utf8 (utf8_char c @ bs) = map_option (\<lambda>s. c # s) (from_utf8 bs)"
proof (cases "code c < 128")
  case True
  then show ?thesis by (simp add: utf8_char_def word_less_nat_alt)
next
  case False
  obtain q r where qr: "code c div 64 = q" "code c mod 64 = r" by simp
  then have r: "r < 64" and c: "code c = 64 * q + r" by auto
  have "q = 2 \<or> q = 3" using False div_64 [of "code c"] qr(1) by simp
  then have "128 + r + (if q = 3 then 64 else 0) = code c" unfolding c by auto
  then have orig: "char_of (128 + r + (if q = 3 then 64 else 0)) = c" by (simp only: char_of_code)
  have u: "unat (word_of_nat (128 + r) :: 8 word) = 128 + r" using r by (intro unat_small) simp
  then have "(128 :: 8 word) \<le> word_of_nat (128 + r)" "word_of_nat (128 + r) < (192 :: 8 word)"
    using r by (simp_all add: word_less_nat_alt word_le_nat_alt del: of_nat_add)
  with \<open>q = 2 \<or> q = 3\<close> u orig False qr show ?thesis
    by (auto simp: utf8_char_def simp del: of_nat_add)
qed

lemma from_utf8_utf8: "from_utf8 (utf8 s @ bs) = map_option (\<lambda>t. s @ t) (from_utf8 bs)"
proof (induction s)
  case (Cons c s)
  have "utf8 (c # s) = utf8_char c @ utf8 s" by (simp add: utf8_def)
  with Cons show ?case by (simp add: from_utf8_char option.map_comp comp_def)
qed (simp add: option.map_ident)

lemma from_utf8_append: "from_utf8 b = Some t \<Longrightarrow> from_utf8 (b @ bs) = map_option (\<lambda>u. t @ u) (from_utf8 bs)"
proof (induction b arbitrary: t rule: from_utf8.induct)
  case (2 b r)
  show ?case
  proof (cases "b < 128")
    case True
    with 2(3) obtain t' where "from_utf8 r = Some t'" "t = char_of (unat b) # t'" by auto
    with 2(1) [OF True] True show ?thesis by (simp add: option.map_comp comp_def)
  next
    case False
    with 2(3) obtain c cs where r: "r = c # cs" by (cases r) auto
    with False 2(3) obtain t' where "(b = 194 \<or> b = 195) \<and> 128 \<le> c \<and> c < 192" "from_utf8 cs = Some t'"
      "t = char_of (unat c + (if b = 195 then 64 else 0)) # t'"
      by (auto split: if_split_asm)
    with 2(2) [OF False r] False r show ?thesis by (simp add: option.map_comp comp_def)
  qed
next
  case 1
  then show ?case by (cases "from_utf8 bs") auto
qed

lemma trim_blank_iff: "trim s = [] \<longleftrightarrow> list_all is_ws s"
proof -
  have "dropWhile is_ws t = [] \<longleftrightarrow> list_all is_ws t" for t by (induction t) auto
  then have "trim s = [] \<longleftrightarrow> list_all is_ws (rev (dropWhile is_ws s))"
    by (simp add: trim_def trim_start_def trim_end_def)
  also have "\<dots> \<longleftrightarrow> list_all is_ws s"
    by (induction s) (auto simp: list_all_iff)
  finally show ?thesis .
qed

lemma report_not_blank: "trim (old @ panic_report e ts i) \<noteq> []"
  by (auto simp: trim_blank_iff panic_report_def Let_def APP_NAME_def is_ws_def code_def)

text \<open>
  A crash reaches the user: when the log can be written, the next session shows the end of the log,
  which is the new report after what was there before (with the whole report, if it fits), and once the
  user has dismissed it nothing is shown any more.
\<close>

lemma crash_reaches_user:
  fixes e data_dir ts i s
  assumes "fs_faults s = []" "log_path data_dir = Some p" "path_parent p = Some d" "d \<noteq> p"
    and "fs_nodes s d = None \<or> (\<exists>n. fs_nodes s d = Some (DirNode n))"
    and "(case fs_nodes s p of None \<Rightarrow> Some [] | Some (FileNode b) \<Rightarrow> from_utf8 b | Some (DirNode _) \<Rightarrow> None) = Some old"
  defines "s1 \<equiv> snd (panic_hook e data_dir ts i s)"
  shows "check_crash_log e data_dir io s1 = (Inr (Some \<lparr> cr_path = p,
      cr_content = tail_chars (old @ panic_report e ts i) 2000, cr_version = be_version e, cr_os = os_label e \<rparr>), s1)"
    and "\<exists>s2. dismiss_crash_log data_dir io s1 = (Inr (), s2) \<and> check_crash_log e data_dir io s2 = (Inr None, s2)"
proof -
  obtain b where b: "fs_nodes s p = None \<and> b = [] \<or> fs_nodes s p = Some (FileNode b)" "from_utf8 b = Some old"
    using assms(6) by (cases "fs_nodes s p") (auto split: node.splits)
  let ?r = "panic_report e ts i"
  have s1: "fs_nodes s1 p = Some (FileNode (b @ utf8 ?r))" "fs_faults s1 = []"
    using assms(1-5) b(1)
    by (auto simp: s1_def panic_hook_def write_report_def append_report_def create_dir_all_def file_open_write_def file_append_def
        fs_call_def act_simps)
  have t: "from_utf8 (b @ utf8 ?r) = Some (old @ ?r)"
    using from_utf8_append [OF b(2)] from_utf8_utf8 [of ?r "[]"] by simp
  show "check_crash_log e data_dir io s1 = (Inr (Some \<lparr> cr_path = p,
      cr_content = tail_chars (old @ ?r) 2000, cr_version = be_version e, cr_os = os_label e \<rparr>), s1)"
    using s1 t assms(2) report_not_blank [of old e ts i]
    by (simp add: check_crash_log_def get_crash_log_path_def is_file_def file_read_def fs_call_def act_simps CRASH_REPORT_MAX_CHARS_def)
  show "\<exists>s2. dismiss_crash_log data_dir io s1 = (Inr (), s2) \<and> check_crash_log e data_dir io s2 = (Inr None, s2)"
    using s1 assms(2)
    by (simp add: dismiss_crash_log_def remove_file_def fs_call_def check_crash_log_def get_crash_log_path_def is_file_def)
qed

end
