(* ===== verification/Autostart.thy ===== *)
theory Autostart
  imports File_System
begin

text \<open>
  Starting with the session (\<^verbatim>\<open>platform/autostart.rs\<close>, Linux): a systemd user unit.  Running
  \<^verbatim>\<open>systemctl\<close> is an input: whether it could be started, and the exit status of \<^verbatim>\<open>is-enabled\<close>; the
  state logs the argument lists.
\<close>

section \<open>The platform\<close>

text \<open>\<^verbatim>\<open>platform/mod.rs\<close>: the display server of the Linux build, from the session's type and the exit
  of \<^verbatim>\<open>wl-paste\<close> (\<open>None\<close>: not started).\<close>

datatype display_server = WaylandGnome | WaylandWlroots | X11 | Windows | MacOS

definition is_wlroots_available :: "bool option \<Rightarrow> bool" where
  "is_wlroots_available wl_paste = (case wl_paste of Some ok \<Rightarrow> ok | None \<Rightarrow> False)"

definition detect :: "string option \<Rightarrow> bool option \<Rightarrow> display_server" where
  "detect xdg_session_type wl_paste = (if xdg_session_type = Some ''wayland''
     then if is_wlroots_available wl_paste then WaylandWlroots else WaylandGnome else X11)"

section \<open>The unit\<close>

datatype autostart_error = AsIo | AsPath string | AsNotSupported

record autostart_world =
  as_fs :: fs
  as_config_dir :: "path option"
  as_ran :: "string list list"
  as_spawn_faults :: "bool list"

type_synonym 'a autostart_act = "(autostart_world, autostart_error, 'a) act"

definition SERVICE_NAME :: string where "SERVICE_NAME = ''synapt.service''"

definition as_on_fs :: "'a fs_act \<Rightarrow> 'a autostart_act" where
  "as_on_fs m w = (case m (as_fs w) of (r, s) \<Rightarrow> (map_err (\<lambda>_. AsIo) r, w\<lparr>as_fs := s\<rparr>))"

text \<open>\<^verbatim>\<open>Command::new("systemctl").args(args).status()\<close>: an error only when it cannot be started.\<close>

definition systemctl :: "string list \<Rightarrow> unit autostart_act" where
  "systemctl args w = (let w' = w\<lparr>as_spawn_faults := tl (as_spawn_faults w)\<rparr> in
     if as_spawn_faults w \<noteq> [] \<and> hd (as_spawn_faults w) then (Inl AsIo, w')
     else (Inr (), w'\<lparr>as_ran := as_ran w @ [args]\<rparr>))"

definition service_path :: "path autostart_act" where
  "service_path = act_bind (act_get as_config_dir) (\<lambda>d.
     act_bind (act_lift (ok_or (AsPath ''no config dir'') d)) (\<lambda>p.
     act_ret (path_join (path_join (path_join p ''systemd'') ''user'') SERVICE_NAME)))"

definition service_contents :: "string \<Rightarrow> string" where
  "service_contents exe_path = ''[Unit]'' @ nl @ ''Description=Synapt launcher'' @ nl @ ''After=graphical-session.target'' @ nl @ nl
     @ ''[Service]'' @ nl @ ''Type=simple'' @ nl @ ''ExecStart='' @ exe_path @ nl @ ''Restart=on-failure'' @ nl @ ''RestartSec=5'' @ nl @ nl
     @ ''[Install]'' @ nl @ ''WantedBy=default.target'' @ nl"

definition enable_linux :: "string \<Rightarrow> unit autostart_act" where
  "enable_linux exe_path = act_bind service_path (\<lambda>p.
     act_then (case path_parent p of Some dir \<Rightarrow> as_on_fs (create_dir_all dir) | None \<Rightarrow> act_ret ())
     (act_then (as_on_fs (file_open_write True p))
     (act_then (as_on_fs (file_write p 0 (utf8 (service_contents exe_path))))
     (act_then (systemctl [''--user'', ''daemon-reload''])
       (systemctl [''--user'', ''enable'', SERVICE_NAME])))))"

definition disable_linux :: "unit autostart_act" where
  "disable_linux = act_then (act_ignore (systemctl [''--user'', ''disable'', SERVICE_NAME]))
     (act_bind (act_try service_path) (\<lambda>r.
     act_then (case r of Inr p \<Rightarrow> act_ignore (as_on_fs (remove_file p)) | Inl _ \<Rightarrow> act_ret ())
     (act_then (act_ignore (systemctl [''--user'', ''daemon-reload''])) (act_ret ()))))"

text \<open>\<open>exit_ok\<close>: the exit status.\<close>

definition is_enabled_linux :: "bool \<Rightarrow> bool autostart_act" where
  "is_enabled_linux exit_ok = act_then (systemctl [''--user'', ''is-enabled'', SERVICE_NAME]) (act_ret exit_ok)"

definition enable :: "string \<Rightarrow> unit autostart_act" where
  "enable exe_path = enable_linux exe_path"

definition disable :: "unit autostart_act" where
  "disable = disable_linux"

definition is_enabled :: "bool \<Rightarrow> bool autostart_act" where
  "is_enabled exit_ok = is_enabled_linux exit_ok"

text \<open>\<open>text\<close> is the \<^verbatim>\<open>Display\<close> of errors; \<open>exe\<close> the path of the running program.\<close>

definition set_autostart :: "(autostart_error \<Rightarrow> string) \<Rightarrow> (string, string) res \<Rightarrow> bool \<Rightarrow> (autostart_world, string, unit) act" where
  "set_autostart err_of exe enabled = act_bind (act_lift exe) (\<lambda>exe_path.
     if enabled then act_map_err err_of (enable exe_path) else act_map_err err_of disable)"

definition get_autostart :: "(autostart_error \<Rightarrow> string) \<Rightarrow> bool \<Rightarrow> (autostart_world, string, bool) act" where
  "get_autostart err_of exit_ok = act_map_err err_of (is_enabled exit_ok)"

section \<open>The unit file follows the switch\<close>

definition unit_file :: "autostart_world \<Rightarrow> path option" where
  "unit_file w = map_option (\<lambda>p. path_join (path_join (path_join p ''systemd'') ''user'') SERVICE_NAME) (as_config_dir w)"

text \<open>Switched on, the unit starts the program that is running, and systemd was told; switched off, with
  a file system that does not fail, there is no unit, whatever systemctl does.\<close>

lemma enabled_unit:
  assumes "set_autostart err_of (Inr exe) True w = (Inr (), v)"
  shows "\<exists>p. unit_file w = Some p \<and> fs_nodes (as_fs v) p = Some (FileNode (utf8 (service_contents exe)))
    \<and> as_ran v = as_ran w @ [[''--user'', ''daemon-reload''], [''--user'', ''enable'', SERVICE_NAME]]"
proof -
  have run: "enable_linux exe w = (Inr (), v)"
    using assms by (auto simp: set_autostart_def enable_def act_simps map_err_eq_Inr split: prod.splits)
  then obtain p where p: "unit_file w = Some p" "service_path w = (Inr p, w)"
    by (cases "as_config_dir w") (auto simp: enable_linux_def service_path_def unit_file_def act_simps)
  obtain s1 b s2 c s3 d u where st: "file_open_write True p s1 = (Inr b, s2)" "file_write p 0 (utf8 (service_contents exe)) s2 = (Inr c, s3)"
    "systemctl [''--user'', ''daemon-reload''] (w\<lparr>as_fs := s3\<rparr>) = (Inr d, u)" "systemctl [''--user'', ''enable'', SERVICE_NAME] u = (Inr (), v)"
    using run p(2)
    by (auto simp: enable_linux_def act_simps as_on_fs_def map_err_eq_Inr split: prod.splits sum.splits option.splits)
  have "fs_nodes s2 p = Some (FileNode [])"
    using st(1) by (auto simp: file_open_write_def fs_call_def Let_def split: if_splits option.splits node.splits)
  then have "fs_nodes s3 p = Some (FileNode (utf8 (service_contents exe)))"
    using st(2) by (auto simp: file_write_def fs_call_def Let_def write_at_def split: if_splits)
  moreover have "as_fs v = s3" "as_ran v = as_ran w @ [[''--user'', ''daemon-reload''], [''--user'', ''enable'', SERVICE_NAME]]"
    using st(3,4) by (auto simp: systemctl_def Let_def split: if_splits)
  ultimately show ?thesis using p(1) by auto
qed

lemma disabled_unit:
  assumes "fs_faults (as_fs w) = []" "set_autostart err_of (Inr exe) False w = (r, v)" "unit_file w = Some p"
  shows "r = Inr () \<and> (\<forall>b. fs_nodes (as_fs v) p \<noteq> Some (FileNode b))"
  using assms
  by (auto simp: set_autostart_def disable_def disable_linux_def unit_file_def service_path_def act_simps as_on_fs_def
      systemctl_def Let_def remove_file_def fs_call_def split: prod.splits option.splits node.splits if_splits)

end
