(* ===== verification/Mac_Platform.thy ===== *)
theory Mac_Platform
  imports App_Indexer Trust_Store Autostart
begin

text \<open>
  The macOS build: application bundles with their icons (\<^verbatim>\<open>mod macos\<close> of \<^verbatim>\<open>search/app_indexer.rs\<close>) and the
  LaunchAgent (\<^verbatim>\<open>mod macos\<close> of \<^verbatim>\<open>platform/autostart.rs\<close>).  Property lists are parsed by their library, icons
  are converted by the \<^verbatim>\<open>sips\<close> program and, failing that, drawn by AppKit: all three are inputs.  The
  state of the icon cache is a file system with modification times.
\<close>

section \<open>The icon cache\<close>

text \<open>A dictionary maps a key to its string, or to \<open>None\<close> when the value is of another kind.\<close>

datatype plist_file = PlistError string | PlistOther | PlistDict "string \<rightharpoonup> string option"

record icon_world =
  iw_fs :: fs
  iw_modified :: "path \<Rightarrow> int option"
  iw_clock :: int
  iw_extracted :: nat

text \<open>What the platform answers: the cache directory, what a run of \<^verbatim>\<open>sips\<close> on a file gives (whether it exits
  with success, and the icon it writes, if any), AppKit's picture of a bundle, and property lists.\<close>

record mac_env =
  mc_home :: "path option"
  mc_cache :: "path option"
  mc_exists :: "path \<Rightarrow> bool"
  mc_list :: "path \<Rightarrow> string option list option"
  mc_plist :: "path \<Rightarrow> plist_file"
  mc_is_file :: "path \<Rightarrow> bool"
  mc_sips :: "path \<Rightarrow> bool \<times> bytes option"
  mc_appkit :: "path \<Rightarrow> bytes option"
  mc_digest :: "bytes \<Rightarrow> bytes"

text \<open>The cached file and the source, by their times; an unknown source time keeps the cached icon.\<close>

definition is_cache_fresh :: "path \<Rightarrow> path \<Rightarrow> icon_world \<Rightarrow> bool" where
  "is_cache_fresh icon source w = (case iw_modified w icon of
       None \<Rightarrow> False
     | Some cached_at \<Rightarrow> (case iw_modified w source of Some source_at \<Rightarrow> source_at \<le> cached_at | None \<Rightarrow> True))"

text \<open>Writing a file sets its time.\<close>

definition put_file :: "path \<Rightarrow> bytes \<Rightarrow> icon_world \<Rightarrow> icon_world" where
  "put_file p b w = w\<lparr>iw_fs := (iw_fs w)\<lparr>fs_nodes := (fs_nodes (iw_fs w))(p \<mapsto> FileNode b)\<rparr>,
     iw_modified := (iw_modified w)(p \<mapsto> iw_clock w)\<rparr>"

definition write_icon :: "path \<Rightarrow> bytes \<Rightarrow> icon_world \<Rightarrow> bool \<times> icon_world" where
  "write_icon p b w = (case act_then (file_open_write True p) (file_write p 0 b) (iw_fs w) of
       (Inl _, s) \<Rightarrow> (False, w\<lparr>iw_fs := s\<rparr>)
     | (Inr _, s) \<Rightarrow> (True, w\<lparr>iw_fs := s, iw_modified := (iw_modified w)(p \<mapsto> iw_clock w)\<rparr>))"

definition drop_file :: "path \<Rightarrow> icon_world \<Rightarrow> icon_world" where
  "drop_file p w = (case remove_file p (iw_fs w) of
       (Inl _, s) \<Rightarrow> w\<lparr>iw_fs := s\<rparr>
     | (Inr _, s) \<Rightarrow> w\<lparr>iw_fs := s, iw_modified := (iw_modified w)(p := None)\<rparr>)"

text \<open>The answer of \<^verbatim>\<open>sips\<close> counts only when the target is a file afterwards.\<close>

definition sips_convert :: "bool \<times> bytes option \<Rightarrow> path \<Rightarrow> icon_world \<Rightarrow> bool \<times> icon_world" where
  "sips_convert run dst w = (let w' = (case snd run of Some b \<Rightarrow> put_file dst b w | None \<Rightarrow> w) in
     (fst run \<and> (case fs_nodes (iw_fs w') dst of Some (FileNode _) \<Rightarrow> True | _ \<Rightarrow> False), w'))"

definition icns_path :: "mac_env \<Rightarrow> path \<Rightarrow> path option" where
  "icns_path e bundle = (case mc_plist e (path_join (path_join bundle ''Contents'') ''Info.plist'') of
       PlistDict d \<Rightarrow> (case d ''CFBundleIconFile'' of
           Some (Some name) \<Rightarrow>
             (let resources = path_join (path_join bundle ''Contents'') ''Resources'';
                  direct = path_join resources name;
                  with_ext = path_join resources (name @ ''.icns'') in
              if mc_is_file e direct then Some direct
              else if mc_is_file e with_ext then Some with_ext else None)
         | _ \<Rightarrow> None)
     | _ \<Rightarrow> None)"

text \<open>The tail of \<^verbatim>\<open>extract_icon\<close>: AppKit's picture through a temporary file.\<close>

definition icon_fallback :: "mac_env \<Rightarrow> path \<Rightarrow> path \<Rightarrow> path \<Rightarrow> icon_world \<Rightarrow> string option \<times> icon_world" where
  "icon_fallback e bundle tmp out w = (case mc_appkit e bundle of
       None \<Rightarrow> (None, w)
     | Some png \<Rightarrow> (case write_icon tmp png w of
           (False, w1) \<Rightarrow> (None, w1)
         | (True, w1) \<Rightarrow> (case sips_convert (mc_sips e tmp) out w1 of
               (converted, w2) \<Rightarrow> (if converted then Some out else None, drop_file tmp w2))))"

definition extract_icon :: "mac_env \<Rightarrow> path \<Rightarrow> icon_world \<Rightarrow> string option \<times> icon_world" where
  "extract_icon e bundle w = (case mc_cache e of
       None \<Rightarrow> (None, w)
     | Some c \<Rightarrow> let cache_dir = path_join (path_join c ''synapt'') ''app-icons'' in
       (case create_dir_all cache_dir (iw_fs w) of
          (Inl _, s) \<Rightarrow> (None, w\<lparr>iw_fs := s\<rparr>)
        | (Inr _, s) \<Rightarrow>
          let w1 = w\<lparr>iw_fs := s\<rparr>; digest = to_hex (mc_digest e (utf8 bundle)); out = path_join cache_dir (digest @ ''.png'') in
          if is_cache_fresh out bundle w1 then (Some out, w1)
          else let w2 = w1\<lparr>iw_extracted := iw_extracted w1 + 1\<rparr>; tmp = path_join cache_dir (digest @ ''.src.png'') in
            (case icns_path e bundle of
               Some icns \<Rightarrow> (case sips_convert (mc_sips e icns) out w2 of
                   (True, w3) \<Rightarrow> (Some out, w3)
                 | (False, w3) \<Rightarrow> icon_fallback e bundle tmp out w3)
             | None \<Rightarrow> icon_fallback e bundle tmp out w2)))"

section \<open>Bundles\<close>

definition stem_name :: "path \<Rightarrow> string" where
  "stem_name p = (case file_stem p of Some s \<Rightarrow> s | None \<Rightarrow> [])"

definition bundle_name :: "mac_env \<Rightarrow> path \<Rightarrow> (app_index_error, string) res" where
  "bundle_name e p = (let plist = path_join (path_join p ''Contents'') ''Info.plist'' in
     if mc_exists e plist
     then case mc_plist e plist of
         PlistError t \<Rightarrow> Inl (AiParse t)
       | PlistOther \<Rightarrow> Inl (AiParse ''plist not a dict'')
       | PlistDict d \<Rightarrow> Inr (case (case d ''CFBundleDisplayName'' of Some v \<Rightarrow> Some v | None \<Rightarrow> d ''CFBundleName'') of
             Some (Some s) \<Rightarrow> s | _ \<Rightarrow> stem_name p)
     else Inr (stem_name p))"

definition parse_app_bundle :: "mac_env \<Rightarrow> path \<Rightarrow> icon_world \<Rightarrow> (app_index_error, app_row) res \<times> icon_world" where
  "parse_app_bundle e p w = (case bundle_name e p of
       Inl err \<Rightarrow> (Inl err, w)
     | Inr name \<Rightarrow> if name = [] then (Inl (AiParse ''empty name''), w)
         else (case extract_icon e p w of
           (icon, w') \<Rightarrow> (Inr \<lparr> ar_id = 0, ar_name = name, ar_exec = p, ar_icon_path = icon,
              ar_platform = ''macos'', ar_source_path = p \<rparr>, w')))"

fun mac_entries :: "mac_env \<Rightarrow> path \<Rightarrow> string option list \<Rightarrow> app_row list \<Rightarrow> (icon_world, app_index_error, app_row list) act" where
  "mac_entries e dir [] apps w = (Inr apps, w)"
| "mac_entries e dir (None # xs) apps w = (Inl AiIo, w)"
| "mac_entries e dir (Some name # xs) apps w = (let p = path_join dir name in
     if path_extension p = Some ''app''
     then case parse_app_bundle e p w of
         (Inr app, w') \<Rightarrow> mac_entries e dir xs (apps @ [app]) w'
       | (Inl _, w') \<Rightarrow> mac_entries e dir xs apps w'
     else mac_entries e dir xs apps w)"

fun mac_dirs :: "mac_env \<Rightarrow> path list \<Rightarrow> app_row list \<Rightarrow> (icon_world, app_index_error, app_row list) act" where
  "mac_dirs e [] apps w = (Inr apps, w)"
| "mac_dirs e (dir # dirs) apps w = (if \<not> mc_exists e dir then mac_dirs e dirs apps w
     else case mc_list e dir of
         None \<Rightarrow> (Inl AiIo, w)
       | Some xs \<Rightarrow> (case mac_entries e dir xs apps w of
             (Inl err, w') \<Rightarrow> (Inl err, w')
           | (Inr apps', w') \<Rightarrow> mac_dirs e dirs apps' w'))"

definition mac_discover :: "mac_env \<Rightarrow> (icon_world, app_index_error, app_row list) act" where
  "mac_discover e = mac_dirs e [''/Applications'', path_join (case mc_home e of Some h \<Rightarrow> h | None \<Rightarrow> []) ''Applications''] []"

section \<open>The LaunchAgent\<close>

text \<open>\<open>home\<close> is the home directory; \<^verbatim>\<open>launchctl\<close> may not start, by the schedule of \<^const>\<open>systemctl\<close>, and its
  runs are logged with the same field.\<close>

definition LABEL :: string where "LABEL = ''dev.synapt.app''"

definition plist_path :: "path option \<Rightarrow> path autostart_act" where
  "plist_path home = act_bind (act_lift (ok_or (AsPath ''no home dir'') home)) (\<lambda>p.
     act_ret (path_join (path_join (path_join p ''Library'') ''LaunchAgents'') (LABEL @ ''.plist'')))"

definition plist_contents :: "string \<Rightarrow> string" where
  "plist_contents exe_path = (let q = [CHR 34] in
     ''<?xml version='' @ q @ ''1.0'' @ q @ '' encoding='' @ q @ ''UTF-8'' @ q @ ''?>'' @ nl
     @ ''<!DOCTYPE plist PUBLIC '' @ q @ ''-//Apple//DTD PLIST 1.0//EN'' @ q @ '' '' @ q
     @ ''http://www.apple.com/DTDs/PropertyList-1.0.dtd'' @ q @ ''>'' @ nl
     @ ''<plist version='' @ q @ ''1.0'' @ q @ ''><dict>'' @ nl
     @ ''  <key>Label</key><string>'' @ LABEL @ ''</string>'' @ nl
     @ ''  <key>ProgramArguments</key><array><string>'' @ exe_path @ ''</string></array>'' @ nl
     @ ''  <key>RunAtLoad</key><true/>'' @ nl
     @ ''  <key>KeepAlive</key><false/>'' @ nl
     @ ''</dict></plist>'' @ nl)"

definition launchctl :: "string list \<Rightarrow> unit autostart_act" where
  "launchctl args = systemctl args"

definition enable_macos :: "path option \<Rightarrow> string \<Rightarrow> unit autostart_act" where
  "enable_macos home exe_path = act_bind (plist_path home) (\<lambda>p.
     act_then (case path_parent p of Some dir \<Rightarrow> as_on_fs (create_dir_all dir) | None \<Rightarrow> act_ret ())
     (act_then (as_on_fs (file_open_write True p))
     (act_then (as_on_fs (file_write p 0 (utf8 (plist_contents exe_path))))
       (launchctl [''load'', p]))))"

definition disable_macos :: "path option \<Rightarrow> unit autostart_act" where
  "disable_macos home = act_bind (act_try (plist_path home)) (\<lambda>r. case r of
       Inr p \<Rightarrow> act_then (act_ignore (launchctl [''unload'', p])) (act_then (act_ignore (as_on_fs (remove_file p))) (act_ret ()))
     | Inl _ \<Rightarrow> act_ret ())"

text \<open>\<open>listed\<close> is the output of \<^verbatim>\<open>launchctl list\<close>.\<close>

definition is_enabled_macos :: "path option \<Rightarrow> string \<Rightarrow> bool autostart_act" where
  "is_enabled_macos home listed = act_bind (plist_path home) (\<lambda>p.
     act_bind (act_get (\<lambda>w. fs_nodes (as_fs w) p \<noteq> None)) (\<lambda>present.
     if \<not> present then act_ret False
     else act_then (launchctl [''list'']) (act_ret (contains listed LABEL))))"

section \<open>The cache\<close>

lemma fresh_of_times: "is_cache_fresh p q (w\<lparr>iw_fs := s\<rparr>) = is_cache_fresh p q w"
  by (simp add: is_cache_fresh_def cong: option.case_cong)

text \<open>A bundle that has not changed since its icon was cached costs no extraction: the scan answers with
  the cached file and leaves it alone.\<close>

lemma fresh_icon_reused:
  assumes "mc_cache e = Some c" "dir = path_join (path_join c ''synapt'') ''app-icons''"
    and "icon = path_join dir (to_hex (mc_digest e (utf8 bundle)) @ ''.png'')" "is_cache_fresh icon bundle w"
    and "create_dir_all dir (iw_fs w) = (Inr (), s)"
  shows "extract_icon e bundle w = (Some icon, w\<lparr>iw_fs := s\<rparr>)"
  using assms by (simp add: extract_icon_def Let_def fresh_of_times)

text \<open>An icon that has just been converted, from a bundle not modified in the future, is fresh.\<close>

lemma converted_icon_fresh:
  assumes "sips_convert (True, Some b) icon w = (ok, v)" "\<forall>t. iw_modified w bundle = Some t \<longrightarrow> t \<le> iw_clock w"
    and "icon \<noteq> bundle"
  shows "ok \<and> is_cache_fresh icon bundle v"
  using assms by (auto simp: sips_convert_def put_file_def is_cache_fresh_def Let_def split: option.splits)

text \<open>The rows of a scan are what the parser makes of the bundles, none of them without a name.\<close>

lemma mac_entries_named:
  assumes "mac_entries e dir xs apps w = (Inr rows, v)" "\<forall>a \<in> set apps. ar_name a \<noteq> []"
  shows "\<forall>a \<in> set rows. ar_name a \<noteq> []"
  using assms
proof (induction e dir xs apps w rule: mac_entries.induct)
  case (3 e dir n xs apps w)
  obtain r u where p: "parse_app_bundle e (path_join dir n) w = (r, u)" by fastforce
  have "ar_name a \<noteq> []" if "r = Inr a" for a
    using p that by (auto simp: parse_app_bundle_def split: sum.splits if_splits prod.splits)
  with 3 p show ?case
    by (cases r) (auto simp: Let_def split: if_splits)
qed auto

section \<open>The agent follows the switch\<close>

lemma enabled_agent:
  assumes "enable_macos (Some h) exe w = (Inr (), v)" "p = path_join (path_join (path_join h ''Library'') ''LaunchAgents'') (LABEL @ ''.plist'')"
  shows "fs_nodes (as_fs v) p = Some (FileNode (utf8 (plist_contents exe)))"
proof -
  obtain s1 b s2 c s3 where st: "file_open_write True p s1 = (Inr b, s2)"
    "file_write p 0 (utf8 (plist_contents exe)) s2 = (Inr c, s3)" "launchctl [''load'', p] (w\<lparr>as_fs := s3\<rparr>) = (Inr (), v)"
    using assms by (auto simp: enable_macos_def plist_path_def act_simps as_on_fs_def map_err_eq_Inr
        split: prod.splits sum.splits option.splits)
  have "fs_nodes s2 p = Some (FileNode [])"
    using st(1) by (auto simp: file_open_write_def fs_call_def Let_def split: if_splits option.splits node.splits)
  then have "fs_nodes s3 p = Some (FileNode (utf8 (plist_contents exe)))"
    using st(2) by (auto simp: file_write_def fs_call_def Let_def write_at_def split: if_splits)
  moreover have "as_fs v = s3"
    using st(3) by (auto simp: launchctl_def systemctl_def Let_def split: if_splits)
  ultimately show ?thesis by simp
qed

lemma disabled_agent:
  assumes "fs_faults (as_fs w) = []" "disable_macos (Some h) w = (r, v)"
    and "p = path_join (path_join (path_join h ''Library'') ''LaunchAgents'') (LABEL @ ''.plist'')"
  shows "r = Inr () \<and> (\<forall>b. fs_nodes (as_fs v) p \<noteq> Some (FileNode b))"
  using assms
  by (auto simp: disable_macos_def plist_path_def act_simps as_on_fs_def launchctl_def systemctl_def Let_def
      remove_file_def fs_call_def split: prod.splits option.splits node.splits if_splits)

end
