(* ===== verification/Spec2Isabelle.thy ===== *)
theory Spec2Isabelle
  imports Bloom_Filter Trie_Index Fuzzy_Match Transfer_Delivery Transfer_Retry Pairing_Run Search_Ranking Search_Safety
    Index_Open Device_Commands Hotkey Tray Crash_Report Mac_Platform
begin

text \<open>
  A verification development for Synapt, a desktop program that indexes a device's files, finds them and
  those of paired devices, and transfers files between paired devices.  It models the Rust program
  under \<^verbatim>\<open>src/src-tauri/src\<close>; file names below are relative to it.

  \<^bold>\<open>The program.\<close>  A device has an identity (\<^verbatim>\<open>trust/store.rs\<close>) and a database (\<^verbatim>\<open>storage/db.rs\<close>).  It
  announces itself and sees others by multicast (\<^verbatim>\<open>network/discovery.rs\<close>).  Two users pair their devices
  by comparing a code (\<^verbatim>\<open>network/peer.rs\<close>, by hand with \<^verbatim>\<open>network/manual_pair.rs\<close>), after which each is a
  row of the other's trusted peers.  Paired devices open encrypted sessions (\<^verbatim>\<open>network/mod.rs\<close>,
  \<^verbatim>\<open>network/crypto.rs\<close>) to request, push and resume files (\<^verbatim>\<open>network/transfer.rs\<close>, \<^verbatim>\<open>network/queue.rs\<close>) and to
  search and launch (\<^verbatim>\<open>network/search_server.rs\<close>).  Search works on rows the indexer writes
  (\<^verbatim>\<open>search/indexer.rs\<close>, \<^verbatim>\<open>search/app_indexer.rs\<close>) through a trie, a full-text index, a fuzzy matcher and a
  cache (\<^verbatim>\<open>search/engine.rs\<close>, \<^verbatim>\<open>trie.rs\<close>, \<^verbatim>\<open>bloom.rs\<close>, \<^verbatim>\<open>index.rs\<close>, \<^verbatim>\<open>fuzzy.rs\<close>), with an inline calculator
  (\<^verbatim>\<open>search/calc.rs\<close>).  A companion program talks to it over a loopback interface (\<^verbatim>\<open>ipc/server.rs\<close>).  The
  commands of the user interface (\<^verbatim>\<open>commands.rs\<close>) drive all of this; the overlay window, the shortcut, the
  shared tray, crash reports and autostart are \<^verbatim>\<open>entrance.rs\<close>, \<^verbatim>\<open>hotkey.rs\<close>, \<^verbatim>\<open>share.rs\<close>, \<^verbatim>\<open>crash.rs\<close> and
  \<^verbatim>\<open>platform/autostart.rs\<close>.

  \<^bold>\<open>Conventions.\<close>  A \<^verbatim>\<open>Result\<close> is a sum, an operation with effects is a function from a state record to a
  result and the next state (\<^verbatim>\<open>Prelude\<close>), and every early return is a branch.  Machine integers keep
  their width (\<^verbatim>\<open>64 word\<close>); characters stand for U+0000 to U+00FF and paths are Unix paths
  (\<^verbatim>\<open>Rust_Std\<close>); \<^verbatim>\<open>f64\<close> is IEEE binary64 (\<^verbatim>\<open>F64\<close>).  What may fail does so by a schedule of failures in the
  state (statements, file calls, connections, programs), so a theorem without a hypothesis on the
  schedule holds however calls fail.  Threads and tasks are sequences of atomic steps: one turn of the
  discovery loop, one operation of the pairing system, one half of a tray request.  Libraries are
  parameters with their laws as named hypotheses (\<^verbatim>\<open>dh_ok\<close>, \<^verbatim>\<open>seal_ok\<close>, \<^verbatim>\<open>b64_ok\<close>, \<^verbatim>\<open>random_ok\<close>, \<^verbatim>\<open>hkdf_ok\<close>,
  \<^verbatim>\<open>json_ok\<close>, \<^verbatim>\<open>lru_ok\<close> and others), each met by a concrete instance (\<^verbatim>\<open>toy_ext\<close>, \<^verbatim>\<open>toy_json\<close>) on which the
  witnesses run.

  \<^bold>\<open>Theories, in the order of the code's layers.\<close>
  \<^item> \<^verbatim>\<open>Prelude\<close>, \<^verbatim>\<open>Action_Rules\<close>, \<^verbatim>\<open>Rust_Std\<close>, \<^verbatim>\<open>F64\<close>: results, actions and their invariants, strings and
    paths, floating point.
  \<^item> \<^verbatim>\<open>Database\<close>: the tables and every query; keys stay unique through every statement, batches are atomic.
    The locale \<^verbatim>\<open>keyed_store\<close> is the interface of a table with a key.
  \<^item> \<^verbatim>\<open>Crypto_Frame\<close>, \<^verbatim>\<open>Trust_Store\<close>, \<^verbatim>\<open>Session\<close>: keys, codes, sealed frames, the identity, the handshake: only
    trusted devices get a session, others learn nothing, both sides get the same key.  The locale
    \<^verbatim>\<open>frame_codec\<close> is the interface of a framing.
  \<^item> \<^verbatim>\<open>Invite_Code\<close>, \<^verbatim>\<open>Discovery\<close>, \<^verbatim>\<open>Pairing\<close>, \<^verbatim>\<open>Pairing_Run\<close>: finding and pairing devices: a device is trusted
    only after a decision of the user, and both sides of a pairing agree.
  \<^item> \<^verbatim>\<open>File_System\<close>, \<^verbatim>\<open>Transfer_Queue\<close>, \<^verbatim>\<open>Transfer_Base\<close>, \<^verbatim>\<open>Transfer_Server\<close>, \<^verbatim>\<open>Transfer_Client\<close>: the transfer code,
    with the locales \<^verbatim>\<open>access_gate\<close> and \<^verbatim>\<open>progress_log\<close>.  \<^verbatim>\<open>Transfer_Safety\<close> shows what a connection can see
    and change, \<^verbatim>\<open>Transfer_Delivery\<close> that a resumed transfer leaves the server's bytes at the client and
    that what is reported received has the announced checksum, \<^verbatim>\<open>Transfer_Retry\<close> that retries are bounded.
  \<^item> \<^verbatim>\<open>Calculator\<close>, \<^verbatim>\<open>Bloom_Filter\<close>, \<^verbatim>\<open>Trie_Index\<close>, \<^verbatim>\<open>Fuzzy_Match\<close>, \<^verbatim>\<open>Fulltext\<close>: the search data structures, each
    against its specification (a grammar, a set of bits, a map, least edit distance, substring).  The
    locale \<^verbatim>\<open>prefix_index\<close> is the interface of the trie.
  \<^item> \<^verbatim>\<open>Search_Engine\<close>, \<^verbatim>\<open>Search_Ranking\<close>, \<^verbatim>\<open>Search_Server\<close>, \<^verbatim>\<open>Search_Safety\<close>: the pipeline and the remote side: results
    are ranked, distinct and cut; a peer sees only what the gate lets through and starts only what this
    device indexed.
  \<^item> \<^verbatim>\<open>Indexer\<close>, \<^verbatim>\<open>Index_Scan\<close>, \<^verbatim>\<open>Index_Refresh\<close>, \<^verbatim>\<open>Index_Open\<close>, \<^verbatim>\<open>App_Indexer\<close>: the walk over a directory tree against the rows the
    tree describes, pruning, agreement of all indexes after a refresh, the end of every refresh, an
    index that opens whatever an older version left, and desktop files.
  \<^item> \<^verbatim>\<open>Ipc_Server\<close>: the loopback interface and the temporary files of clips.
  \<^item> \<^verbatim>\<open>Device_Commands\<close>: commands over the above, with the device's name as a typed value.
  \<^item> \<^verbatim>\<open>Main_Window\<close>, \<^verbatim>\<open>Hotkey\<close>, \<^verbatim>\<open>Tray\<close>, \<^verbatim>\<open>Crash_Report\<close>, \<^verbatim>\<open>Autostart\<close>: the desktop side; the window obeys the last
    request, the tray loses no show but in one race, a crash is shown once.
  \<^item> \<^verbatim>\<open>Mac_Platform\<close>: application bundles, the icon cache and the LaunchAgent of the macOS build.
  \<^item> This theory: what spans components, the reach of a revocation.

  \<^bold>\<open>Termination and bounds.\<close>  No definition uses fuel.  Loops over a connection decrease the bytes still
  pending on it (\<^verbatim>\<open>recv_loop\<close>), the parser its tokens, the retry loop its table of six delays, the walk
  the directory tree, which is finite.  Bounds on sizes appear where the code has them (frames, icons,
  results, histories) or where arithmetic may wrap: query lengths below 2^53 for exact scores, fewer
  than 2^64 window requests for the generation counter.

  \<^bold>\<open>Not modelled.\<close>  Accepting connections and spawning tasks (the handlers are modelled per connection);
  opening sockets and the database file; SQL text and migrations, replaced by the
  tables' semantics; JSON, ciphers, hashing, the full-text engine, the caches' eviction and the shortcut,
  updater, dialog and tray libraries, which are parameters; code compiled only for Windows
  (registry, shell icons) and the Objective-C calls of macOS; memory reports, log lines and the web interface;
  commands that only forward to a library.  The request that hands a clip to the companion is
  \<^verbatim>\<open>deliver_clip\<close>; in the transfer theories it is an event.
\<close>

section \<open>Revocation\<close>

lemma revoke_peer_cmd_Inr:
  assumes "revoke_peer_cmd errtext i a = (Inr (), a')"
  shows "trusted_peers (w_db (pa_world a')) = filter (\<lambda>p. tp_device_id p \<noteq> i) (trusted_peers (w_db (pa_world a)))
    \<and> p_trusted (pa_world a') = p_trusted (pa_world a) - {i}"
  using assms
  by (auto simp: revoke_peer_cmd_def revoke_peer_def remove_trusted_peer_def act_simps Let_def delete_by_def
      split: prod.splits sum.splits dest!: execute_Inr)

lemma trusted_peer_of_Inr: "trusted_peer_of x et t i w = (Inr p, v) \<Longrightarrow> known_peer x i (w_db w)"
  by (auto simp: trusted_peer_of_def split: prod.splits sum.splits dest!: list_trusted_peers_Inr dest: find_Some_mem)

lemma trusted_peer_of_dials: "trusted_peer_of x et t i w = (r, v) \<Longrightarrow> sv_dialed v = sv_dialed w"
  by (auto simp: trusted_peer_of_def split: prod.splits sum.splits)

lemma unknown_not_searched:
  assumes "\<not> known_peer x i (w_db s)"
  shows "\<exists>e u. search_remote x j et ident pm i q s = (Inl e, u) \<and> sv_dialed u = sv_dialed s"
    and "\<exists>e u. remote_launch_app x j et ident pm i q s = (Inl e, u) \<and> sv_dialed u = sv_dialed s"
proof -
  have "\<exists>e u. act_bind (trusted_peer_of x et t i) f s = (Inl e, u) \<and> sv_dialed u = sv_dialed s" for t and f :: "trusted_peer \<Rightarrow> ('a, 'b) cmd_act"
  proof -
    obtain r u where "trusted_peer_of x et t i s = (r, u)" by fastforce
    with assms trusted_peer_of_Inr [of x et t i s] trusted_peer_of_dials show ?thesis
      by (cases r) (auto simp: act_bind_run)
  qed
  then show "\<exists>e u. search_remote x j et ident pm i q s = (Inl e, u) \<and> sv_dialed u = sv_dialed s"
    "\<exists>e u. remote_launch_app x j et ident pm i q s = (Inl e, u) \<and> sv_dialed u = sv_dialed s"
    unfolding search_remote_def remote_launch_app_def by blast+
qed


text \<open>Rows are stored under the id as the peer spelled it, the list shows the parsed id: revoking what
  the list shows leaves the row of a peer that spelled its id otherwise.\<close>

lemma revocation_misses_spelling:
  assumes "p \<in> set (trusted_peers d)" "x_uuid_parse x (tp_device_id p) = Some i" "tp_device_id p \<noteq> i"
    and "revoke_peer i d = (Inr (), d')"
  shows "known_peer x i d'"
  using assms
  by (auto simp: known_peer_def revoke_peer_def remove_trusted_peer_def act_simps delete_by_def
      split: prod.splits sum.splits dest!: execute_Inr)

definition toy_paired :: pair_app where
  "toy_paired = \<lparr> pa_world = (toy_pworld 1 (idle []))\<lparr>w_db := db_empty\<lparr>trusted_peers := [toy_peer]\<rparr>, p_trusted := {''alice''}\<rparr>,
     pa_pending = None \<rparr>"

definition toy_revoked :: pair_app where
  "toy_revoked = snd (revoke_peer_cmd (\<lambda>_. []) ''alice'' toy_paired)"

lemma toy_revoke_run: "revoke_peer_cmd (\<lambda>_. []) ''alice'' toy_paired = (Inr (), toy_revoked)"
  by (simp add: toy_revoked_def toy_paired_def revoke_peer_cmd_def revoke_peer_def remove_trusted_peer_def act_simps
      execute_no_faults db_empty_def Let_def)


end
